(* ===== verification/Prelude.thy ===== *)
theory Prelude
  imports "HOL-Library.Word" "HOL-Library.Finite_Map"
begin

text \<open>
  Shared vocabulary of the Olric development: the machine types of the Go code, outcomes of a
  call (a return or a run-time panic), the error values the packages return, off-heap memory
  with Go's slice and \<open>copy\<close> semantics, and the big-endian codecs of \<open>encoding/binary\<close>.

  Go's \<open>[]byte\<close> and \<open>string\<close> are byte lists; \<open>uint64\<close> keys are \<open>64 word\<close>; a Go map whose
  length or iteration matters is a finite map.
\<close>

section \<open>Machine types and outcomes\<close>

type_synonym byte = "8 word"
type_synonym bytes = "byte list"
type_synonym hkey = "64 word"

text \<open>The bytes of a Go string literal, and \<open>strconv.Itoa\<close>.\<close>

definition string_bytes :: "string \<Rightarrow> bytes" where
  "string_bytes s = map (\<lambda>c. word_of_nat (of_char c)) s"

fun nat_digits :: "nat \<Rightarrow> string" where
  "nat_digits n = (if n < 10 then [char_of (48 + n)] else nat_digits (n div 10) @ [char_of (48 + n mod 10)])"

declare nat_digits.simps [simp del]

definition itoa :: "int \<Rightarrow> string" where
  "itoa i = (if i < 0 then CHR ''-'' # nat_digits (nat (- i)) else nat_digits (nat i))"

lemma length_string_bytes [simp]: "length (string_bytes s) = length s"
  by (simp add: string_bytes_def)

text \<open>
  The error values of the packages \<open>storage\<close>, \<open>protocol\<close>, \<open>snapshot\<close> and \<open>olric\<close>.
  \<open>ErrOther\<close> carries the text of an error that only has a message.
\<close>

datatype gerr =
    ErrKeyTooLarge
  | ErrNotEnoughSpace
  | ErrKeyNotFound
  | ErrFragmented
  | ErrMmap
  | ErrMunmap
  | ErrValueTooBig
  | ErrConnClosed
  | ErrEOF
  | ErrUnexpectedEOF
  | ErrNoSuchLock
  | ErrOperationTimeout
  | ErrInternalServerError
  | ErrPartNotEmpty
  | ErrBackupNotEmpty
  | ErrHostNotFound
  | ErrInsufficientMemberCount
  | ErrLoaderDone
  | ErrFirstRun
  | ErrOther string

text \<open>A Go call either returns or panics (an index out of range, an explicit \<open>panic\<close>).\<close>

datatype 'a outcome = Ret 'a | Panic

fun bind_outcome :: "'a outcome \<Rightarrow> ('a \<Rightarrow> 'b outcome) \<Rightarrow> 'b outcome" where
  "bind_outcome (Ret x) f = f x"
| "bind_outcome Panic f = Panic"

fun map_ret :: "('a \<Rightarrow> 'b) \<Rightarrow> 'a outcome \<Rightarrow> 'b outcome" where
  "map_ret f (Ret x) = Ret (f x)"
| "map_ret f Panic = Panic"

lemma bind_outcome_Ret_iff [simp]:
  "bind_outcome c f = Ret y \<longleftrightarrow> (\<exists>x. c = Ret x \<and> f x = Ret y)"
  by (cases c) auto

lemma bind_outcome_Panic_iff:
  "bind_outcome c f = Panic \<longleftrightarrow> c = Panic \<or> (\<exists>x. c = Ret x \<and> f x = Panic)"
  by (cases c) auto

lemma bind_outcome_assoc:
  "bind_outcome (bind_outcome c f) g = bind_outcome c (\<lambda>x. bind_outcome (f x) g)"
  by (cases c) auto

lemma map_ret_eq_Ret [simp]: "map_ret f c = Ret y \<longleftrightarrow> (\<exists>x. c = Ret x \<and> y = f x)"
  by (cases c) auto

text \<open>\<open>if err != nil { return err }\<close> in a function that changes no state.\<close>

definition bind_sum :: "gerr + 'a \<Rightarrow> ('a \<Rightarrow> gerr + 'b) \<Rightarrow> gerr + 'b" where
  "bind_sum r f = (case r of Inl e \<Rightarrow> Inl e | Inr x \<Rightarrow> f x)"

lemma bind_sum_Inr_iff: "bind_sum r f = Inr y \<longleftrightarrow> (\<exists>x. r = Inr x \<and> f x = Inr y)"
  by (cases r) (auto simp: bind_sum_def)

section \<open>Finite maps\<close>

lemma fcard_fmdom: "fcard (fmdom m) = card (fmdom' m)"
  by (simp add: fmdom'_alt_def fcard.rep_eq)

lemma fmdom'_lookup: "h \<in> fmdom' m \<longleftrightarrow> fmlookup m h \<noteq> None"
  by (simp add: fmdom'_alt_def fmlookup_dom_iff)

section \<open>Automation shared by the components\<close>

text \<open>
  \<open>mem_simps\<close> reads and writes off-heap memory, \<open>codec_simps\<close> encodes and decodes integers.
  Component theories add to both.
\<close>

named_theorems mem_simps
named_theorems codec_simps

section \<open>Off-heap memory\<close>

text \<open>
  A \<open>[]byte\<close> obtained from \<open>mmap\<close>: its length and its contents. An anonymous mapping starts
  zeroed. Contents beyond \<open>mlen\<close> are never read: every access checks the bounds, as Go does.
\<close>

record memory =
  mlen :: nat
  mat :: "nat \<Rightarrow> byte"

definition mem_zero :: "nat \<Rightarrow> memory" where
  "mem_zero n = \<lparr>mlen = n, mat = (\<lambda>_. 0)\<rparr>"

definition mem_read :: "memory \<Rightarrow> nat \<Rightarrow> nat \<Rightarrow> bytes" where
  "mem_read m off n = map (mat m) [off..<off + n]"

definition mem_write :: "memory \<Rightarrow> nat \<Rightarrow> bytes \<Rightarrow> memory" where
  "mem_write m off src =
     m\<lparr>mat := (\<lambda>i. if off \<le> i \<and> i < off + length src then src ! (i - off) else mat m i)\<rparr>"

text \<open>\<open>m[lo:hi]\<close>, which panics unless \<open>lo \<le> hi \<le> len(m)\<close>, and \<open>m[i]\<close>.\<close>

definition mem_slice :: "memory \<Rightarrow> nat \<Rightarrow> nat \<Rightarrow> bytes outcome" where
  "mem_slice m lo hi = (if lo \<le> hi \<and> hi \<le> mlen m then Ret (mem_read m lo (hi - lo)) else Panic)"

definition mem_index :: "memory \<Rightarrow> nat \<Rightarrow> byte outcome" where
  "mem_index m i = (if i < mlen m then Ret (mat m i) else Panic)"

text \<open>\<open>copy(m[off:], src)\<close>: as many bytes as fit; the slice expression panics past the end.\<close>

definition mem_copy :: "memory \<Rightarrow> nat \<Rightarrow> bytes \<Rightarrow> memory outcome" where
  "mem_copy m off src =
     (if off \<le> mlen m then Ret (mem_write m off (take (mlen m - off) src)) else Panic)"

text \<open>\<open>PutUint64(m[off:], v)\<close> and \<open>PutUint32\<close> panic unless all their bytes fit.\<close>

definition mem_store :: "memory \<Rightarrow> nat \<Rightarrow> bytes \<Rightarrow> memory outcome" where
  "mem_store m off src =
     (if off + length src \<le> mlen m then Ret (mem_write m off src) else Panic)"

definition mem_has :: "memory \<Rightarrow> nat \<Rightarrow> bytes \<Rightarrow> bool" where
  "mem_has m off bs \<longleftrightarrow> mem_read m off (length bs) = bs"

lemma mlen_mem_zero [simp]: "mlen (mem_zero n) = n"
  by (simp add: mem_zero_def)

lemma mlen_mem_write [simp]: "mlen (mem_write m off src) = mlen m"
  by (simp add: mem_write_def)

lemma length_mem_read [simp]: "length (mem_read m off n) = n"
  by (simp add: mem_read_def)

lemma mem_has_nth: "mem_has m off bs \<longleftrightarrow> (\<forall>i < length bs. mat m (off + i) = bs ! i)"
  unfolding mem_has_def mem_read_def by (subst list_eq_iff_nth_eq) simp

lemma mem_has_Nil [simp, mem_simps]: "mem_has m off []"
  by (simp add: mem_has_nth)

lemma mem_has_append [mem_simps]:
  "mem_has m off (xs @ ys) \<longleftrightarrow> mem_has m off xs \<and> mem_has m (off + length xs) ys"
proof -
  have "(\<forall>i < length xs + length ys. mat m (off + i) = (xs @ ys) ! i) \<longleftrightarrow>
        (\<forall>i < length xs. mat m (off + i) = xs ! i) \<and>
        (\<forall>i < length ys. mat m (off + length xs + i) = ys ! i)"
    (is "?l \<longleftrightarrow> ?r1 \<and> ?r2")
  proof
    assume l: ?l
    show "?r1 \<and> ?r2"
    proof (intro conjI allI impI)
      fix i assume "i < length xs"
      with l show "mat m (off + i) = xs ! i" by (auto simp: nth_append)
    next
      fix i assume "i < length ys"
      with l [rule_format, of "length xs + i"]
      show "mat m (off + length xs + i) = ys ! i" by (simp add: nth_append add.assoc)
    qed
  next
    assume r: "?r1 \<and> ?r2"
    show ?l
    proof (intro allI impI)
      fix i assume i: "i < length xs + length ys"
      show "mat m (off + i) = (xs @ ys) ! i"
      proof (cases "i < length xs")
        case True
        with r show ?thesis by (simp add: nth_append)
      next
        case False
        with i have "i - length xs < length ys" by simp
        with r have "mat m (off + length xs + (i - length xs)) = ys ! (i - length xs)" by blast
        with False show ?thesis by (simp add: nth_append)
      qed
    qed
  qed
  then show ?thesis by (simp add: mem_has_nth)
qed

lemma mem_has_Cons [mem_simps]:
  "mem_has m off (x # xs) \<longleftrightarrow> mat m off = x \<and> mem_has m (Suc off) xs"
  using mem_has_append [of m off "[x]" xs] by (simp add: mem_has_nth)

lemma mem_has_slice [mem_simps]:
  assumes "mem_has m off bs" and "off + length bs \<le> mlen m" and "hi = off + length bs"
  shows "mem_slice m off hi = Ret bs"
  using assms by (simp add: mem_slice_def mem_has_def)

lemma mem_has_write_same [simp, mem_simps]: "mem_has (mem_write m off bs) off bs"
  by (simp add: mem_has_nth mem_write_def)

lemma mem_has_write_below [mem_simps]:
  "off + length bs \<le> off' \<Longrightarrow> mem_has (mem_write m off' src) off bs \<longleftrightarrow> mem_has m off bs"
  by (auto simp: mem_has_nth mem_write_def)

lemma mem_write_append:
  "mem_write (mem_write m off xs) (off + length xs) ys = mem_write m off (xs @ ys)"
  by (rule memory.equality) (auto simp: mem_write_def nth_append fun_eq_iff)

lemma mem_write_append':
  "off' = off + length xs \<Longrightarrow> mem_write (mem_write m off xs) off' ys = mem_write m off (xs @ ys)"
  by (simp add: mem_write_append)

lemma mem_copy_fits [mem_simps]:
  "off + length src \<le> mlen m \<Longrightarrow> mem_copy m off src = Ret (mem_write m off src)"
  by (simp add: mem_copy_def)

lemma mem_store_fits [mem_simps]:
  "off + length src \<le> mlen m \<Longrightarrow> mem_store m off src = Ret (mem_write m off src)"
  by (simp add: mem_store_def)

section \<open>Slices of byte lists\<close>

text \<open>\<open>bs[lo:hi]\<close> and \<open>bs[i]\<close> on an ordinary slice whose capacity is its length.\<close>

definition bytes_slice :: "bytes \<Rightarrow> nat \<Rightarrow> nat \<Rightarrow> bytes outcome" where
  "bytes_slice bs lo hi =
     (if lo \<le> hi \<and> hi \<le> length bs then Ret (take (hi - lo) (drop lo bs)) else Panic)"

definition bytes_index :: "bytes \<Rightarrow> nat \<Rightarrow> byte outcome" where
  "bytes_index bs i = (if i < length bs then Ret (bs ! i) else Panic)"

lemma bytes_slice_mid:
  "lo = length xs \<Longrightarrow> hi = length xs + length ys \<Longrightarrow> bytes_slice (xs @ ys @ zs) lo hi = Ret ys"
  by (simp add: bytes_slice_def)

section \<open>Big-endian integers\<close>

text \<open>
  \<open>be_put n v\<close> is the \<open>n\<close>-byte big-endian image of \<open>v\<close> (the low \<open>8 n\<close> bits), \<open>be_get\<close> reads
  one back; \<open>binary.BigEndian\<close> and the fixed-size integers of \<open>binary.Read\<close>/\<open>binary.Write\<close>
  are instances at widths 1, 2, 4 and 8.
\<close>

primrec be_put :: "nat \<Rightarrow> nat \<Rightarrow> bytes" where
  "be_put 0 v = []"
| "be_put (Suc n) v = be_put n (v div 256) @ [word_of_nat (v mod 256)]"

definition be_get :: "bytes \<Rightarrow> nat" where
  "be_get bs = foldl (\<lambda>a b. a * 256 + unat b) 0 bs"

definition putUint64 :: "64 word \<Rightarrow> bytes" where
  "putUint64 w = be_put 8 (unat w)"

definition getUint64 :: "bytes \<Rightarrow> 64 word" where
  "getUint64 bs = word_of_nat (be_get bs)"

definition putUint32 :: "32 word \<Rightarrow> bytes" where
  "putUint32 w = be_put 4 (unat w)"

definition getUint32 :: "bytes \<Rightarrow> 32 word" where
  "getUint32 bs = word_of_nat (be_get bs)"

definition putUint16 :: "16 word \<Rightarrow> bytes" where
  "putUint16 w = be_put 2 (unat w)"

definition getUint16 :: "bytes \<Rightarrow> 16 word" where
  "getUint16 bs = word_of_nat (be_get bs)"

declare unsigned_of_nat [simp del]

lemma unat_bound: "unat w < 2 ^ LENGTH('a)" for w :: "'a::len word"
  by (rule unsigned_less)

lemma length_be_put [simp]: "length (be_put n v) = n"
  by (induction n arbitrary: v) auto

lemma be_get_append: "be_get (xs @ [b]) = be_get xs * 256 + unat b"
  by (simp add: be_get_def)

lemma unat_byte_mod: "unat (word_of_nat (v mod 256) :: byte) = v mod 256"
  by (simp add: unat_of_nat)

lemma be_get_put: "be_get (be_put n v) = v mod 256 ^ n"
proof (induction n arbitrary: v)
  case 0
  show ?case by (simp add: be_get_def)
next
  case (Suc n)
  have "be_get (be_put (Suc n) v) = (v div 256 mod 256 ^ n) * 256 + v mod 256"
    by (simp add: be_get_append Suc.IH unat_byte_mod)
  also have "\<dots> = v mod (256 * 256 ^ n)"
    by (simp add: mod_mult2_eq mult.commute)
  finally show ?case by simp
qed

lemma be_put_get: "be_put (length bs) (be_get bs) = bs"
proof (induction bs rule: rev_induct)
  case Nil
  show ?case by simp
next
  case (snoc b bs)
  have b: "unat b < 256" using unat_bound [of b] by simp
  have "be_get (bs @ [b]) div 256 = be_get bs" and "be_get (bs @ [b]) mod 256 = unat b"
    using b by (simp_all add: be_get_append)
  then show ?case by (simp add: snoc.IH)
qed

lemma length_putUint [simp, codec_simps]:
  "length (putUint64 w) = 8" "length (putUint32 x) = 4" "length (putUint16 y) = 2"
  by (simp_all add: putUint64_def putUint32_def putUint16_def)

lemma getUint64_put [simp, codec_simps]: "getUint64 (putUint64 w) = w"
  using unat_bound [of w] by (simp add: getUint64_def putUint64_def be_get_put)

lemma getUint32_put [simp, codec_simps]: "getUint32 (putUint32 w) = w"
  using unat_bound [of w] by (simp add: getUint32_def putUint32_def be_get_put)

lemma getUint16_put [simp, codec_simps]: "getUint16 (putUint16 w) = w"
  using unat_bound [of w] by (simp add: getUint16_def putUint16_def be_get_put)

lemma be_get_less: "be_get bs < 256 ^ length bs"
proof (induction bs rule: rev_induct)
  case Nil
  show ?case by (simp add: be_get_def)
next
  case (snoc b bs)
  have "unat b < 256" using unat_bound [of b] by simp
  with snoc.IH have "be_get bs * 256 + unat b < (be_get bs + 1) * 256" by simp
  also have "\<dots> \<le> 256 ^ length bs * 256" using snoc.IH by (intro mult_right_mono) simp_all
  finally show ?case by (simp add: be_get_append mult.commute)
qed

lemma putUint64_get [codec_simps]:
  assumes "length bs = 8"
  shows "putUint64 (getUint64 bs) = bs"
proof -
  have "unat (word_of_nat (be_get bs) :: 64 word) = be_get bs"
    using be_get_less [of bs] assms by (simp add: unat_of_nat)
  then show ?thesis
    using be_put_get [of bs] assms by (simp add: putUint64_def getUint64_def)
qed

end
