(* ===== verification/Kv_Store.thy ===== *)
theory Kv_Store
  imports Prelude
begin

text \<open>
  The contract between a key/value container of the \<open>storage\<close> package and its clients. A
  container keeps an invariant and represents a partial map; a successful \<open>put\<close> overwrites
  one key, a \<open>delete\<close> leaves every other key alone and removes its own key when that key is
  stored once. Tables and storage instances both provide the contract; the client's view of a
  whole history of operations is derived here once.
\<close>

section \<open>Histories of operations\<close>

datatype 'v kv_op = KPut hkey 'v | KDel hkey

text \<open>The map a history should leave behind.\<close>

fun kv_spec :: "(hkey \<rightharpoonup> 'v) \<Rightarrow> 'v kv_op list \<Rightarrow> (hkey \<rightharpoonup> 'v)" where
  "kv_spec m [] = m"
| "kv_spec m (KPut h v # ops) = kv_spec (m(h \<mapsto> v)) ops"
| "kv_spec m (KDel h # ops) = kv_spec (m(h := None)) ops"

text \<open>
  A history of successful calls. \<open>sole s h\<close> says that no older version of \<open>h\<close> is hidden
  behind the visible one, the condition under which a deletion is complete.
\<close>

inductive kv_trace ::
  "('s \<Rightarrow> hkey \<Rightarrow> 'v \<Rightarrow> 's \<Rightarrow> bool) \<Rightarrow> ('s \<Rightarrow> hkey \<Rightarrow> 's \<Rightarrow> bool) \<Rightarrow> ('s \<Rightarrow> hkey \<Rightarrow> bool) \<Rightarrow>
   ('v \<Rightarrow> bool) \<Rightarrow> 's \<Rightarrow> 'v kv_op list \<Rightarrow> 's \<Rightarrow> bool"
  for puts dels sole valid where
  kv_nil: "kv_trace puts dels sole valid s [] s"
| kv_put: "puts s h v s1 \<Longrightarrow> valid v \<Longrightarrow> kv_trace puts dels sole valid s1 ops s' \<Longrightarrow>
     kv_trace puts dels sole valid s (KPut h v # ops) s'"
| kv_del: "dels s h s1 \<Longrightarrow> sole s h \<Longrightarrow> kv_trace puts dels sole valid s1 ops s' \<Longrightarrow>
     kv_trace puts dels sole valid s (KDel h # ops) s'"

section \<open>The contract\<close>

locale kv_container =
  fixes inv :: "'s \<Rightarrow> bool"
    and abs :: "'s \<Rightarrow> hkey \<Rightarrow> 'v option"
    and lookup :: "'s \<Rightarrow> hkey \<Rightarrow> 'v option outcome"
    and puts :: "'s \<Rightarrow> hkey \<Rightarrow> 'v \<Rightarrow> 's \<Rightarrow> bool"
    and dels :: "'s \<Rightarrow> hkey \<Rightarrow> 's \<Rightarrow> bool"
    and sole :: "'s \<Rightarrow> hkey \<Rightarrow> bool"
    and valid :: "'v \<Rightarrow> bool"
  assumes lookup_abs: "inv s \<Longrightarrow> lookup s h = Ret (abs s h)"
    and put_inv: "inv s \<Longrightarrow> valid v \<Longrightarrow> puts s h v s' \<Longrightarrow> inv s'"
    and put_abs: "inv s \<Longrightarrow> valid v \<Longrightarrow> puts s h v s' \<Longrightarrow> abs s' = (abs s)(h \<mapsto> v)"
    and del_inv: "inv s \<Longrightarrow> dels s h s' \<Longrightarrow> inv s'"
    and del_other: "inv s \<Longrightarrow> dels s h s' \<Longrightarrow> k \<noteq> h \<Longrightarrow> abs s' k = abs s k"
    and del_sole: "inv s \<Longrightarrow> dels s h s' \<Longrightarrow> sole s h \<Longrightarrow> abs s' h = None"
begin

lemma read_your_write:
  assumes "inv s" and "valid v" and "puts s h v s'"
  shows "lookup s' h = Ret (Some v)"
  using assms by (simp add: lookup_abs put_inv put_abs)

lemma put_keeps_other:
  assumes "inv s" and "valid v" and "puts s h v s'" and "k \<noteq> h"
  shows "lookup s' k = lookup s k"
  using assms by (simp add: lookup_abs put_inv put_abs)

lemma del_abs:
  assumes "inv s" and "dels s h s'" and "sole s h"
  shows "abs s' = (abs s)(h := None)"
  using assms by (auto simp: fun_eq_iff del_other del_sole)

lemma trace_refines:
  assumes "kv_trace puts dels sole valid s ops s'" and "inv s"
  shows "inv s' \<and> abs s' = kv_spec (abs s) ops"
  using assms
proof (induction rule: kv_trace.induct)
  case (kv_nil s)
  then show ?case by simp
next
  case (kv_put s h v s1 ops s')
  from kv_put.prems kv_put.hyps have "inv s1" and "abs s1 = (abs s)(h \<mapsto> v)"
    by (blast intro: put_inv, blast intro: put_abs)
  with kv_put.IH show ?case by (simp only: kv_spec.simps)
next
  case (kv_del s h s1 ops s')
  from kv_del.prems kv_del.hyps have "inv s1" and "abs s1 = (abs s)(h := None)"
    by (blast intro: del_inv, blast intro: del_abs)
  with kv_del.IH show ?case by (simp only: kv_spec.simps)
qed

lemma trace_lookup:
  assumes "kv_trace puts dels sole valid s ops s'" and "inv s"
  shows "lookup s' h = Ret (kv_spec (abs s) ops h)"
  using trace_refines [OF assms] by (simp add: lookup_abs)

end

end
