(* ===== verification/Table.thy ===== *)
theory Table
  imports Kv_Store
begin

text \<open>
  \<open>internal/storage/table.go\<close>: one off-heap table, an append-only byte arena with a map from
  hashed keys to offsets. The operations are \<open>newTable\<close>, \<open>malloc\<close>, \<open>close\<close>, \<open>putRaw\<close>,
  \<open>put\<close>, \<open>getRaw\<close>, \<open>get\<close> and \<open>delete\<close>; the lemmas show that a well-formed table never
  panics, implements a finite map of entries and accounts for every byte it hands out.

  Sizes and offsets are \<open>int\<close> in Go; offsets and lengths are never negative and are natural
  numbers here, the byte counters \<open>inuse\<close> and \<open>garbage\<close>, which are subtracted from, are
  integers. The success of \<open>mmap\<close> and \<open>munmap\<close> is a parameter.
\<close>

section \<open>Data\<close>

definition maxKeyLen :: nat where
  "maxKeyLen = 256"

definition minimumSize :: nat where
  "minimumSize = 2 ^ 20"

text \<open>\<open>storage.VData\<close>. The time-to-live keeps its 64 bits; \<open>sint\<close> reads it as \<open>int64\<close>.\<close>

record vdata =
  vkey :: bytes
  vttl :: "64 word"
  vvalue :: bytes

record table =
  hkeys :: "(hkey, nat) fmap"
  memory :: memory
  offset :: nat
  allocated :: nat
  inuse :: int
  garbage :: int

text \<open>Which sizes the operating system maps and unmaps.\<close>

record os =
  mmap_ok :: "nat \<Rightarrow> bool"
  munmap_ok :: "nat \<Rightarrow> bool"

section \<open>Operations\<close>

definition malloc :: "os \<Rightarrow> table \<Rightarrow> nat \<Rightarrow> gerr + table" where
  "malloc os t n =
     (if mmap_ok os n then Inr (t\<lparr>memory := mem_zero n\<rparr>) else Inl ErrMmap)"

definition newTable :: "os \<Rightarrow> int \<Rightarrow> gerr + table" where
  "newTable os sz =
     (let n = (if sz < int minimumSize then minimumSize else nat sz);
          t = \<lparr>hkeys = fmempty, memory = mem_zero 0, offset = 0, allocated = n,
               inuse = 0, garbage = 0\<rparr>
      in malloc os t n)"

definition table_close :: "os \<Rightarrow> table \<Rightarrow> gerr option" where
  "table_close os t = (if munmap_ok os (mlen (memory t)) then None else Some ErrMunmap)"

definition table_putRaw :: "table \<Rightarrow> hkey \<Rightarrow> bytes \<Rightarrow> (table \<times> gerr option) outcome" where
  "table_putRaw t h value =
     (if length value + offset t \<ge> allocated t then Ret (t, Some ErrNotEnoughSpace)
      else bind_outcome (mem_copy (memory t) (offset t) value) (\<lambda>m.
        Ret (t\<lparr>hkeys := fmupd h (offset t) (hkeys t), memory := m,
               inuse := inuse t + int (length value),
               offset := offset t + length value\<rparr>, None)))"

text \<open>\<open>delete\<close> answers whether the previous table has to be tried.\<close>

definition table_delete :: "table \<Rightarrow> hkey \<Rightarrow> (table \<times> bool) outcome" where
  "table_delete t h =
     (case fmlookup (hkeys t) h of
        None \<Rightarrow> Ret (t, True)
      | Some off \<Rightarrow>
          bind_outcome (mem_index (memory t) off) (\<lambda>kl.
          let klen = unat kl; off2 = off + 1 + klen + 8 in
          bind_outcome (mem_slice (memory t) off2 (off2 + 4)) (\<lambda>vl.
          let vlen = unat (getUint32 vl);
              g = 1 + klen + 8 + 4 + vlen in
          Ret (t\<lparr>hkeys := fmdrop h (hkeys t), garbage := garbage t + int g,
                 inuse := inuse t - int g\<rparr>, False))))"

text \<open>
  The entry layout: key length (1 byte), key, TTL (8 bytes), value length (4 bytes), value.
  The key length is cast to \<open>uint8\<close> and the value length to \<open>uint32\<close>.
\<close>

definition table_put :: "table \<Rightarrow> hkey \<Rightarrow> vdata \<Rightarrow> (table \<times> gerr option) outcome" where
  "table_put t h v =
     (if length (vkey v) \<ge> maxKeyLen then Ret (t, Some ErrKeyTooLarge)
      else let n = length (vkey v) + length (vvalue v) + 13 in
      if n + offset t \<ge> allocated t then Ret (t, Some ErrNotEnoughSpace)
      else bind_outcome
        (if fmlookup (hkeys t) h \<noteq> None then map_ret fst (table_delete t h) else Ret t) (\<lambda>t1.
      let t2 = t1\<lparr>hkeys := fmupd h (offset t1) (hkeys t1), inuse := inuse t1 + int n\<rparr>;
          o1 = offset t2;
          klen = word_of_nat (length (vkey v)) :: byte in
      bind_outcome (mem_copy (memory t2) o1 [klen]) (\<lambda>m1.
      let o2 = o1 + 1 in
      bind_outcome (mem_copy m1 o2 (vkey v)) (\<lambda>m2.
      let o3 = o2 + length (vkey v) in
      bind_outcome (mem_store m2 o3 (putUint64 (vttl v))) (\<lambda>m3.
      let o4 = o3 + 8 in
      bind_outcome (mem_store m3 o4 (putUint32 (word_of_nat (length (vvalue v))))) (\<lambda>m4.
      let o5 = o4 + 4 in
      bind_outcome (mem_copy m4 o5 (vvalue v)) (\<lambda>m5.
      let o6 = o5 + length (vvalue v) in
      Ret (t2\<lparr>memory := m5, offset := o6\<rparr>, None))))))))"

text \<open>
  \<open>getRaw\<close> and \<open>get\<close> return no value together with \<open>true\<close> when the key is not in this
  table. \<open>getRaw\<close> allocates one byte more than the entry has, which stays zero.
\<close>

definition table_getRaw :: "table \<Rightarrow> hkey \<Rightarrow> bytes option outcome" where
  "table_getRaw t h =
     (case fmlookup (hkeys t) h of
        None \<Rightarrow> Ret None
      | Some start \<Rightarrow>
          bind_outcome (mem_index (memory t) start) (\<lambda>kl.
          let e1 = start + 1 + unat kl + 8 in
          bind_outcome (mem_slice (memory t) e1 (e1 + 4)) (\<lambda>vl.
          let e2 = e1 + 4 + unat (getUint32 vl) in
          bind_outcome (mem_slice (memory t) start e2) (\<lambda>raw.
          Ret (Some (raw @ [0]))))))"

definition table_get :: "table \<Rightarrow> hkey \<Rightarrow> vdata option outcome" where
  "table_get t h =
     (case fmlookup (hkeys t) h of
        None \<Rightarrow> Ret None
      | Some off \<Rightarrow>
          bind_outcome (mem_index (memory t) off) (\<lambda>kl.
          let o1 = off + 1; klen = unat kl in
          bind_outcome (mem_slice (memory t) o1 (o1 + klen)) (\<lambda>key.
          let o2 = o1 + klen in
          bind_outcome (mem_slice (memory t) o2 (o2 + 8)) (\<lambda>ttl.
          let o3 = o2 + 8 in
          bind_outcome (mem_slice (memory t) o3 (o3 + 4)) (\<lambda>vl.
          let o4 = o3 + 4 in
          bind_outcome (mem_slice (memory t) o4 (o4 + unat (getUint32 vl))) (\<lambda>value.
          Ret (Some \<lparr>vkey = key, vttl = getUint64 ttl, vvalue = value\<rparr>)))))))"

section \<open>Entries\<close>

text \<open>The byte image of an entry, and where memory holds one.\<close>

definition encode_entry :: "vdata \<Rightarrow> bytes" where
  "encode_entry v =
     [word_of_nat (length (vkey v))] @ vkey v @ putUint64 (vttl v) @
     putUint32 (word_of_nat (length (vvalue v))) @ vvalue v"

definition entry_size :: "vdata \<Rightarrow> nat" where
  "entry_size v = length (vkey v) + length (vvalue v) + 13"

definition valid_vdata :: "vdata \<Rightarrow> bool" where
  "valid_vdata v \<longleftrightarrow> length (vkey v) < maxKeyLen \<and> length (vvalue v) < 2 ^ 32"

definition mem_entry :: "memory \<Rightarrow> nat \<Rightarrow> vdata \<Rightarrow> bool" where
  "mem_entry m off v \<longleftrightarrow>
     valid_vdata v \<and> mem_has m off (encode_entry v) \<and> off + entry_size v \<le> mlen m"

lemma length_encode_entry [simp]: "length (encode_entry v) = entry_size v"
  by (simp add: encode_entry_def entry_size_def)

lemma entry_size_pos [simp]: "0 < entry_size v"
  by (simp add: entry_size_def)

lemma unat_klen [simp]:
  "length xs < maxKeyLen \<Longrightarrow> unat (word_of_nat (length xs) :: byte) = length xs"
  by (simp add: maxKeyLen_def unat_of_nat)

lemma unat_vlen [simp]:
  "length xs < 2 ^ 32 \<Longrightarrow> unat (word_of_nat (length xs) :: 32 word) = length xs"
  by (simp add: unat_of_nat)

text \<open>Reading the five fields of an entry that memory holds.\<close>

lemma mem_entry_fields:
  assumes "mem_entry m off v"
  shows "mem_index m off = Ret (word_of_nat (length (vkey v)))"
    and "mem_slice m (off + 1) (off + 1 + length (vkey v)) = Ret (vkey v)"
    and "mem_slice m (off + 1 + length (vkey v)) (off + 1 + length (vkey v) + 8) =
           Ret (putUint64 (vttl v))"
    and "mem_slice m (off + 1 + length (vkey v) + 8) (off + 1 + length (vkey v) + 8 + 4) =
           Ret (putUint32 (word_of_nat (length (vvalue v))))"
    and "mem_slice m (off + 1 + length (vkey v) + 8 + 4)
           (off + 1 + length (vkey v) + 8 + 4 + length (vvalue v)) = Ret (vvalue v)"
    and "mem_slice m off (off + entry_size v) = Ret (encode_entry v)"
proof -
  from assms have len: "off + entry_size v \<le> mlen m" and has: "mem_has m off (encode_entry v)"
    by (simp_all add: mem_entry_def)
  note h = has [unfolded encode_entry_def mem_has_append]
  show "mem_index m off = Ret (word_of_nat (length (vkey v)))"
    using h len by (simp add: mem_index_def mem_has_Cons entry_size_def)
  show "mem_slice m (off + 1) (off + 1 + length (vkey v)) = Ret (vkey v)"
    using h len by (intro mem_has_slice) (simp_all add: entry_size_def)
  show "mem_slice m (off + 1 + length (vkey v)) (off + 1 + length (vkey v) + 8) =
           Ret (putUint64 (vttl v))"
    using h len by (intro mem_has_slice) (simp_all add: entry_size_def)
  show "mem_slice m (off + 1 + length (vkey v) + 8) (off + 1 + length (vkey v) + 8 + 4) =
           Ret (putUint32 (word_of_nat (length (vvalue v))))"
    using h len by (intro mem_has_slice) (simp_all add: entry_size_def)
  show "mem_slice m (off + 1 + length (vkey v) + 8 + 4)
           (off + 1 + length (vkey v) + 8 + 4 + length (vvalue v)) = Ret (vvalue v)"
    using h len by (intro mem_has_slice) (simp_all add: entry_size_def)
  show "mem_slice m off (off + entry_size v) = Ret (encode_entry v)"
    using has len by (intro mem_has_slice) simp_all
qed

lemma mem_entry_lengths:
  "mem_entry m off v \<Longrightarrow> unat (word_of_nat (length (vkey v)) :: byte) = length (vkey v)"
  "mem_entry m off v \<Longrightarrow> unat (word_of_nat (length (vvalue v)) :: 32 word) = length (vvalue v)"
  by (auto simp: mem_entry_def valid_vdata_def)

lemmas mem_entry_reads = mem_entry_fields mem_entry_lengths

lemma entry_end: "off + 1 + length (vkey v) + 8 + 4 + length (vvalue v) = off + entry_size v"
  by (simp add: entry_size_def)

lemma table_get_entry:
  assumes "fmlookup (hkeys t) h = Some off" and "mem_entry (memory t) off v"
  shows "table_get t h = Ret (Some v)"
  unfolding table_get_def Let_def assms(1) option.case
  by (simp only: mem_entry_reads [OF assms(2)] bind_outcome.simps getUint32_put getUint64_put) simp

lemma table_getRaw_entry:
  assumes "fmlookup (hkeys t) h = Some off" and "mem_entry (memory t) off v"
  shows "table_getRaw t h = Ret (Some (encode_entry v @ [0]))"
  unfolding table_getRaw_def Let_def assms(1) option.case
  by (simp only: mem_entry_reads [OF assms(2)] bind_outcome.simps getUint32_put entry_end)

lemma table_delete_entry:
  assumes "fmlookup (hkeys t) h = Some off" and "mem_entry (memory t) off v"
  shows "table_delete t h =
           Ret (t\<lparr>hkeys := fmdrop h (hkeys t), garbage := garbage t + int (entry_size v),
                  inuse := inuse t - int (entry_size v)\<rparr>, False)"
proof -
  have "1 + length (vkey v) + 8 + 4 + length (vvalue v) = entry_size v"
    by (simp add: entry_size_def)
  then show ?thesis
    unfolding table_delete_def Let_def assms(1) option.case
    by (simp only: mem_entry_reads [OF assms(2)] bind_outcome.simps getUint32_put)
qed

lemma table_absent:
  assumes "fmlookup (hkeys t) h = None"
  shows "table_get t h = Ret None" "table_getRaw t h = Ret None" "table_delete t h = Ret (t, True)"
  using assms by (simp_all add: table_get_def table_getRaw_def table_delete_def)

section \<open>Well-formed tables\<close>

text \<open>
  \<open>table_abs\<close> is the finite map a table represents. A table is well formed when its memory
  has the allocated size, every recorded offset holds a complete entry below the write
  position, and the counters add up: \<open>inuse + garbage\<close> is the write position and \<open>inuse\<close>
  covers the live entries.
\<close>

definition table_abs :: "table \<Rightarrow> hkey \<Rightarrow> vdata option" where
  "table_abs t h = (case table_get t h of Ret r \<Rightarrow> r | Panic \<Rightarrow> None)"

definition size_at :: "table \<Rightarrow> hkey \<Rightarrow> int" where
  "size_at t h = (case table_abs t h of None \<Rightarrow> 0 | Some v \<Rightarrow> int (entry_size v))"

definition live_size :: "table \<Rightarrow> int" where
  "live_size t = (\<Sum>h \<in> fmdom' (hkeys t). size_at t h)"

definition table_entries_ok :: "table \<Rightarrow> bool" where
  "table_entries_ok t \<longleftrightarrow>
     (\<forall>h off. fmlookup (hkeys t) h = Some off \<longrightarrow>
        (\<exists>v. mem_entry (memory t) off v \<and> off + entry_size v \<le> offset t))"

definition table_inv :: "table \<Rightarrow> bool" where
  "table_inv t \<longleftrightarrow>
     mlen (memory t) = allocated t \<and> offset t < allocated t \<and> table_entries_ok t \<and>
     inuse t + garbage t = int (offset t) \<and> 0 \<le> garbage t \<and> live_size t \<le> inuse t"

lemma table_invD:
  assumes "table_inv t"
  shows "mlen (memory t) = allocated t" "offset t < allocated t" "table_entries_ok t"
    "inuse t + garbage t = int (offset t)" "0 \<le> garbage t" "live_size t \<le> inuse t"
  using assms by (simp_all add: table_inv_def)

lemma table_entries_okE:
  assumes "table_entries_ok t" and "fmlookup (hkeys t) h = Some off"
  obtains v where "mem_entry (memory t) off v" "off + entry_size v \<le> offset t"
    "table_get t h = Ret (Some v)" "table_abs t h = Some v"
proof -
  from assms obtain v where v: "mem_entry (memory t) off v" "off + entry_size v \<le> offset t"
    by (auto simp: table_entries_ok_def)
  with assms(2) have "table_get t h = Ret (Some v)" by (intro table_get_entry)
  with v that show ?thesis by (simp add: table_abs_def)
qed

lemma table_get_abs:
  assumes "table_entries_ok t"
  shows "table_get t h = Ret (table_abs t h)"
proof (cases "fmlookup (hkeys t) h")
  case None
  then show ?thesis by (simp add: table_abs_def table_absent)
next
  case (Some off)
  with assms show ?thesis by (metis table_entries_okE)
qed

lemma table_abs_dom:
  assumes "table_entries_ok t"
  shows "table_abs t h = None \<longleftrightarrow> h |\<notin>| fmdom (hkeys t)"
proof (cases "fmlookup (hkeys t) h")
  case None
  then show ?thesis by (simp add: table_abs_def table_absent fmdom_notI)
next
  case (Some off)
  with assms show ?thesis by (metis fmdomI option.distinct(1) table_entries_okE)
qed

lemma table_abs_Some_valid:
  assumes "table_entries_ok t" and "table_abs t h = Some v"
  shows "valid_vdata v"
proof (cases "fmlookup (hkeys t) h")
  case None
  with assms show ?thesis by (simp add: table_abs_def table_absent)
next
  case (Some off)
  with assms(1) obtain w where "mem_entry (memory t) off w" "table_abs t h = Some w"
    by (metis table_entries_okE)
  with assms(2) show ?thesis by (simp add: mem_entry_def)
qed

text \<open>A change of memory above the write position leaves the represented map as it was.\<close>

lemma mem_entry_write_above:
  assumes "mem_entry m off v" and "off + entry_size v \<le> pos"
  shows "mem_entry (mem_write m pos src) off v"
  using assms by (simp add: mem_entry_def mem_has_write_below)

lemma mem_entry_append:
  "mem_has m off (encode_entry v @ rest) \<Longrightarrow> valid_vdata v \<Longrightarrow> off + entry_size v \<le> mlen m \<Longrightarrow>
   mem_entry m off v"
  by (simp add: mem_entry_def mem_has_append)

section \<open>Appending and deleting entries\<close>

text \<open>
  Both \<open>put\<close> and \<open>putRaw\<close> end in the same effect: the bytes go to the write position and the
  key is pointed at them.
\<close>

definition table_append :: "table \<Rightarrow> hkey \<Rightarrow> bytes \<Rightarrow> table" where
  "table_append t h bs =
     t\<lparr>hkeys := fmupd h (offset t) (hkeys t), memory := mem_write (memory t) (offset t) bs,
       inuse := inuse t + int (length bs), offset := offset t + length bs\<rparr>"

definition table_drop :: "table \<Rightarrow> hkey \<Rightarrow> table" where
  "table_drop t h =
     t\<lparr>hkeys := fmdrop h (hkeys t), garbage := garbage t + size_at t h,
       inuse := inuse t - size_at t h\<rparr>"

lemma table_append_sel [simp]:
  "hkeys (table_append t h bs) = fmupd h (offset t) (hkeys t)"
  "memory (table_append t h bs) = mem_write (memory t) (offset t) bs"
  "offset (table_append t h bs) = offset t + length bs"
  "allocated (table_append t h bs) = allocated t"
  "inuse (table_append t h bs) = inuse t + int (length bs)"
  "garbage (table_append t h bs) = garbage t"
  by (simp_all add: table_append_def)

lemma table_drop_sel [simp]:
  "hkeys (table_drop t h) = fmdrop h (hkeys t)"
  "memory (table_drop t h) = memory t"
  "offset (table_drop t h) = offset t"
  "allocated (table_drop t h) = allocated t"
  "inuse (table_drop t h) = inuse t - size_at t h"
  "garbage (table_drop t h) = garbage t + size_at t h"
  by (simp_all add: table_drop_def)

lemma table_append_entry:
  assumes ok: "table_entries_ok t" and len: "mlen (memory t) = allocated t"
    and v: "valid_vdata v" and bs: "bs = encode_entry v @ rest"
    and fit: "length bs + offset t < allocated t"
    and k: "fmlookup (hkeys (table_append t h bs)) k = Some off"
  shows "\<exists>w. mem_entry (memory (table_append t h bs)) off w \<and>
             off + entry_size w \<le> offset (table_append t h bs) \<and>
             (if k = h then w = v else table_abs t k = Some w)"
proof (cases "k = h")
  case True
  with k have off: "off = offset t" by simp
  have "mem_has (mem_write (memory t) off bs) off (encode_entry v @ rest)" by (simp add: bs)
  moreover have "off + entry_size v \<le> mlen (mem_write (memory t) off bs)"
    using fit len by (simp add: bs off)
  ultimately have "mem_entry (mem_write (memory t) off bs) off v"
    using v by (intro mem_entry_append)
  with True off bs show ?thesis by auto
next
  case False
  with k have "fmlookup (hkeys t) k = Some off" by simp
  with ok obtain w where "mem_entry (memory t) off w" "off + entry_size w \<le> offset t"
      "table_abs t k = Some w"
    by (metis table_entries_okE)
  with False show ?thesis by (auto intro!: mem_entry_write_above)
qed

lemma table_append_refines:
  assumes ok: "table_entries_ok t" and len: "mlen (memory t) = allocated t"
    and v: "valid_vdata v" and bs: "bs = encode_entry v @ rest"
    and fit: "length bs + offset t < allocated t"
  shows "table_entries_ok (table_append t h bs)"
    and "table_abs (table_append t h bs) = (table_abs t)(h \<mapsto> v)"
proof -
  let ?t = "table_append t h bs"
  note entry = table_append_entry [OF ok len v bs fit, of h]
  show ok': "table_entries_ok ?t"
    unfolding table_entries_ok_def using entry by blast
  show "table_abs ?t = (table_abs t)(h \<mapsto> v)"
  proof
    fix k
    show "table_abs ?t k = ((table_abs t)(h \<mapsto> v)) k"
    proof (cases "fmlookup (hkeys ?t) k")
      case None
      then have "k \<noteq> h" "fmlookup (hkeys t) k = None" by (auto split: if_splits)
      with None show ?thesis by (simp add: table_abs_def table_absent)
    next
      case (Some off)
      from entry [OF this] obtain w where w: "mem_entry (memory ?t) off w"
        "if k = h then w = v else table_abs t k = Some w" by blast
      from Some w(1) have "table_abs ?t k = Some w"
        by (simp add: table_abs_def table_get_entry)
      with w(2) show ?thesis by (auto split: if_splits)
    qed
  qed
qed

lemma table_get_cong:
  assumes "fmlookup (hkeys t) h = fmlookup (hkeys t') h'" and "memory t = memory t'"
  shows "table_get t h = table_get t' h'"
  unfolding table_get_def assms ..

lemma table_drop_refines:
  assumes ok: "table_entries_ok t"
  shows "table_entries_ok (table_drop t h)"
    and "table_abs (table_drop t h) = (table_abs t)(h := None)"
proof -
  show "table_entries_ok (table_drop t h)"
    using ok by (auto simp: table_entries_ok_def split: if_splits)
  show "table_abs (table_drop t h) = (table_abs t)(h := None)"
    by (rule ext) (auto simp: table_abs_def table_absent intro!: table_get_cong arg_cong [where f = "case_outcome _ _"])
qed

lemma table_delete_eq:
  assumes ok: "table_entries_ok t"
  shows "table_delete t h =
    Ret (if h |\<in>| fmdom (hkeys t) then (table_drop t h, False) else (t, True))"
proof (cases "fmlookup (hkeys t) h")
  case None
  then have "h |\<notin>| fmdom (hkeys t)" by (simp add: fmdom_notI)
  with None show ?thesis by (simp add: table_absent)
next
  case (Some off)
  then have "h |\<in>| fmdom (hkeys t)" by (simp add: fmdomI)
  moreover from ok Some obtain v where "mem_entry (memory t) off v" "table_abs t h = Some v"
    by (metis table_entries_okE)
  ultimately show ?thesis using Some by (simp add: table_delete_entry table_drop_def size_at_def)
qed

section \<open>Accounting and the invariant\<close>

lemma size_at_nonneg [simp]: "0 \<le> size_at t h"
  by (simp add: size_at_def split: option.split)

lemma live_size_nonneg: "0 \<le> live_size t"
  by (simp add: live_size_def sum_nonneg)

lemma table_inv_inuse_nonneg: "table_inv t \<Longrightarrow> 0 \<le> inuse t"
  using live_size_nonneg [of t] by (simp add: table_inv_def)

lemma live_size_append:
  assumes "table_abs (table_append t h bs) = (table_abs t)(h \<mapsto> v)"
  shows "live_size (table_append t h bs) \<le> live_size t + int (entry_size v)"
proof -
  let ?D = "fmdom' (hkeys t)"
  have sz: "size_at (table_append t h bs) k = (if k = h then int (entry_size v) else size_at t k)" for k
    using assms by (simp add: size_at_def)
  have "live_size (table_append t h bs) =
      int (entry_size v) + (\<Sum>k \<in> ?D - {h}. size_at (table_append t h bs) k)"
    unfolding live_size_def by (simp add: sum.insert_remove sz)
  also have "(\<Sum>k \<in> ?D - {h}. size_at (table_append t h bs) k) = (\<Sum>k \<in> ?D - {h}. size_at t k)"
    by (rule sum.cong) (auto simp: sz)
  also have "\<dots> \<le> live_size t"
    unfolding live_size_def by (rule sum_mono2) auto
  finally show ?thesis by simp
qed

lemma live_size_drop:
  assumes ok: "table_entries_ok t"
  shows "live_size (table_drop t h) = live_size t - size_at t h"
proof -
  let ?D = "fmdom' (hkeys t)"
  have sz: "size_at (table_drop t h) k = (if k = h then 0 else size_at t k)" for k
    using table_drop_refines(2) [OF ok, of h] by (simp add: size_at_def)
  have "live_size (table_drop t h) = (\<Sum>k \<in> ?D - {h}. size_at t k)"
    unfolding live_size_def by (rule sum.cong) (auto simp: sz)
  moreover have "size_at t h = 0" if "h \<notin> ?D"
    using that table_abs_dom [OF ok, of h] by (simp add: size_at_def fmdom'_alt_def)
  ultimately show ?thesis
    unfolding live_size_def by (cases "h \<in> ?D") (simp_all add: sum_diff1)
qed

lemma table_append_inv:
  assumes inv: "table_inv t" and v: "valid_vdata v" and bs: "bs = encode_entry v @ rest"
    and fit: "length bs + offset t < allocated t"
  shows "table_inv (table_append t h bs)"
proof -
  note d = table_invD [OF inv]
  note r = table_append_refines [OF d(3,1) v bs fit, of h]
  have "int (entry_size v) \<le> int (length bs)" by (simp add: bs)
  with live_size_append [OF r(2)] d(6)
  have "live_size (table_append t h bs) \<le> inuse t + int (length bs)" by linarith
  with d r(1) fit show ?thesis by (simp add: table_inv_def)
qed

lemma table_drop_inv:
  assumes inv: "table_inv t"
  shows "table_inv (table_drop t h)"
  using table_invD [OF inv] table_drop_refines(1) [of t h] live_size_drop [of t h]
  by (simp add: table_inv_def)

lemma newTable_Inr:
  assumes "newTable os sz = Inr t"
  shows "table_inv t" and "table_abs t = Map.empty" and "hkeys t = fmempty" and "offset t = 0"
    and "inuse t = 0" and "garbage t = 0"
    and "allocated t = (if sz < int minimumSize then minimumSize else nat sz)"
proof -
  from assms show h: "hkeys t = fmempty" and o: "offset t = 0" and i: "inuse t = 0"
      and g: "garbage t = 0"
    and a: "allocated t = (if sz < int minimumSize then minimumSize else nat sz)"
    by (auto simp: newTable_def malloc_def Let_def split: if_splits)
  from assms have m: "mlen (memory t) = allocated t"
    by (auto simp: newTable_def malloc_def Let_def split: if_splits)
  have "0 < allocated t" using a by (auto simp: minimumSize_def)
  with h o i g m show "table_inv t"
    by (simp add: table_inv_def table_entries_ok_def live_size_def)
  show "table_abs t = Map.empty"
    using h by (simp add: fun_eq_iff table_abs_def table_absent)
qed

section \<open>What put and putRaw do\<close>

lemma table_putRaw_full:
  "allocated t \<le> length value + offset t \<Longrightarrow> table_putRaw t h value = Ret (t, Some ErrNotEnoughSpace)"
  by (simp add: table_putRaw_def)

lemma table_putRaw_fits:
  assumes "mlen (memory t) = allocated t" and "length value + offset t < allocated t"
  shows "table_putRaw t h value = Ret (table_append t h value, None)"
  using assms by (simp add: table_putRaw_def mem_copy_fits table_append_def)

lemma table_put_key_too_large:
  "maxKeyLen \<le> length (vkey v) \<Longrightarrow> table_put t h v = Ret (t, Some ErrKeyTooLarge)"
  by (simp add: table_put_def)

lemma table_put_full:
  "length (vkey v) < maxKeyLen \<Longrightarrow> allocated t \<le> entry_size v + offset t \<Longrightarrow>
   table_put t h v = Ret (t, Some ErrNotEnoughSpace)"
  by (simp add: table_put_def entry_size_def)

text \<open>The five writes of \<open>put\<close> amount to one write of the encoded entry.\<close>

lemma entry_writes:
  "mem_write (mem_write (mem_write (mem_write (mem_write m off [word_of_nat (length (vkey v))])
     (off + 1) (vkey v)) (off + 1 + length (vkey v)) (putUint64 (vttl v)))
     (off + 1 + length (vkey v) + 8) (putUint32 (word_of_nat (length (vvalue v)))))
     (off + 1 + length (vkey v) + 8 + 4) (vvalue v) = mem_write m off (encode_entry v)"
  by (simp add: mem_write_append' encode_entry_def)

lemma table_put_fits:
  assumes inv: "table_inv t" and key: "length (vkey v) < maxKeyLen"
    and fit: "entry_size v + offset t < allocated t"
  shows "table_put t h v = Ret (table_append (table_drop t h) h (encode_entry v), None)"
proof -
  note d = table_invD [OF inv]
  define t1 where "t1 = table_drop t h"
  have del: "(if fmlookup (hkeys t) h \<noteq> None then map_ret fst (table_delete t h) else Ret t) = Ret t1"
  proof (cases "fmlookup (hkeys t) h")
    case None
    then have "size_at t h = 0" by (simp add: size_at_def table_abs_def table_absent)
    moreover have "fmdrop h (hkeys t) = hkeys t" using None by (intro fmap_ext) auto
    ultimately show ?thesis using None by (simp add: t1_def table_drop_def)
  next
    case (Some off)
    then have "h |\<in>| fmdom (hkeys t)" by (simp add: fmdomI)
    with Some show ?thesis by (simp add: table_delete_eq [OF d(3)] t1_def)
  qed
  have len: "mlen (memory t1) = allocated t" and off: "offset t1 = offset t"
    using d(1) by (simp_all add: t1_def)
  have guard: "\<not> length (vkey v) \<ge> maxKeyLen"
    "\<not> length (vkey v) + length (vvalue v) + 13 + offset t \<ge> allocated t"
    using key fit by (simp_all add: entry_size_def)
  have b: "offset t1 + 1 \<le> allocated t" "offset t1 + 1 + length (vkey v) \<le> allocated t"
    "offset t1 + 1 + length (vkey v) + 8 \<le> allocated t"
    "offset t1 + 1 + length (vkey v) + 8 + 4 \<le> allocated t"
    "offset t1 + 1 + length (vkey v) + 8 + 4 + length (vvalue v) \<le> allocated t"
    using guard(2) by (simp_all add: off)
  show ?thesis
    unfolding table_put_def Let_def if_not_P [OF guard(1)] if_not_P [OF guard(2)] del
      bind_outcome.simps
    using len b
    by (simp add: mem_copy_fits mem_store_fits entry_writes [simplified] flip: t1_def)
      (simp add: table_append_def entry_size_def ac_simps)
qed

lemmas table_put_branches = table_put_key_too_large table_put_full table_put_fits

lemma table_put_fits_refines:
  assumes inv: "table_inv t" and v: "valid_vdata v"
    and fit: "entry_size v + offset t < allocated t"
  shows "table_inv (table_append (table_drop t h) h (encode_entry v))"
    and "table_abs (table_append (table_drop t h) h (encode_entry v)) = (table_abs t)(h \<mapsto> v)"
proof -
  let ?d = "table_drop t h"
  have d: "table_inv ?d" by (rule table_drop_inv [OF inv])
  have bs: "encode_entry v = encode_entry v @ []" by simp
  have fit': "length (encode_entry v) + offset ?d < allocated ?d" using fit by simp
  show "table_inv (table_append ?d h (encode_entry v))"
    by (rule table_append_inv [OF d v bs fit'])
  show "table_abs (table_append ?d h (encode_entry v)) = (table_abs t)(h \<mapsto> v)"
    using table_append_refines(2) [OF table_invD(3,1) [OF d] v bs fit', of h]
      table_drop_refines(2) [OF table_invD(3) [OF inv], of h] by simp
qed

lemma table_put_success:
  assumes inv: "table_inv t" and v: "valid_vdata v" and put: "table_put t h v = Ret (t', None)"
  shows "table_inv t'" and "table_abs t' = (table_abs t)(h \<mapsto> v)"
proof -
  have key: "length (vkey v) < maxKeyLen" using v by (simp add: valid_vdata_def)
  have fit: "entry_size v + offset t < allocated t"
    using table_put_full [OF key, of t h] put by (cases "allocated t \<le> entry_size v + offset t") auto
  from put have "t' = table_append (table_drop t h) h (encode_entry v)"
    by (simp add: table_put_fits [OF inv key fit])
  with table_put_fits_refines [OF inv v fit, of h] show "table_inv t'"
    and "table_abs t' = (table_abs t)(h \<mapsto> v)" by simp_all
qed

section \<open>A table provides the container contract\<close>

definition table_puts :: "table \<Rightarrow> hkey \<Rightarrow> vdata \<Rightarrow> table \<Rightarrow> bool" where
  "table_puts t h v t' \<longleftrightarrow> table_put t h v = Ret (t', None)"

definition table_dels :: "table \<Rightarrow> hkey \<Rightarrow> table \<Rightarrow> bool" where
  "table_dels t h t' \<longleftrightarrow> map_ret fst (table_delete t h) = Ret t'"

lemma table_dels_refines:
  assumes inv: "table_inv t" and del: "table_dels t h t'"
  shows "table_inv t'" and "table_abs t' = (table_abs t)(h := None)"
proof -
  note ok = table_invD(3) [OF inv]
  from del have t': "t' = (if h |\<in>| fmdom (hkeys t) then table_drop t h else t)"
    by (auto simp: table_dels_def table_delete_eq [OF ok] split: if_splits)
  then show "table_inv t'" using inv by (simp add: table_drop_inv)
  show "table_abs t' = (table_abs t)(h := None)"
    using t' table_drop_refines(2) [OF ok, of h] table_abs_dom [OF ok, of h]
    by (auto simp: fun_eq_iff)
qed

interpretation tab: kv_container table_inv table_abs table_get table_puts table_dels
  "\<lambda>_ _. True" valid_vdata
proof unfold_locales
  fix t t' h k v
  show "table_get t h = Ret (table_abs t h)" if "table_inv t"
    using that by (intro table_get_abs table_invD)
  show "table_inv t'" if "table_inv t" "valid_vdata v" "table_puts t h v t'"
    using that table_put_success by (auto simp: table_puts_def)
  show "table_abs t' = (table_abs t)(h \<mapsto> v)"
    if "table_inv t" "valid_vdata v" "table_puts t h v t'"
    using that table_put_success by (auto simp: table_puts_def)
  show "table_inv t'" if "table_inv t" "table_dels t h t'"
    using that by (rule table_dels_refines)
  show "table_abs t' k = table_abs t k" if "table_inv t" "table_dels t h t'" "k \<noteq> h"
    using that table_dels_refines(2) by simp
  show "table_abs t' h = None" if "table_inv t" "table_dels t h t'"
    using that table_dels_refines(2) by simp
qed

section \<open>Concrete instances\<close>

text \<open>An operating system that grants every mapping, a fresh table and two entries.\<close>

definition os_ok :: os where
  "os_ok = \<lparr>mmap_ok = (\<lambda>_. True), munmap_ok = (\<lambda>_. True)\<rparr>"

definition fresh_table :: table where
  "fresh_table = \<lparr>hkeys = fmempty, memory = mem_zero minimumSize, offset = 0,
     allocated = minimumSize, inuse = 0, garbage = 0\<rparr>"

definition entry_a :: vdata where
  "entry_a = \<lparr>vkey = [107], vttl = 0, vvalue = [1, 2, 3]\<rparr>"

definition entry_b :: vdata where
  "entry_b = \<lparr>vkey = [107], vttl = 0, vvalue = [9]\<rparr>"

definition table_of :: "hkey \<Rightarrow> vdata \<Rightarrow> table" where
  "table_of h v = table_append (table_drop fresh_table h) h (encode_entry v)"

lemma newTable_fresh: "newTable os_ok 0 = Inr fresh_table"
  by (simp add: newTable_def malloc_def os_ok_def fresh_table_def minimumSize_def)

lemma fresh_table_sel [simp]:
  "table_inv fresh_table" "table_abs fresh_table = Map.empty" "hkeys fresh_table = fmempty"
  "offset fresh_table = 0" "allocated fresh_table = minimumSize"
  using newTable_Inr [OF newTable_fresh] by (simp_all add: minimumSize_def)

lemma entries_valid [simp]: "valid_vdata entry_a" "valid_vdata entry_b"
  by (simp_all add: valid_vdata_def entry_a_def entry_b_def maxKeyLen_def)

lemma entries_small [simp]:
  "entry_size entry_a < minimumSize" "entry_size entry_b < minimumSize"
  by (simp_all add: entry_size_def entry_a_def entry_b_def minimumSize_def)

lemma entries_differ [simp]: "entry_a \<noteq> entry_b" "entry_b \<noteq> entry_a"
  by (simp_all add: entry_a_def entry_b_def)

lemma table_put_fresh:
  assumes "valid_vdata v" and "entry_size v < minimumSize"
  shows "table_put fresh_table h v = Ret (table_of h v, None)"
  using assms table_put_fits [OF fresh_table_sel(1), of v h]
  by (simp add: table_of_def valid_vdata_def)

lemma table_of_sel:
  assumes "valid_vdata v" and "entry_size v < minimumSize"
  shows "table_inv (table_of h v)" and "table_abs (table_of h v) = [h \<mapsto> v]"
    and "hkeys (table_of h v) = fmupd h 0 fmempty" and "offset (table_of h v) = entry_size v"
    and "allocated (table_of h v) = minimumSize"
  using assms table_put_fits_refines [OF fresh_table_sel(1), of v h]
  by (simp_all add: table_of_def)

section \<open>Properties\<close>

text \<open>C20. \<open>put\<close> on every branch: on a well-formed table it never panics; a key of 256 bytes or
  more and a lack of space are refused with the table unchanged; otherwise the entry is stored,
  every other key keeps its entry and the table stays well formed. The value must be shorter
  than \<open>2\<^sup>3\<^sup>2\<close> bytes, the range of its length field.\<close>

theorem table_put_spec:
  assumes "table_inv t" and "length (vvalue v) < 2 ^ 32"
  shows "\<exists>t' e. table_put t h v = Ret (t', e) \<and> table_inv t' \<and>
    e = (if maxKeyLen \<le> length (vkey v) then Some ErrKeyTooLarge
         else if allocated t \<le> entry_size v + offset t then Some ErrNotEnoughSpace else None) \<and>
    (if e = None then table_abs t' = (table_abs t)(h \<mapsto> v) \<and> table_get t' h = Ret (Some v)
     else t' = t)"
proof -
  consider "maxKeyLen \<le> length (vkey v)"
    | "length (vkey v) < maxKeyLen" "allocated t \<le> entry_size v + offset t"
    | "length (vkey v) < maxKeyLen" "entry_size v + offset t < allocated t" by linarith
  then show ?thesis
  proof cases
    case 3
    then have v: "valid_vdata v" using assms(2) by (simp add: valid_vdata_def)
    let ?t = "table_append (table_drop t h) h (encode_entry v)"
    note r = table_put_fits_refines [OF assms(1) v 3(2), of h]
    have "table_get ?t h = Ret (Some v)" using r by (simp add: table_get_abs table_invD(3))
    with 3 r show ?thesis by (simp add: table_put_fits [OF assms(1)])
  qed (use assms(1) in \<open>simp_all add: table_put_key_too_large table_put_full\<close>)
qed

theorem table_put_spec_witness:
  "table_put fresh_table 7 entry_a = Ret (table_of 7 entry_a, None) \<and>
   table_inv (table_of 7 entry_a) \<and> table_get (table_of 7 entry_a) 7 = Ret (Some entry_a)"
proof -
  have "length (vvalue entry_a) < 2 ^ 32" by (simp add: entry_a_def)
  from table_put_spec [OF fresh_table_sel(1) this, of 7] table_put_fresh [of entry_a 7]
  show ?thesis by (auto split: if_splits)
qed

text \<open>Any history of successful \<open>put\<close> and \<open>delete\<close> calls on a new table leaves exactly the
  map the history describes: \<open>get\<close> answers with the last value put and not deleted since, and
  never panics.\<close>

theorem table_history:
  assumes "newTable os sz = Inr t"
    and "kv_trace table_puts table_dels (\<lambda>_ _. True) valid_vdata t ops t'"
  shows "table_get t' h = Ret (kv_spec Map.empty ops h)"
  using tab.trace_lookup [OF assms(2), of h] newTable_Inr(1,2) [OF assms(1)] by simp

theorem table_history_witness:
  "newTable os_ok 0 = Inr fresh_table \<and>
   table_get (table_of 7 entry_a) 7 = Ret (Some entry_a) \<and> table_get (table_of 7 entry_a) 8 = Ret None"
proof -
  have "kv_trace table_puts table_dels (\<lambda>_ _. True) valid_vdata fresh_table [KPut 7 entry_a]
      (table_of 7 entry_a)"
    by (rule kv_put [OF _ _ kv_nil]) (simp_all add: table_puts_def table_put_fresh)
  from table_history [OF newTable_fresh this, of 7] table_history [OF newTable_fresh this, of 8]
  show ?thesis by (simp add: newTable_fresh)
qed

text \<open>The byte accounting of a table never drifts: after any such history the live and the
  garbage bytes add up to the write position, which stays inside the allocation, neither counter
  is negative and the live counter covers every stored entry.\<close>

theorem table_accounting:
  assumes "newTable os sz = Inr t"
    and "kv_trace table_puts table_dels (\<lambda>_ _. True) valid_vdata t ops t'"
  shows "inuse t' + garbage t' = int (offset t') \<and> offset t' < allocated t' \<and>
    0 \<le> garbage t' \<and> 0 \<le> live_size t' \<and> live_size t' \<le> inuse t'"
  using tab.trace_refines [OF assms(2)] newTable_Inr(1) [OF assms(1)] live_size_nonneg [of t']
  by (simp add: table_inv_def)

theorem table_accounting_witness:
  "inuse (table_of 7 entry_a) + garbage (table_of 7 entry_a) = 17 \<and>
   live_size (table_of 7 entry_a) \<le> inuse (table_of 7 entry_a)"
proof -
  have "kv_trace table_puts table_dels (\<lambda>_ _. True) valid_vdata fresh_table [KPut 7 entry_a]
      (table_of 7 entry_a)"
    by (rule kv_put [OF _ _ kv_nil]) (simp_all add: table_puts_def table_put_fresh)
  from table_accounting [OF newTable_fresh this]
  show ?thesis by (simp add: table_of_sel) (simp add: entry_size_def entry_a_def)
qed

end
