(* ===== verification/Storage.thy ===== *)
theory Storage
  imports Table
begin

text \<open>
  \<open>internal/storage/storage.go\<close>: a storage instance is a list of tables, newest last. Writes
  go to the newest table; reads and deletions scan from the newest to the oldest. Every
  operation holds the instance's mutex, so each is one step on the state. \<open>Delete\<close> holds it for
  reading only: the model orders it with the reads and deletions it may overlap with.

  \<open>merging\<close> is the flag that is set while the background merger (\<open>Merge.thy\<close>) runs, \<open>closed\<close>
  the cancelled context. The iteration order of Go maps is the parameter \<open>iter\<close>, the codec
  \<open>msgpack\<close> the parameters \<open>marshal\<close> and \<open>unmarshal\<close>.
\<close>

section \<open>Data\<close>

record storage =
  tables :: "table list"
  merging :: bool
  closed :: bool

text \<open>The order in which \<open>range\<close> visits a Go map: any enumeration of its keys.\<close>

definition iter_ok :: "((hkey, nat) fmap \<Rightarrow> hkey list) \<Rightarrow> bool" where
  "iter_ok iter \<longleftrightarrow> (\<forall>m. distinct (iter m) \<and> set (iter m) = fmdom' m)"

section \<open>Operations\<close>

definition storage_New :: "os \<Rightarrow> int \<Rightarrow> gerr + storage" where
  "storage_New os sz =
     (case newTable os sz of
        Inl e \<Rightarrow> Inl e
      | Inr t \<Rightarrow> Inr \<lparr>tables = [t], merging = False, closed = False\<rparr>)"

fun close_tables :: "os \<Rightarrow> table list \<Rightarrow> gerr option" where
  "close_tables os [] = None"
| "close_tables os (t # ts) =
     (case table_close os t of Some e \<Rightarrow> Some e | None \<Rightarrow> close_tables os ts)"

text \<open>
  \<open>Close\<close> once the merger has stopped (the wait for it is modelled in \<open>Merge.thy\<close>): the first
  failing \<open>munmap\<close> is returned and leaves the table list in place.
\<close>

definition storage_Close :: "os \<Rightarrow> storage \<Rightarrow> storage \<times> gerr option" where
  "storage_Close os s =
     (if closed s then (s, None)
      else let s1 = s\<lparr>closed := True, merging := False\<rparr> in
        case close_tables os (tables s1) of
          Some e \<Rightarrow> (s1, Some e)
        | None \<Rightarrow> (s1\<lparr>tables := []\<rparr>, None))"

text \<open>
  The loop of \<open>Put\<close> and \<open>PutRaw\<close>: try the newest table, and on a lack of space append a new
  one sized from the newest table's live bytes and try again. Nothing bounds the number of
  iterations, so the result is \<open>None\<close> when the loop never ends.
\<close>

partial_function (option) put_loop ::
  "os \<Rightarrow> (table \<Rightarrow> (table \<times> gerr option) outcome) \<Rightarrow> storage \<Rightarrow>
   (storage \<times> gerr option) outcome option" where
  "put_loop os f s =
     (case f (last (tables s)) of
        Panic \<Rightarrow> Some Panic
      | Ret (t, e) \<Rightarrow>
          let s1 = s\<lparr>tables := butlast (tables s) @ [t]\<rparr> in
          if e = Some ErrNotEnoughSpace then
            (case newTable os (inuse t * 2) of
               Inl err \<Rightarrow> Some (Ret (s1, Some err))
             | Inr nt \<Rightarrow> put_loop os f (s1\<lparr>tables := tables s1 @ [nt], merging := True\<rparr>))
          else Some (Ret (s1, e)))"

definition storage_PutRaw ::
  "os \<Rightarrow> storage \<Rightarrow> hkey \<Rightarrow> bytes \<Rightarrow> (storage \<times> gerr option) outcome option" where
  "storage_PutRaw os s h value =
     (if tables s = [] then Some Panic else put_loop os (\<lambda>t. table_putRaw t h value) s)"

definition storage_Put ::
  "os \<Rightarrow> storage \<Rightarrow> hkey \<Rightarrow> vdata \<Rightarrow> (storage \<times> gerr option) outcome option" where
  "storage_Put os s h v =
     (if tables s = [] then Some Panic else put_loop os (\<lambda>t. table_put t h v) s)"

text \<open>The scans run over the tables from the newest to the oldest.\<close>

fun getRaw_scan :: "table list \<Rightarrow> hkey \<Rightarrow> (gerr + bytes) outcome" where
  "getRaw_scan [] h = Ret (Inl ErrKeyNotFound)"
| "getRaw_scan (t # ts) h =
     bind_outcome (table_getRaw t h) (\<lambda>r.
       case r of None \<Rightarrow> getRaw_scan ts h | Some raw \<Rightarrow> Ret (Inr raw))"

definition storage_GetRaw :: "storage \<Rightarrow> hkey \<Rightarrow> (gerr + bytes) outcome" where
  "storage_GetRaw s h = (if tables s = [] then Panic else getRaw_scan (rev (tables s)) h)"

fun get_scan :: "table list \<Rightarrow> hkey \<Rightarrow> (gerr + vdata) outcome" where
  "get_scan [] h = Ret (Inl ErrKeyNotFound)"
| "get_scan (t # ts) h =
     bind_outcome (table_get t h) (\<lambda>r.
       case r of None \<Rightarrow> get_scan ts h | Some v \<Rightarrow> Ret (Inr v))"

definition storage_Get :: "storage \<Rightarrow> hkey \<Rightarrow> (gerr + vdata) outcome" where
  "storage_Get s h = (if tables s = [] then Panic else get_scan (rev (tables s)) h)"

fun delete_scan :: "table list \<Rightarrow> hkey \<Rightarrow> table list outcome" where
  "delete_scan [] h = Ret []"
| "delete_scan (t # ts) h =
     bind_outcome (table_delete t h) (\<lambda>(t', prev).
       if prev then map_ret ((#) t') (delete_scan ts h) else Ret (t' # ts))"

text \<open>
  The garbage test compares \<open>float64(allocated) * 0.40\<close> with \<open>float64(garbage)\<close>; for sizes
  below \<open>2\<^sup>5\<^sup>0\<close> bytes the rounding of the product cannot change the comparison with an integer,
  and it is the exact comparison \<open>2 allocated \<le> 5 garbage\<close> here.
\<close>

definition garbage_high :: "table \<Rightarrow> bool" where
  "garbage_high t \<longleftrightarrow> 2 * int (allocated t) \<le> 5 * garbage t"

definition storage_Delete :: "os \<Rightarrow> storage \<Rightarrow> hkey \<Rightarrow> (storage \<times> gerr option) outcome" where
  "storage_Delete os s h =
     (if tables s = [] then Panic
      else bind_outcome (delete_scan (rev (tables s)) h) (\<lambda>ts.
        let s1 = s\<lparr>tables := rev ts\<rparr> in
        if length (tables s1) \<noteq> 1 then Ret (s1, None)
        else let t = hd (tables s1) in
          if garbage_high t then
            if merging s1 then Ret (s1, None)
            else let newSize = (if inuse t * 2 > int (allocated t) then int (allocated t)
                                else inuse t * 2) in
              (case newTable os newSize of
                 Inl e \<Rightarrow> Ret (s1, Some e)
               | Inr nt \<Rightarrow> Ret (s1\<lparr>tables := tables s1 @ [nt], merging := True\<rparr>, None))
          else Ret (s1, None)))"

text \<open>The serialised form of a storage instance with one table.\<close>

record transport =
  tr_HKeys :: "(hkey, nat) fmap"
  tr_Memory :: bytes
  tr_Offset :: nat
  tr_Allocated :: nat
  tr_Inuse :: int
  tr_Garbage :: int

definition storage_Export :: "(transport \<Rightarrow> gerr + 'w) \<Rightarrow> storage \<Rightarrow> (gerr + 'w) outcome" where
  "storage_Export marshal s =
     (if length (tables s) \<noteq> 1 then Ret (Inl ErrFragmented)
      else let t = hd (tables s) in
        bind_outcome (mem_slice (memory t) 0 (offset t)) (\<lambda>m.
          Ret (marshal \<lparr>tr_HKeys = hkeys t, tr_Memory = m @ [0], tr_Offset = offset t,
                        tr_Allocated = allocated t, tr_Inuse = inuse t,
                        tr_Garbage = garbage t\<rparr>)))"

definition storage_Import :: "('w \<Rightarrow> gerr + transport) \<Rightarrow> os \<Rightarrow> 'w \<Rightarrow> (gerr + storage) outcome" where
  "storage_Import unmarshal os data =
     (case unmarshal data of
        Inl e \<Rightarrow> Ret (Inl e)
      | Inr tr \<Rightarrow>
          (case storage_New os (int (tr_Allocated tr)) of
             Inl e \<Rightarrow> Ret (Inl e)
           | Inr o' \<Rightarrow>
               let t = hd (tables o') in
               bind_outcome (mem_copy (memory t) 0 (tr_Memory tr)) (\<lambda>m.
                 Ret (Inr (o'\<lparr>tables := [t\<lparr>hkeys := tr_HKeys tr, offset := tr_Offset tr,
                   inuse := tr_Inuse tr, garbage := tr_Garbage tr, memory := m\<rparr>]\<rparr>)))))"

definition storage_Len :: "storage \<Rightarrow> nat" where
  "storage_Len s = sum_list (map (\<lambda>t. fcard (fmdom (hkeys t))) (tables s))"

definition storage_Check :: "storage \<Rightarrow> hkey \<Rightarrow> bool outcome" where
  "storage_Check s h =
     (if tables s = [] then Panic
      else Ret (list_ex (\<lambda>t. fmlookup (hkeys t) h \<noteq> None) (rev (tables s))))"

text \<open>
  \<open>Range\<close>: the callback threads a state and says whether to go on. Its \<open>false\<close> breaks the
  inner loop over one table only.
\<close>

fun range_keys ::
  "('s \<Rightarrow> hkey \<Rightarrow> vdata option \<Rightarrow> 's \<times> bool) \<Rightarrow> table \<Rightarrow> hkey list \<Rightarrow> 's \<Rightarrow> 's outcome" where
  "range_keys f t [] st = Ret st"
| "range_keys f t (h # hs) st =
     bind_outcome (table_get t h) (\<lambda>r.
       let (st', go) = f st h r in if go then range_keys f t hs st' else Ret st')"

fun range_tables ::
  "((hkey, nat) fmap \<Rightarrow> hkey list) \<Rightarrow> ('s \<Rightarrow> hkey \<Rightarrow> vdata option \<Rightarrow> 's \<times> bool) \<Rightarrow>
   table list \<Rightarrow> 's \<Rightarrow> 's outcome" where
  "range_tables iter f [] st = Ret st"
| "range_tables iter f (t # ts) st =
     bind_outcome (range_keys f t (iter (hkeys t)) st) (range_tables iter f ts)"

definition storage_Range ::
  "((hkey, nat) fmap \<Rightarrow> hkey list) \<Rightarrow> storage \<Rightarrow> ('s \<Rightarrow> hkey \<Rightarrow> vdata option \<Rightarrow> 's \<times> bool) \<Rightarrow>
   's \<Rightarrow> 's outcome" where
  "storage_Range iter s f st =
     (if tables s = [] then Panic else range_tables iter f (rev (tables s)) st)"

definition DecodeRaw :: "bytes \<Rightarrow> vdata outcome" where
  "DecodeRaw raw =
     bind_outcome (bytes_index raw 0) (\<lambda>kl.
     let o1 = 1; klen = unat kl in
     bind_outcome (bytes_slice raw o1 (o1 + klen)) (\<lambda>key.
     let o2 = o1 + klen in
     bind_outcome (bytes_slice raw o2 (o2 + 8)) (\<lambda>ttl.
     let o3 = o2 + 8 in
     bind_outcome (bytes_slice raw o3 (o3 + 4)) (\<lambda>vl.
     let o4 = o3 + 4 in
     bind_outcome (bytes_slice raw o4 (o4 + unat (getUint32 vl))) (\<lambda>value.
     Ret \<lparr>vkey = key, vttl = getUint64 ttl, vvalue = value\<rparr>)))))"

section \<open>The represented map\<close>

text \<open>
  A newer table hides the versions of a key in older ones. \<open>sole\<close> says that a key is in at
  most one table, \<open>disjoint_tables\<close> that every key is.
\<close>

primrec tables_abs :: "table list \<Rightarrow> hkey \<rightharpoonup> vdata" where
  "tables_abs [] = Map.empty"
| "tables_abs (t # ts) = table_abs t ++ tables_abs ts"

definition storage_abs :: "storage \<Rightarrow> hkey \<rightharpoonup> vdata" where
  "storage_abs s = tables_abs (tables s)"

definition storage_inv :: "storage \<Rightarrow> bool" where
  "storage_inv s \<longleftrightarrow> (\<forall>t \<in> set (tables s). table_inv t) \<and> tables s \<noteq> []"

definition tables_with :: "table list \<Rightarrow> hkey \<Rightarrow> nat" where
  "tables_with ts h = length (filter (\<lambda>t. h |\<in>| fmdom (hkeys t)) ts)"

definition sole :: "storage \<Rightarrow> hkey \<Rightarrow> bool" where
  "sole s h \<longleftrightarrow> tables_with (tables s) h \<le> 1"

definition disjoint_tables :: "storage \<Rightarrow> bool" where
  "disjoint_tables s \<longleftrightarrow> (\<forall>h. sole s h)"

lemma tables_abs_append [simp]: "tables_abs (xs @ ys) = tables_abs xs ++ tables_abs ys"
  by (induction xs) auto

lemma tables_with_append [simp]: "tables_with (xs @ ys) h = tables_with xs h + tables_with ys h"
  by (simp add: tables_with_def)

lemma tables_with_Cons [simp]:
  "tables_with (t # ts) h = (if h |\<in>| fmdom (hkeys t) then 1 else 0) + tables_with ts h"
  by (simp add: tables_with_def)

lemma tables_with_Nil [simp]: "tables_with [] h = 0"
  by (simp add: tables_with_def)

lemma tables_with_rev [simp]: "tables_with (rev ts) h = tables_with ts h"
  by (simp add: tables_with_def rev_filter [symmetric])

lemma tables_abs_None:
  assumes "\<forall>t \<in> set ts. table_inv t"
  shows "tables_abs ts h = None \<longleftrightarrow> tables_with ts h = 0"
  using assms
  by (induction ts) (auto simp: map_add_None table_abs_dom [OF table_invD(3)])

lemma storage_invD:
  "storage_inv s \<Longrightarrow> t \<in> set (tables s) \<Longrightarrow> table_inv t"
  "storage_inv s \<Longrightarrow> tables s \<noteq> []"
  by (auto simp: storage_inv_def)

lemma storage_abs_snoc:
  "tables s \<noteq> [] \<Longrightarrow> storage_abs s = tables_abs (butlast (tables s)) ++ table_abs (last (tables s))"
  using tables_abs_append [of "butlast (tables s)" "[last (tables s)]"]
  by (simp add: storage_abs_def)

section \<open>Reading\<close>

lemma get_scan_abs:
  assumes "\<forall>t \<in> set ts. table_inv t"
  shows "get_scan ts h = Ret (case tables_abs (rev ts) h of None \<Rightarrow> Inl ErrKeyNotFound | Some v \<Rightarrow> Inr v)"
  using assms
proof (induction ts)
  case Nil
  show ?case by simp
next
  case (Cons t ts)
  then have "table_get t h = Ret (table_abs t h)" by (intro table_get_abs table_invD) simp
  with Cons show ?case by (cases "table_abs t h") (simp_all add: map_add_def)
qed

lemma storage_Get_eq:
  assumes "storage_inv s"
  shows "storage_Get s h =
    Ret (case storage_abs s h of None \<Rightarrow> Inl ErrKeyNotFound | Some v \<Rightarrow> Inr v)"
  using assms get_scan_abs [of "rev (tables s)" h]
  by (simp add: storage_Get_def storage_abs_def storage_inv_def)

lemma table_getRaw_abs:
  assumes "table_inv t"
  shows "table_getRaw t h = Ret (map_option (\<lambda>v. encode_entry v @ [0]) (table_abs t h))"
proof (cases "fmlookup (hkeys t) h")
  case None
  then show ?thesis by (simp add: table_absent table_abs_def)
next
  case (Some off)
  with table_invD(3) [OF assms] obtain v where "mem_entry (memory t) off v" "table_abs t h = Some v"
    by (metis table_entries_okE)
  with Some show ?thesis by (simp add: table_getRaw_entry)
qed

lemma getRaw_scan_abs:
  assumes "\<forall>t \<in> set ts. table_inv t"
  shows "getRaw_scan ts h =
    Ret (case tables_abs (rev ts) h of None \<Rightarrow> Inl ErrKeyNotFound | Some v \<Rightarrow> Inr (encode_entry v @ [0]))"
  using assms
proof (induction ts)
  case Nil
  show ?case by simp
next
  case (Cons t ts)
  then have "table_getRaw t h = Ret (map_option (\<lambda>v. encode_entry v @ [0]) (table_abs t h))"
    by (intro table_getRaw_abs) simp
  with Cons show ?case by (cases "table_abs t h") (simp_all add: map_add_def)
qed

lemma storage_GetRaw_eq:
  assumes "storage_inv s"
  shows "storage_GetRaw s h =
    Ret (case storage_abs s h of None \<Rightarrow> Inl ErrKeyNotFound | Some v \<Rightarrow> Inr (encode_entry v @ [0]))"
  using assms getRaw_scan_abs [of "rev (tables s)" h]
  by (simp add: storage_GetRaw_def storage_abs_def storage_inv_def)

lemma storage_Check_eq:
  assumes "storage_inv s"
  shows "storage_Check s h = Ret (storage_abs s h \<noteq> None)"
proof -
  have "list_ex (\<lambda>t. fmlookup (hkeys t) h \<noteq> None) ts \<longleftrightarrow> tables_with ts h \<noteq> 0" for ts
    by (induction ts) (auto simp: fmlookup_dom_iff)
  with assms tables_abs_None [of "tables s" h] show ?thesis
    by (simp add: storage_Check_def storage_abs_def storage_inv_def)
qed

lemma storage_abs_valid:
  assumes "storage_inv s" and "storage_abs s h = Some v"
  shows "valid_vdata v"
proof -
  have "tables_abs ts h = Some v \<Longrightarrow> \<forall>t \<in> set ts. table_inv t \<Longrightarrow> valid_vdata v" for ts
    by (induction ts) (auto simp: map_add_Some_iff intro: table_abs_Some_valid table_invD(3))
  with assms show ?thesis by (simp add: storage_abs_def storage_inv_def)
qed

text \<open>\<open>DecodeRaw\<close> reads back what \<open>getRaw\<close> copies out, whatever follows the entry.\<close>

lemma DecodeRaw_encode:
  assumes "valid_vdata v"
  shows "DecodeRaw (encode_entry v @ rest) = Ret v"
proof -
  let ?k = "word_of_nat (length (vkey v)) :: byte"
  let ?n = "length (vkey v)"
  let ?T = "putUint64 (vttl v)" and ?L = "putUint32 (word_of_nat (length (vvalue v)))"
  let ?raw = "encode_entry v @ rest"
  have k: "unat ?k = ?n" and l: "unat (word_of_nat (length (vvalue v)) :: 32 word) = length (vvalue v)"
    using assms by (auto simp: valid_vdata_def)
  have i: "bytes_index ?raw 0 = Ret ?k" by (simp add: bytes_index_def encode_entry_def)
  have s1: "bytes_slice ?raw 1 (1 + ?n) = Ret (vkey v)"
    using bytes_slice_mid [of 1 "[?k]" "1 + ?n" "vkey v" "?T @ ?L @ vvalue v @ rest"]
    by (simp add: encode_entry_def)
  have s2: "bytes_slice ?raw (1 + ?n) (1 + ?n + 8) = Ret ?T"
    using bytes_slice_mid [of "1 + ?n" "[?k] @ vkey v" "1 + ?n + 8" ?T "?L @ vvalue v @ rest"]
    by (simp add: encode_entry_def)
  have s3: "bytes_slice ?raw (1 + ?n + 8) (1 + ?n + 8 + 4) = Ret ?L"
    using bytes_slice_mid [of "1 + ?n + 8" "[?k] @ vkey v @ ?T" "1 + ?n + 8 + 4" ?L "vvalue v @ rest"]
    by (simp add: encode_entry_def)
  have s4: "bytes_slice ?raw (1 + ?n + 8 + 4) (1 + ?n + 8 + 4 + length (vvalue v)) = Ret (vvalue v)"
    using bytes_slice_mid [of "1 + ?n + 8 + 4" "[?k] @ vkey v @ ?T @ ?L"
        "1 + ?n + 8 + 4 + length (vvalue v)" "vvalue v" rest]
    by (simp add: encode_entry_def)
  show ?thesis
    unfolding DecodeRaw_def Let_def
    by (simp only: i s1 s2 s3 s4 k l bind_outcome.simps getUint32_put getUint64_put) simp
qed

end
