(* ===== verification/Storage_Writes.thy ===== *)
theory Storage_Writes
  imports Storage
begin

text \<open>
  The writing side of \<open>internal/storage/storage.go\<close>: what \<open>Put\<close>, \<open>PutRaw\<close>, \<open>Delete\<close>,
  \<open>Export\<close>/\<open>Import\<close> and \<open>Range\<close> do to the represented map, when the \<open>Put\<close> loop returns,
  and the interpretation of the container contract for storage instances.
\<close>

section \<open>The put loop\<close>

text \<open>What the loop needs to know about the table operation it retries.\<close>

definition writes_entry :: "(table \<Rightarrow> (table \<times> gerr option) outcome) \<Rightarrow> hkey \<Rightarrow> vdata \<Rightarrow> bool" where
  "writes_entry f h v \<longleftrightarrow>
     (\<forall>t. table_inv t \<longrightarrow>
        (\<exists>t'. f t = Ret (t', None) \<and> table_inv t' \<and> table_abs t' = (table_abs t)(h \<mapsto> v)) \<or>
        (\<exists>e. f t = Ret (t, Some e)))"

lemma writes_entryE:
  assumes "writes_entry f h v" and "table_inv t"
  obtains t' where "f t = Ret (t', None)" "table_inv t'" "table_abs t' = (table_abs t)(h \<mapsto> v)"
  | e where "f t = Ret (t, Some e)"
  using assms by (auto simp: writes_entry_def)

lemma table_put_writes_entry:
  assumes "length (vvalue v) < 2 ^ 32"
  shows "writes_entry (\<lambda>t. table_put t h v) h v"
  unfolding writes_entry_def
proof (intro allI impI)
  fix t assume inv: "table_inv t"
  consider "maxKeyLen \<le> length (vkey v)"
    | "length (vkey v) < maxKeyLen" "allocated t \<le> entry_size v + offset t"
    | "length (vkey v) < maxKeyLen" "entry_size v + offset t < allocated t" by linarith
  then show "(\<exists>t'. table_put t h v = Ret (t', None) \<and> table_inv t' \<and>
      table_abs t' = (table_abs t)(h \<mapsto> v)) \<or> (\<exists>e. table_put t h v = Ret (t, Some e))"
  proof cases
    case 3
    then have "valid_vdata v" using assms by (simp add: valid_vdata_def)
    with 3 inv show ?thesis
      by (simp add: table_put_fits table_put_fits_refines)
  qed (simp_all add: table_put_key_too_large table_put_full)
qed

lemma table_putRaw_writes_entry:
  assumes v: "valid_vdata v"
  shows "writes_entry (\<lambda>t. table_putRaw t h (encode_entry v @ rest)) h v"
  unfolding writes_entry_def
proof (intro allI impI)
  fix t assume inv: "table_inv t"
  note d = table_invD [OF inv]
  let ?bs = "encode_entry v @ rest"
  show "(\<exists>t'. table_putRaw t h ?bs = Ret (t', None) \<and> table_inv t' \<and>
      table_abs t' = (table_abs t)(h \<mapsto> v)) \<or> (\<exists>e. table_putRaw t h ?bs = Ret (t, Some e))"
  proof (cases "length ?bs + offset t < allocated t")
    case True
    then show ?thesis
      using table_append_inv [OF inv v refl, of rest h]
        table_append_refines(2) [OF d(3,1) v refl, of rest h]
        table_putRaw_fits [OF d(1), of ?bs h] by auto
  next
    case False
    then show ?thesis by (simp add: table_putRaw_full)
  qed
qed

lemma storage_snoc_inv:
  assumes "storage_inv s" and "table_inv t"
  shows "storage_inv (s\<lparr>tables := butlast (tables s) @ [t]\<rparr>)"
  using assms by (auto simp: storage_inv_def dest: in_set_butlastD)

lemma storage_grow_inv:
  assumes "storage_inv s" and "newTable os sz = Inr nt"
  shows "storage_inv (s\<lparr>tables := tables s @ [nt], merging := b\<rparr>)"
    and "storage_abs (s\<lparr>tables := tables s @ [nt], merging := b\<rparr>) = storage_abs s"
  using assms newTable_Inr(1,2) [OF assms(2)]
  by (auto simp: storage_inv_def storage_abs_def)

text \<open>Whenever the loop returns, it has stored the entry or left the represented map alone.\<close>

definition put_result :: "hkey \<Rightarrow> vdata \<Rightarrow> storage \<Rightarrow> (storage \<times> gerr option) outcome \<Rightarrow> bool" where
  "put_result h v s r \<longleftrightarrow>
     (case r of
        Panic \<Rightarrow> False
      | Ret (s', e) \<Rightarrow>
          storage_inv s' \<and> closed s' = closed s \<and> (merging s \<longrightarrow> merging s') \<and>
          storage_abs s' = (if e = None then (storage_abs s)(h \<mapsto> v) else storage_abs s))"

lemma put_result_same [simp]: "storage_inv s \<Longrightarrow> put_result h v s (Ret (s, Some e))"
  by (simp add: put_result_def)

lemma put_result_grow:
  assumes "storage_inv s" and "newTable os sz = Inr nt"
    and "put_result h v (s\<lparr>tables := tables s @ [nt], merging := True\<rparr>) r"
  shows "put_result h v s r"
  using assms storage_grow_inv(2) [OF assms(1,2), of True]
  by (auto simp: put_result_def split: outcome.splits)

lemma put_result_stored:
  assumes inv: "storage_inv s" and t: "table_inv t'"
    and abs: "table_abs t' = (table_abs (last (tables s)))(h \<mapsto> v)"
  shows "put_result h v s (Ret (s\<lparr>tables := butlast (tables s) @ [t']\<rparr>, None))"
  using storage_snoc_inv [OF inv t] storage_abs_snoc [of s] storage_invD(2) [OF inv] abs
  by (simp add: put_result_def storage_abs_def)

lemma put_loop_step:
  assumes w: "writes_entry f h v" and inv: "storage_inv s"
    and body: "(case f (last (tables s)) of Panic \<Rightarrow> Some Panic
        | Ret (t, e) \<Rightarrow>
          let s1 = s\<lparr>tables := butlast (tables s) @ [t]\<rparr> in
          if e = Some ErrNotEnoughSpace then
            (case newTable os (inuse t * 2) of
               Inl err \<Rightarrow> Some (Ret (s1, Some err))
             | Inr nt \<Rightarrow> loop (s1\<lparr>tables := tables s1 @ [nt], merging := True\<rparr>))
          else Some (Ret (s1, e))) = Some r"
    and loop: "\<And>s r. loop s = Some r \<Longrightarrow> storage_inv s \<Longrightarrow> put_result h v s r"
  shows "put_result h v s r"
proof -
  have lt: "table_inv (last (tables s))" and same: "butlast (tables s) @ [last (tables s)] = tables s"
    using inv by (simp_all add: storage_inv_def)
  from w lt show ?thesis
  proof (cases rule: writes_entryE)
    case (1 t')
    with body put_result_stored [OF inv 1(2,3)] show ?thesis by (auto simp: Let_def)
  next
    case (2 e)
    show ?thesis
    proof (cases "e = ErrNotEnoughSpace")
      case False
      with 2 body inv same show ?thesis by (auto simp: Let_def)
    next
      case True
      show ?thesis
      proof (cases "newTable os (inuse (last (tables s)) * 2)")
        case (Inl err)
        with 2 True body inv same show ?thesis by (auto simp: Let_def)
      next
        case (Inr nt)
        with 2 True body same have "loop (s\<lparr>tables := tables s @ [nt], merging := True\<rparr>) = Some r"
          by (simp add: Let_def)
        from loop [OF this storage_grow_inv(1) [OF inv Inr]] show ?thesis
          by (rule put_result_grow [OF inv Inr])
      qed
    qed
  qed
qed

lemma put_loop_correct:
  assumes ret: "put_loop os f s = Some r" and "writes_entry f h v" and "storage_inv s"
  shows "put_result h v s r"
proof -
  have "writes_entry f h v \<longrightarrow> storage_inv s \<longrightarrow> put_result h v s r"
    by (rule put_loop.raw_induct [OF _ ret,
          where P = "\<lambda>os f s r. writes_entry f h v \<longrightarrow> storage_inv s \<longrightarrow> put_result h v s r"])
      (blast intro: put_loop_step)
  with assms(2,3) show ?thesis by blast
qed

lemma storage_Put_correct:
  assumes "storage_Put os s h v = Some r" and "length (vvalue v) < 2 ^ 32" and "storage_inv s"
  shows "put_result h v s r"
  using assms put_loop_correct [OF _ table_put_writes_entry]
  by (auto simp: storage_Put_def storage_inv_def split: if_splits)

lemma storage_PutRaw_correct:
  assumes "storage_PutRaw os s h (encode_entry v @ rest) = Some r" and "valid_vdata v"
    and "storage_inv s"
  shows "put_result h v s r"
  using assms put_loop_correct [OF _ table_putRaw_writes_entry]
  by (auto simp: storage_PutRaw_def storage_inv_def split: if_splits)

section \<open>When the loop returns\<close>

text \<open>
  A table is hopeless for an entry of \<open>n\<close> bytes when it is empty and the entry does not fit:
  the next table is allocated from zero live bytes, is no larger than the minimum size, and is
  hopeless again.
\<close>

lemma put_loop_unfold_full:
  assumes "f (last (tables s)) = Ret (last (tables s), Some ErrNotEnoughSpace)"
    and "tables s \<noteq> []" and "newTable os (inuse (last (tables s)) * 2) = Inr nt"
  shows "put_loop os f s = put_loop os f (s\<lparr>tables := tables s @ [nt], merging := True\<rparr>)"
  using assms by (subst put_loop.simps) (simp add: Let_def)

lemma put_loop_unfold_done:
  assumes "f (last (tables s)) = Ret (t, e)" and "e \<noteq> Some ErrNotEnoughSpace"
  shows "put_loop os f s = Some (Ret (s\<lparr>tables := butlast (tables s) @ [t]\<rparr>, e))"
  using assms by (subst put_loop.simps) (simp add: Let_def)

lemma newTable_min:
  assumes "mmap_ok os minimumSize"
  obtains nt where "newTable os 0 = Inr nt" "offset nt = 0" "inuse nt = 0" "allocated nt = minimumSize"
proof -
  from assms obtain nt where nt: "newTable os 0 = Inr nt"
    by (auto simp: newTable_def malloc_def minimumSize_def)
  from newTable_Inr [OF nt] have "offset nt = 0" "inuse nt = 0" "allocated nt = minimumSize"
    by (simp_all add: minimumSize_def)
  with nt that show ?thesis by blast
qed

lemma put_loop_hopeless:
  assumes mm: "mmap_ok os minimumSize"
    and full: "\<And>t. offset t = 0 \<Longrightarrow> allocated t \<le> a \<Longrightarrow> f t = Ret (t, Some ErrNotEnoughSpace)"
    and a: "minimumSize \<le> a"
    and s: "tables s \<noteq> []" "offset (last (tables s)) = 0" "inuse (last (tables s)) = 0"
      "allocated (last (tables s)) \<le> a"
  shows "put_loop os f s = None"
proof (rule ccontr)
  let ?stuck = "\<lambda>s. tables s \<noteq> [] \<and> offset (last (tables s)) = 0 \<and> inuse (last (tables s)) = 0 \<and>
    allocated (last (tables s)) \<le> a"
  assume "put_loop os f s \<noteq> None"
  then obtain r where ret: "put_loop os f s = Some r" by auto
  have "os = os \<longrightarrow> f = f \<longrightarrow> \<not> ?stuck s"
  proof (rule put_loop.raw_induct [OF _ ret,
        where P = "\<lambda>os' f' s r. os' = os \<longrightarrow> f' = f \<longrightarrow> \<not> ?stuck s"], intro impI notI)
    fix loop os' f' s r
    assume IH: "\<And>os' f' s r. loop os' f' s = Some r \<Longrightarrow> os' = os \<longrightarrow> f' = f \<longrightarrow> \<not> ?stuck s"
      and body: "(case f' (last (tables s)) of Panic \<Rightarrow> Some Panic
        | Ret (t, e) \<Rightarrow>
          let s1 = s\<lparr>tables := butlast (tables s) @ [t]\<rparr> in
          if e = Some ErrNotEnoughSpace then
            (case newTable os' (inuse t * 2) of
               Inl err \<Rightarrow> Some (Ret (s1, Some err))
             | Inr nt \<Rightarrow> loop os' f' (s1\<lparr>tables := tables s1 @ [nt], merging := True\<rparr>))
          else Some (Ret (s1, e))) = Some r"
      and eq: "os' = os" "f' = f" and st: "?stuck s"
    from mm obtain nt where nt: "newTable os 0 = Inr nt" "offset nt = 0" "inuse nt = 0"
      "allocated nt = minimumSize" by (rule newTable_min)
    from body eq st nt(1) full [of "last (tables s)"]
    have "loop os f (s\<lparr>tables := tables s @ [nt], merging := True\<rparr>) = Some r"
      by (simp add: Let_def)
    from IH [OF this] nt a show False by simp
  qed
  with s show False by simp
qed

lemma newTable_ok:
  assumes "\<forall>n. mmap_ok os n"
  obtains nt where "newTable os sz = Inr nt" "table_inv nt" "offset nt = 0" "inuse nt = 0"
    "allocated nt = max minimumSize (nat sz)"
proof -
  from assms obtain nt where nt: "newTable os sz = Inr nt"
    by (auto simp: newTable_def malloc_def Let_def)
  from newTable_Inr [OF nt] nt that show ?thesis by (auto simp: max_def minimumSize_def split: if_splits)
qed

lemma put_loop_returns_iff:
  assumes inv: "storage_inv s" and mm: "\<forall>n. mmap_ok os n" and key: "length (vkey v) < maxKeyLen"
    and last_full: "allocated (last (tables s)) \<le> entry_size v + offset (last (tables s))"
  shows "(\<exists>r. put_loop os (\<lambda>t. table_put t h v) s = Some r) \<longleftrightarrow>
    entry_size v < max minimumSize (nat (inuse (last (tables s)) * 2))"
proof -
  let ?f = "\<lambda>t. table_put t h v"
  have full: "?f t = Ret (t, Some ErrNotEnoughSpace)" if "allocated t \<le> entry_size v + offset t" for t
    using that key by (rule table_put_full [rotated])
  from mm obtain nt where nt: "newTable os (inuse (last (tables s)) * 2) = Inr nt" "table_inv nt"
    "offset nt = 0" "inuse nt = 0" "allocated nt = max minimumSize (nat (inuse (last (tables s)) * 2))"
    by (rule newTable_ok)
  let ?s = "s\<lparr>tables := tables s @ [nt], merging := True\<rparr>"
  have step: "put_loop os ?f s = put_loop os ?f ?s"
    using full [OF last_full] storage_invD(2) [OF inv] nt(1) by (rule put_loop_unfold_full)
  show ?thesis
  proof (cases "entry_size v < allocated nt")
    case True
    then have "?f (last (tables ?s)) = Ret (table_append (table_drop nt h) h (encode_entry v), None)"
      using table_put_fits [OF nt(2) key, of h] nt(3) by simp
    from put_loop_unfold_done [of ?f ?s, OF this, of os] step True nt(5) show ?thesis by simp
  next
    case False
    have "put_loop os ?f ?s = None"
    proof (rule put_loop_hopeless)
      show "mmap_ok os minimumSize" using mm by simp
      show "?f t = Ret (t, Some ErrNotEnoughSpace)" if "offset t = 0" "allocated t \<le> entry_size v" for t
        using that by (intro full) simp
      show "minimumSize \<le> entry_size v" using False nt(5) by simp
    qed (use nt False in \<open>simp_all add: not_less\<close>)
    with step False nt(5) show ?thesis by simp
  qed
qed

text \<open>An entry that fits an empty table of the minimal size is always stored.\<close>

lemma put_loop_small:
  assumes inv: "storage_inv s" and mm: "\<forall>n. mmap_ok os n" and small: "sz < minimumSize"
    and fits: "\<And>t. table_inv t \<Longrightarrow> sz + offset t < allocated t \<Longrightarrow> \<exists>t'. f t = Ret (t', None)"
    and full: "\<And>t. allocated t \<le> sz + offset t \<Longrightarrow> f t = Ret (t, Some ErrNotEnoughSpace)"
  shows "\<exists>s'. put_loop os f s = Some (Ret (s', None))"
proof -
  let ?t = "last (tables s)"
  have ne: "tables s \<noteq> []" and it: "table_inv ?t" using inv by (simp_all add: storage_inv_def)
  show ?thesis
  proof (cases "sz + offset ?t < allocated ?t")
    case True
    with fits [OF it] obtain t' where "f ?t = Ret (t', None)" by blast
    from put_loop_unfold_done [of f s, OF this] show ?thesis by simp
  next
    case False
    from newTable_ok [OF mm] obtain nt where nt: "newTable os (inuse ?t * 2) = Inr nt" "table_inv nt"
      "offset nt = 0" "allocated nt = max minimumSize (nat (inuse ?t * 2))" by metis
    let ?s = "s\<lparr>tables := tables s @ [nt], merging := True\<rparr>"
    have "put_loop os f s = put_loop os f ?s"
      using False ne nt(1) by (intro put_loop_unfold_full full) simp_all
    moreover have "sz + offset nt < allocated nt" using small nt(3,4) by simp
    with fits [OF nt(2)] obtain t' where "f nt = Ret (t', None)" by blast
    ultimately show ?thesis using put_loop_unfold_done [of f ?s] by simp
  qed
qed

lemma storage_Put_small:
  assumes inv: "storage_inv s" and mm: "\<forall>n. mmap_ok os n" and key: "length (vkey v) < maxKeyLen"
    and small: "entry_size v < minimumSize"
  shows "\<exists>s'. storage_Put os s h v = Some (Ret (s', None)) \<and> storage_inv s' \<and>
    storage_abs s' = (storage_abs s)(h \<mapsto> v)"
proof -
  have "\<exists>s'. put_loop os (\<lambda>t. table_put t h v) s = Some (Ret (s', None))"
    by (rule put_loop_small [OF inv mm small]) (use key in \<open>auto simp: table_put_fits table_put_full\<close>)
  with storage_invD(2) [OF inv] obtain s' where s': "storage_Put os s h v = Some (Ret (s', None))"
    by (auto simp: storage_Put_def)
  have "length (vvalue v) < 2 ^ 32" using small by (simp add: entry_size_def minimumSize_def)
  from storage_Put_correct [OF s' this inv] s' show ?thesis by (simp add: put_result_def)
qed

section \<open>Delete\<close>

text \<open>The version of a key that becomes visible when its newest version goes.\<close>

fun prev_version :: "table list \<Rightarrow> hkey \<Rightarrow> vdata option" where
  "prev_version [] h = None"
| "prev_version (t # ts) h =
     (if h |\<in>| fmdom (hkeys t) then tables_abs (rev ts) h else prev_version ts h)"

lemma prev_version_sole:
  assumes "\<forall>t \<in> set ts. table_inv t" and "tables_with ts h \<le> 1"
  shows "prev_version ts h = None"
  using assms
  by (induction ts) (auto simp: tables_abs_None split: if_splits)

text \<open>What a scan leaves behind, over the tables from the newest to the oldest.\<close>

definition delete_result :: "table list \<Rightarrow> hkey \<Rightarrow> table list \<Rightarrow> bool" where
  "delete_result ts h ts' \<longleftrightarrow>
     (\<forall>t \<in> set ts'. table_inv t) \<and> length ts' = length ts \<and>
     (\<forall>k. tables_with ts' k = tables_with ts k - (if k = h then 1 else 0)) \<and>
     tables_abs (rev ts') = (tables_abs (rev ts))(h := prev_version ts h)"

lemma delete_result_here:
  assumes "\<forall>t \<in> set (t # ts). table_inv t" and "h |\<in>| fmdom (hkeys t)"
  shows "delete_result (t # ts) h (table_drop t h # ts)"
proof -
  have inv: "table_inv t" using assms(1) by simp
  have "tables_abs (rev (table_drop t h # ts)) =
      (tables_abs (rev (t # ts)))(h := prev_version (t # ts) h)"
    using assms(2) table_drop_refines(2) [OF table_invD(3) [OF inv], of h]
    by (auto simp: fun_eq_iff map_add_def)
  then show ?thesis
    using assms table_drop_inv [OF inv] by (auto simp: delete_result_def)
qed

lemma delete_result_older:
  assumes "table_inv t" and "h |\<notin>| fmdom (hkeys t)" and "delete_result ts h ts'"
  shows "delete_result (t # ts) h (t # ts')"
proof -
  have "table_abs t h = None" using assms(2) table_abs_dom [OF table_invD(3) [OF assms(1)]] by simp
  then have "tables_abs (rev (t # ts')) = (tables_abs (rev (t # ts)))(h := prev_version (t # ts) h)"
    using assms(2,3) by (auto simp: fun_eq_iff map_add_def delete_result_def split: option.split)
  then show ?thesis using assms by (auto simp: delete_result_def)
qed

lemma delete_scan_correct:
  assumes "\<forall>t \<in> set ts. table_inv t"
  shows "\<exists>ts'. delete_scan ts h = Ret ts' \<and> delete_result ts h ts'"
  using assms
proof (induction ts)
  case Nil
  show ?case by (auto simp: fun_eq_iff delete_result_def)
next
  case (Cons t ts)
  then have inv: "table_inv t" by simp
  note del = table_delete_eq [OF table_invD(3) [OF inv], of h]
  show ?case
  proof (cases "h |\<in>| fmdom (hkeys t)")
    case True
    then have "delete_scan (t # ts) h = Ret (table_drop t h # ts)" by (simp add: del)
    with delete_result_here [OF Cons.prems True] show ?thesis by blast
  next
    case False
    from Cons obtain ts' where ts': "delete_scan ts h = Ret ts'" "delete_result ts h ts'" by auto
    with False have "delete_scan (t # ts) h = Ret (t # ts')" by (simp add: del)
    with delete_result_older [OF inv False ts'(2)] show ?thesis by blast
  qed
qed

text \<open>
  The state right after the scan; what follows it in \<open>Delete\<close> only ever appends an empty
  table.
\<close>

lemma storage_Delete_shape:
  assumes "storage_inv s" and "delete_scan (rev (tables s)) h = Ret ts"
    and "storage_Delete os s h = Ret (s', e)"
  shows "s' = s\<lparr>tables := rev ts\<rparr> \<or>
    (\<exists>sz nt. newTable os sz = Inr nt \<and> s' = s\<lparr>tables := rev ts @ [nt], merging := True\<rparr> \<and>
       e = None \<and> length ts = 1 \<and> garbage_high (hd (rev ts)) \<and> \<not> merging s)"
  using assms
  by (auto simp: storage_Delete_def storage_inv_def Let_def split: if_splits sum.splits)

lemma storage_Delete_scan:
  assumes "storage_inv s"
  obtains ts where "delete_scan (rev (tables s)) h = Ret ts" "delete_result (rev (tables s)) h ts"
    "storage_inv (s\<lparr>tables := rev ts\<rparr>)"
proof -
  from assms delete_scan_correct [of "rev (tables s)" h]
  obtain ts where ts: "delete_scan (rev (tables s)) h = Ret ts" "delete_result (rev (tables s)) h ts"
    by (auto simp: storage_inv_def)
  moreover have "storage_inv (s\<lparr>tables := rev ts\<rparr>)"
    using ts(2) storage_invD(2) [OF assms] by (auto simp: storage_inv_def delete_result_def)
  ultimately show ?thesis by (rule that)
qed

lemma storage_Delete_returns:
  assumes "storage_inv s"
  shows "\<exists>s' e. storage_Delete os s h = Ret (s', e)"
proof -
  from assms obtain ts where "delete_scan (rev (tables s)) h = Ret ts" by (rule storage_Delete_scan)
  with assms show ?thesis
    by (auto simp: storage_Delete_def storage_inv_def Let_def split: sum.splits)
qed

lemma storage_Delete_correct:
  assumes inv: "storage_inv s" and del: "storage_Delete os s h = Ret (s', e)"
  shows "storage_inv s' \<and> closed s' = closed s \<and>
    storage_abs s' = (storage_abs s)(h := prev_version (rev (tables s)) h) \<and>
    (\<forall>k. tables_with (tables s') k = tables_with (tables s) k - (if k = h then 1 else 0))"
proof -
  from inv obtain ts where ts: "delete_scan (rev (tables s)) h = Ret ts"
    "delete_result (rev (tables s)) h ts" "storage_inv (s\<lparr>tables := rev ts\<rparr>)"
    by (rule storage_Delete_scan)
  let ?s = "s\<lparr>tables := rev ts\<rparr>"
  have base: "storage_abs ?s = (storage_abs s)(h := prev_version (rev (tables s)) h)"
    "\<forall>k. tables_with (tables ?s) k = tables_with (tables s) k - (if k = h then 1 else 0)"
    using ts(2) by (simp_all add: delete_result_def storage_abs_def)
  from storage_Delete_shape [OF inv ts(1) del]
  consider "s' = ?s" | sz nt where "newTable os sz = Inr nt"
    "s' = ?s\<lparr>tables := tables ?s @ [nt], merging := True\<rparr>" by auto
  then show ?thesis
  proof cases
    case 1
    with base ts(3) show ?thesis by simp
  next
    case (2 sz nt)
    with base storage_grow_inv [OF ts(3) 2(1), of True] newTable_Inr(3) [OF 2(1)]
    show ?thesis by simp
  qed
qed

section \<open>A storage instance provides the container contract\<close>

definition storage_lookup :: "storage \<Rightarrow> hkey \<Rightarrow> vdata option outcome" where
  "storage_lookup s h = map_ret (\<lambda>r. case r of Inl e \<Rightarrow> None | Inr v \<Rightarrow> Some v) (storage_Get s h)"

definition storage_puts :: "os \<Rightarrow> storage \<Rightarrow> hkey \<Rightarrow> vdata \<Rightarrow> storage \<Rightarrow> bool" where
  "storage_puts os s h v s' \<longleftrightarrow> storage_Put os s h v = Some (Ret (s', None))"

definition storage_dels :: "os \<Rightarrow> storage \<Rightarrow> hkey \<Rightarrow> storage \<Rightarrow> bool" where
  "storage_dels os s h s' \<longleftrightarrow> (\<exists>e. storage_Delete os s h = Ret (s', e))"

interpretation sto: kv_container storage_inv storage_abs storage_lookup "storage_puts os"
  "storage_dels os" sole valid_vdata for os
proof unfold_locales
  fix s s' h k v
  show "storage_lookup s h = Ret (storage_abs s h)" if "storage_inv s"
    using that by (simp add: storage_lookup_def storage_Get_eq split: option.split)
  show "storage_inv s'" "storage_abs s' = (storage_abs s)(h \<mapsto> v)"
    if "storage_inv s" "valid_vdata v" "storage_puts os s h v s'"
    using that storage_Put_correct [of os s h v "Ret (s', None)"]
    by (auto simp: storage_puts_def put_result_def valid_vdata_def)
  show "storage_inv s'" if "storage_inv s" "storage_dels os s h s'"
    using that storage_Delete_correct by (auto simp: storage_dels_def)
  show "storage_abs s' k = storage_abs s k"
    if "storage_inv s" "storage_dels os s h s'" "k \<noteq> h"
    using that storage_Delete_correct by (fastforce simp: storage_dels_def)
  show "storage_abs s' h = None" if "storage_inv s" "storage_dels os s h s'" "sole s h"
    using that storage_Delete_correct [of s os h s'] prev_version_sole [of "rev (tables s)" h]
    by (auto simp: storage_dels_def sole_def storage_inv_def)
qed

section \<open>Concrete instances\<close>

definition storage_of :: "table list \<Rightarrow> storage" where
  "storage_of ts = \<lparr>tables = ts, merging = False, closed = False\<rparr>"

lemma storage_of_sel [simp]:
  "tables (storage_of ts) = ts" "storage_abs (storage_of ts) = tables_abs ts"
  "storage_inv (storage_of ts) \<longleftrightarrow> (\<forall>t \<in> set ts. table_inv t) \<and> ts \<noteq> []"
  "sole (storage_of ts) h \<longleftrightarrow> tables_with ts h \<le> 1"
  "(storage_of ts)\<lparr>tables := ts'\<rparr> = storage_of ts'"
  "merging (storage_of ts) = False" "closed (storage_of ts) = False"
  by (simp_all add: storage_of_def storage_abs_def storage_inv_def sole_def)

lemma storage_New_fresh: "storage_New os_ok 0 = Inr (storage_of [fresh_table])"
  by (simp add: storage_New_def newTable_fresh storage_of_def)

lemma storage_Put_fresh:
  assumes "valid_vdata v" and "entry_size v < minimumSize"
  shows "storage_Put os (storage_of [fresh_table]) h v = Some (Ret (storage_of [table_of h v], None))"
  using assms put_loop_unfold_done [of _ "storage_of [fresh_table]"]
  by (simp add: storage_Put_def table_put_fresh)

lemma os_ok_mmap [simp]: "mmap_ok os_ok n" by (simp add: os_ok_def)

section \<open>Properties\<close>



text \<open>\<open>Put\<close> on every outcome: whenever it returns, it has not panicked; on success the key
  has the new entry and all other keys keep theirs, on an error (a key that is too long, a failed
  allocation) the contents are unchanged, and the instance stays well formed.\<close>

theorem storage_Put_outcome:
  assumes "storage_Put os s h v = Some r" and "length (vvalue v) < 2 ^ 32" and "storage_inv s"
  shows "\<exists>s' e. r = Ret (s', e) \<and> storage_inv s' \<and> closed s' = closed s \<and>
    storage_abs s' = (if e = None then (storage_abs s)(h \<mapsto> v) else storage_abs s)"
proof (cases r)
  case (Ret p)
  obtain s' e where "p = (s', e)" by (cases p)
  with Ret storage_Put_correct [OF assms] show ?thesis unfolding put_result_def
    by (intro exI [of _ s'] exI [of _ e]) simp
qed (use storage_Put_correct [OF assms] in \<open>simp add: put_result_def\<close>)

theorem storage_Put_outcome_witness:
  "storage_Put os_ok (storage_of [fresh_table]) 7 entry_b =
     Some (Ret (storage_of [table_of 7 entry_b], None)) \<and>
   storage_abs (storage_of [table_of 7 entry_b]) = [7 \<mapsto> entry_b]"
proof -
  have "length (vvalue entry_b) < 2 ^ 32" by (simp add: entry_b_def)
  then show ?thesis
    using storage_Put_outcome [of os_ok "storage_of [fresh_table]" 7 entry_b
        "Ret (storage_of [table_of 7 entry_b], None)"]
    by (simp add: storage_Put_fresh)
qed

text \<open>C21. When \<open>Put\<close> returns: with a short enough key and memory that can always be mapped, it
  returns exactly when the entry fits the newest table, or is smaller than the one table it
  would add (the larger of 1 MiB and twice the newest table's live bytes). Otherwise it
  allocates tables forever.\<close>

theorem storage_Put_returns_iff:
  assumes "storage_inv s" and "\<forall>n. mmap_ok os n" and "length (vkey v) < maxKeyLen"
  shows "(\<exists>r. storage_Put os s h v = Some r) \<longleftrightarrow>
    entry_size v + offset (last (tables s)) < allocated (last (tables s)) \<or>
    entry_size v < max minimumSize (nat (inuse (last (tables s)) * 2))"
proof (cases "entry_size v + offset (last (tables s)) < allocated (last (tables s))")
  case True
  have ne: "tables s \<noteq> []" and inv: "table_inv (last (tables s))"
    using assms(1) by (simp_all add: storage_inv_def)
  from put_loop_unfold_done [of "\<lambda>t. table_put t h v" s, OF table_put_fits [OF inv assms(3) True]]
  show ?thesis using True ne by (simp add: storage_Put_def)
next
  case False
  then have full: "allocated (last (tables s)) \<le> entry_size v + offset (last (tables s))" by simp
  from put_loop_returns_iff [OF assms full] False storage_invD(2) [OF assms(1)]
  show ?thesis by (simp add: storage_Put_def)
qed

theorem storage_Put_returns_iff_witness:
  "storage_Put os_ok (storage_of [fresh_table]) 7
     \<lparr>vkey = [107], vttl = 0, vvalue = replicate minimumSize 0\<rparr> = None"
proof -
  let ?v = "\<lparr>vkey = [107], vttl = 0, vvalue = replicate minimumSize 0\<rparr> :: vdata"
  have "length (vkey ?v) < maxKeyLen" by (simp add: maxKeyLen_def)
  moreover have "inuse fresh_table = 0" by (simp add: fresh_table_def)
  ultimately show ?thesis
    using storage_Put_returns_iff [of "storage_of [fresh_table]" os_ok ?v 7]
    by (simp add: entry_size_def)
qed

text \<open>C23. What \<open>Delete\<close> leaves: it never panics, keeps the instance well formed and every other
  key as it was, and gives the deleted key the version that the newest of the remaining tables
  holds. The key is gone exactly when no second table held it.\<close>

theorem storage_Delete_outcome:
  assumes "storage_inv s"
  shows "\<exists>s' e. storage_Delete os s h = Ret (s', e) \<and> storage_inv s' \<and>
    storage_abs s' = (storage_abs s)(h := prev_version (rev (tables s)) h) \<and>
    (storage_Check s' h = Ret False \<longleftrightarrow> sole s h)"
proof -
  from storage_Delete_returns [OF assms] obtain s' e where d: "storage_Delete os s h = Ret (s', e)"
    by blast
  from storage_Delete_correct [OF assms d] have c: "storage_inv s'"
    "storage_abs s' = (storage_abs s)(h := prev_version (rev (tables s)) h)"
    "tables_with (tables s') h = tables_with (tables s) h - 1" by simp_all
  have "storage_abs s' h = None \<longleftrightarrow> tables_with (tables s') h = 0"
    using tables_abs_None [of "tables s'" h] c(1) by (simp add: storage_abs_def storage_inv_def)
  then have "storage_Check s' h = Ret False \<longleftrightarrow> sole s h"
    using c(3) by (auto simp: storage_Check_eq [OF c(1)] sole_def)
  with d c(1,2) show ?thesis by blast
qed

theorem storage_Delete_outcome_witness:
  "\<exists>s' e. storage_Delete os_ok (storage_of [table_of 7 entry_a, table_of 7 entry_b]) 7 = Ret (s', e) \<and>
     storage_abs s' 7 = Some entry_a"
proof -
  have "storage_inv (storage_of [table_of 7 entry_a, table_of 7 entry_b])"
    by (simp add: table_of_sel)
  from storage_Delete_outcome [OF this, of os_ok 7] show ?thesis by (auto simp: table_of_sel)
qed

text \<open>\<open>GetRaw\<close> and \<open>DecodeRaw\<close> together are \<open>Get\<close>, for every key and on every error, although
  \<open>GetRaw\<close> copies one byte more than the entry has.\<close>

theorem GetRaw_DecodeRaw:
  assumes "storage_inv s"
  shows "bind_outcome (storage_GetRaw s h) (\<lambda>r. case r of Inl e \<Rightarrow> Ret (Inl e)
           | Inr raw \<Rightarrow> map_ret Inr (DecodeRaw raw)) = storage_Get s h"
  using storage_abs_valid [OF assms, of h]
  by (cases "storage_abs s h")
    (simp_all add: storage_GetRaw_eq [OF assms] storage_Get_eq [OF assms] DecodeRaw_encode)

theorem GetRaw_DecodeRaw_witness:
  "storage_Get (storage_of [table_of 7 entry_a]) 7 = Ret (Inr entry_a) \<and>
   bind_outcome (storage_GetRaw (storage_of [table_of 7 entry_a]) 7)
     (\<lambda>r. case r of Inl e \<Rightarrow> Ret (Inl e) | Inr raw \<Rightarrow> map_ret Inr (DecodeRaw raw)) = Ret (Inr entry_a)"
proof -
  have i: "storage_inv (storage_of [table_of 7 entry_a])" by (simp add: table_of_sel)
  have "storage_Get (storage_of [table_of 7 entry_a]) 7 = Ret (Inr entry_a)"
    by (simp add: storage_Get_eq [OF i] table_of_sel)
  with GetRaw_DecodeRaw [OF i, of 7] show ?thesis by simp
qed

end
