(* ===== verification/Storage_Views.thy ===== *)
theory Storage_Views
  imports Storage_Writes
begin

text \<open>
  The parts of \<open>internal/storage/storage.go\<close> that look at a whole instance: \<open>Export\<close> and
  \<open>Import\<close>, which move a storage instance between nodes, \<open>Len\<close> and \<open>Range\<close>.
\<close>

section \<open>Export and Import\<close>

text \<open>Only the bytes below the write position matter for the represented map.\<close>

lemma mem_entry_prefix:
  assumes "mem_entry m off v" and "off + entry_size v \<le> pos"
    and "\<forall>i < pos. mat m' i = mat m i" and "pos \<le> mlen m'"
  shows "mem_entry m' off v"
  using assms by (simp add: mem_entry_def mem_has_nth)

lemma table_same_entries:
  assumes ok: "table_entries_ok t" and k: "hkeys t' = hkeys t" and o: "offset t' = offset t"
    and m: "\<forall>i < offset t. mat (memory t') i = mat (memory t) i" "offset t \<le> mlen (memory t')"
  shows "table_entries_ok t'" and "table_abs t' = table_abs t"
proof -
  have e: "mem_entry (memory t') off v" if "mem_entry (memory t) off v" "off + entry_size v \<le> offset t" for off v
    using mem_entry_prefix [OF that m] .
  show "table_entries_ok t'"
    using ok e unfolding table_entries_ok_def k o by blast
  show "table_abs t' = table_abs t"
  proof
    fix h
    show "table_abs t' h = table_abs t h"
    proof (cases "fmlookup (hkeys t) h")
      case None
      with k show ?thesis by (simp add: table_abs_def table_absent)
    next
      case (Some off)
      from ok Some obtain v where v: "mem_entry (memory t) off v" "off + entry_size v \<le> offset t"
        "table_abs t h = Some v" by (metis table_entries_okE)
      from Some k have "fmlookup (hkeys t') h = Some off" by simp
      from table_get_entry [OF this e [OF v(1,2)]] v(3) show ?thesis by (simp add: table_abs_def)
    qed
  qed
qed

definition imported_table :: "table \<Rightarrow> transport \<Rightarrow> table" where
  "imported_table t tr =
     t\<lparr>hkeys := tr_HKeys tr, offset := tr_Offset tr, inuse := tr_Inuse tr, garbage := tr_Garbage tr,
       memory := mem_write (memory t) 0 (tr_Memory tr)\<rparr>"

definition exported :: "table \<Rightarrow> transport" where
  "exported t =
     \<lparr>tr_HKeys = hkeys t, tr_Memory = mem_read (memory t) 0 (offset t) @ [0], tr_Offset = offset t,
      tr_Allocated = allocated t, tr_Inuse = inuse t, tr_Garbage = garbage t\<rparr>"

lemma storage_Export_eq:
  assumes "storage_inv s"
  shows "storage_Export marshal s =
    Ret (if length (tables s) = 1 then marshal (exported (hd (tables s))) else Inl ErrFragmented)"
proof -
  have "table_inv (hd (tables s))" using assms by (simp add: storage_inv_def)
  then have "offset (hd (tables s)) \<le> mlen (memory (hd (tables s)))" by (simp add: table_inv_def)
  then show ?thesis by (simp add: storage_Export_def exported_def mem_slice_def Let_def)
qed

lemma imported_exported:
  assumes inv: "table_inv t" and nt: "newTable os (int (allocated t)) = Inr nt"
  shows "table_inv (imported_table nt (exported t))"
    and "table_abs (imported_table nt (exported t)) = table_abs t"
proof -
  let ?t = "imported_table nt (exported t)"
  note d = table_invD [OF inv]
  note n = newTable_Inr [OF nt]
  have al: "allocated t \<le> allocated nt" and ml: "mlen (memory nt) = allocated nt"
    using n(7) table_invD(1) [OF n(1)] by (simp_all add: minimumSize_def)
  have "mat (memory ?t) i = mat (memory t) i" if "i < offset t" for i
    using that by (simp add: imported_table_def exported_def mem_write_def mem_read_def nth_append)
  then have same: "table_entries_ok ?t" "table_abs ?t = table_abs t"
    using table_same_entries [OF d(3), of ?t] d(2) al ml
    by (simp_all add: imported_table_def exported_def)
  moreover have "live_size ?t = live_size t"
    unfolding live_size_def size_at_def same(2) by (simp add: imported_table_def exported_def)
  ultimately show "table_inv ?t" and "table_abs ?t = table_abs t"
    using d al ml by (simp_all add: table_inv_def imported_table_def exported_def)
qed

lemma storage_Import_exported:
  assumes inv: "table_inv t" and un: "unmarshal w = Inr (exported t)"
  shows "storage_Import unmarshal os w =
    Ret (case newTable os (int (allocated t)) of
           Inl e \<Rightarrow> Inl e
         | Inr nt \<Rightarrow> Inr \<lparr>tables = [imported_table nt (exported t)], merging = False, closed = False\<rparr>)"
proof (cases "newTable os (int (allocated t))")
  case (Inl e)
  then show ?thesis using un by (simp add: storage_Import_def storage_New_def exported_def)
next
  case (Inr nt)
  note n = newTable_Inr [OF Inr]
  have "length (tr_Memory (exported t)) \<le> mlen (memory nt)"
    using n(7) table_invD(1) [OF n(1)] table_invD(2) [OF inv] by (simp add: exported_def)
  then have "mem_copy (memory nt) 0 (tr_Memory (exported t)) =
      Ret (mem_write (memory nt) 0 (tr_Memory (exported t)))"
    by (simp add: mem_copy_fits)
  moreover have "tr_Allocated (exported t) = allocated t" by (simp add: exported_def)
  ultimately show ?thesis
    using un Inr by (simp add: storage_Import_def storage_New_def Let_def imported_table_def)
qed

section \<open>Len\<close>

lemma dom_table_abs:
  assumes "table_inv t"
  shows "dom (table_abs t) = fmdom' (hkeys t)"
  using table_abs_dom [OF table_invD(3) [OF assms]] by (simp add: set_eq_iff domIff fmdom'_alt_def)

lemma dom_tables_abs:
  assumes "\<forall>t \<in> set ts. table_inv t"
  shows "dom (tables_abs ts) = (\<Union>t \<in> set ts. fmdom' (hkeys t))"
  using assms by (induction ts) (auto simp: dom_table_abs)

lemma finite_dom_storage_abs:
  assumes "storage_inv s"
  shows "finite (dom (storage_abs s))"
  using assms by (simp add: storage_abs_def storage_inv_def dom_tables_abs)

lemma card_le_Len: "card (\<Union>t \<in> set ts. fmdom' (hkeys t)) \<le> sum_list (map (\<lambda>t. fcard (fmdom (hkeys t))) ts)"
proof (induction ts)
  case (Cons t ts)
  have "card (fmdom' (hkeys t) \<union> (\<Union>t \<in> set ts. fmdom' (hkeys t))) \<le>
      card (fmdom' (hkeys t)) + card (\<Union>t \<in> set ts. fmdom' (hkeys t))"
    by (rule card_Un_le)
  with Cons show ?case by (simp add: fcard_fmdom)
qed simp

lemma card_eq_Len:
  assumes "\<forall>h. tables_with ts h \<le> 1"
  shows "card (\<Union>t \<in> set ts. fmdom' (hkeys t)) = sum_list (map (\<lambda>t. fcard (fmdom (hkeys t))) ts)"
  using assms
proof (induction ts)
  case (Cons t ts)
  have "fmdom' (hkeys t) \<inter> (\<Union>t \<in> set ts. fmdom' (hkeys t)) = {}"
  proof (rule ccontr)
    assume "fmdom' (hkeys t) \<inter> (\<Union>t \<in> set ts. fmdom' (hkeys t)) \<noteq> {}"
    then obtain h u where h: "h |\<in>| fmdom (hkeys t)" "u \<in> set ts" "h |\<in>| fmdom (hkeys u)"
      by (auto simp: fmdom'_alt_def)
    then have "filter (\<lambda>t. h |\<in>| fmdom (hkeys t)) ts \<noteq> []" by (auto simp: filter_empty_conv)
    then have "tables_with ts h \<noteq> 0" by (simp add: tables_with_def)
    with h(1) Cons.prems [rule_format, of h] show False by simp
  qed
  moreover have "\<forall>h. tables_with ts h \<le> 1" 
  proof
    fix h
    show "tables_with ts h \<le> 1" using Cons.prems [rule_format, of h] by (simp split: if_splits)
  qed
  ultimately show ?case using Cons.IH by (simp add: card_Un_disjoint fcard_fmdom)
qed simp

section \<open>Range\<close>

lemma iter_okD: "iter_ok iter \<Longrightarrow> set (iter m) = fmdom' m" "iter_ok iter \<Longrightarrow> distinct (iter m)"
  by (auto simp: iter_ok_def)

lemma iter_Nil_iff: "iter_ok iter \<Longrightarrow> iter m = [] \<longleftrightarrow> m = fmempty"
proof -
  assume ok: "iter_ok iter"
  have "m = fmempty" if "fmdom' m = {}"
  proof (rule fmap_ext)
    fix h
    have "h \<notin> fmdom' m" using that by simp
    then show "fmlookup m h = fmlookup fmempty h" by (simp add: fmdom'_notD)
  qed
  with iter_okD(1) [OF ok, of m] show ?thesis by (cases "iter m = []") auto
qed

text \<open>A callback that never stops sees every entry of every table.\<close>

lemma range_keys_collect:
  assumes "table_inv t"
  shows "range_keys (\<lambda>acc h v. (acc @ [(h, v)], True)) t hs acc =
    Ret (acc @ map (\<lambda>h. (h, table_abs t h)) hs)"
  using assms
  by (induction hs arbitrary: acc) (simp_all add: table_get_abs [OF table_invD(3)])

lemma range_tables_collect:
  assumes "\<forall>t \<in> set ts. table_inv t"
  shows "range_tables iter (\<lambda>acc h v. (acc @ [(h, v)], True)) ts acc =
    Ret (acc @ concat (map (\<lambda>t. map (\<lambda>h. (h, table_abs t h)) (iter (hkeys t))) ts))"
  using assms by (induction ts arbitrary: acc) (simp_all add: range_keys_collect)

text \<open>A callback that stops at once is still called once for every table that has a key.\<close>

lemma range_keys_stop:
  assumes "table_inv t"
  shows "range_keys (\<lambda>n h v. (Suc n, False)) t hs n = Ret (if hs = [] then n else Suc n)"
  using assms by (cases hs) (simp_all add: table_get_abs [OF table_invD(3)])

lemma range_tables_stop:
  assumes "\<forall>t \<in> set ts. table_inv t" and "iter_ok iter"
  shows "range_tables iter (\<lambda>n h v. (Suc n, False)) ts n =
    Ret (n + length (filter (\<lambda>t. hkeys t \<noteq> fmempty) ts))"
  using assms
  by (induction ts arbitrary: n) (simp_all add: range_keys_stop iter_Nil_iff)

section \<open>A concrete iteration order\<close>

definition iter_sorted :: "(hkey, nat) fmap \<Rightarrow> hkey list" where
  "iter_sorted m = sorted_list_of_fset (fmdom m)"

lemma iter_sorted_ok [simp]: "iter_ok iter_sorted"
  by (simp add: iter_ok_def iter_sorted_def fmdom'_alt_def sorted_list_of_fset.rep_eq)

section \<open>Properties\<close>

text \<open>C22. Moving a storage instance between nodes keeps its contents: what \<open>Export\<close> writes,
  \<open>Import\<close> reads back into a well-formed instance that represents the same map, provided
  the codec decodes what it encoded and the mapping of the new table succeeds. An instance of
  more than one table is refused with \<open>ErrFragmented\<close>.\<close>

theorem Export_Import:
  assumes "storage_inv s" and "\<And>tr. marshal tr = Inr (enc tr)"
    and "\<And>tr. unmarshal (enc tr) = Inr tr" and "\<forall>n. mmap_ok os n"
  shows "if length (tables s) = 1
    then \<exists>w s'. storage_Export marshal s = Ret (Inr w) \<and> storage_Import unmarshal os w = Ret (Inr s') \<and>
           storage_inv s' \<and> storage_abs s' = storage_abs s \<and> storage_Len s' = storage_Len s
    else storage_Export marshal s = Ret (Inl ErrFragmented)"
proof (cases "length (tables s) = 1")
  case True
  then obtain t where t: "tables s = [t]" by (auto simp: length_Suc_conv)
  have inv: "table_inv t" using assms(1) t by (simp add: storage_inv_def)
  from newTable_ok [OF assms(4)] obtain nt where nt: "newTable os (int (allocated t)) = Inr nt" by metis
  note i = imported_exported [OF inv nt]
  have "storage_Export marshal s = Ret (Inr (enc (exported t)))"
    using True t assms(2) by (simp add: storage_Export_eq [OF assms(1)])
  moreover have "storage_Import unmarshal os (enc (exported t)) =
      Ret (Inr (storage_of [imported_table nt (exported t)]))"
    using storage_Import_exported [where unmarshal = unmarshal and os = os, OF inv assms(3) [of "exported t"]] nt by (simp add: storage_of_def)
  moreover have "hkeys (imported_table nt (exported t)) = hkeys t"
    by (simp add: imported_table_def exported_def)
  ultimately show ?thesis
    using True t i by (simp add: storage_abs_def [of s] storage_Len_def)
qed (simp add: storage_Export_eq [OF assms(1)])

theorem Export_Import_witness:
  "\<exists>w s'. storage_Export Inr (storage_of [table_of 7 entry_a]) = Ret (Inr w) \<and>
     storage_Import Inr os_ok w = Ret (Inr s') \<and> storage_abs s' = [7 \<mapsto> entry_a]"
proof -
  have "storage_inv (storage_of [table_of 7 entry_a])" by (simp add: table_of_sel)
  from Export_Import [OF this, of Inr "\<lambda>x. x" Inr os_ok] show ?thesis
    by (auto simp: table_of_sel)
qed

text \<open>\<open>Len\<close> is never less than the number of keys \<open>Get\<close> can find, and is that number when no
  key is held by two tables.\<close>

theorem storage_Len_bound:
  assumes "storage_inv s"
  shows "card (dom (storage_abs s)) \<le> storage_Len s \<and>
    (disjoint_tables s \<longrightarrow> storage_Len s = card (dom (storage_abs s)))"
  using assms card_le_Len [of "tables s"] card_eq_Len [of "tables s"]
  by (simp add: storage_Len_def storage_abs_def storage_inv_def dom_tables_abs disjoint_tables_def
      sole_def)

theorem storage_Len_bound_witness:
  "storage_Len (storage_of [table_of 7 entry_a]) = 1 \<and>
   card (dom (storage_abs (storage_of [table_of 7 entry_a, table_of 7 entry_b]))) = 1 \<and>
   storage_Len (storage_of [table_of 7 entry_a, table_of 7 entry_b]) = 2"
proof -
  have "storage_inv (storage_of [table_of 7 entry_a])" by (simp add: table_of_sel)
  moreover have "disjoint_tables (storage_of [table_of 7 entry_a])"
    by (simp add: disjoint_tables_def table_of_sel)
  ultimately have "storage_Len (storage_of [table_of 7 entry_a]) = 1"
    using storage_Len_bound [of "storage_of [table_of 7 entry_a]"] by (simp add: table_of_sel)
  moreover have "dom [7 \<mapsto> entry_a, 7 \<mapsto> entry_b] = {7}" by auto
  ultimately show ?thesis by (simp add: storage_Len_def table_of_sel fcard_fmdom)
qed

text \<open>\<open>Range\<close>: a callback that always goes on sees every visible entry; a callback that asks
  to stop at its first call is still called once for every table that holds a key.\<close>

theorem storage_Range_visits:
  assumes "storage_inv s" and "iter_ok iter"
  shows "(\<exists>xs. storage_Range iter s (\<lambda>acc h v. (acc @ [(h, v)], True)) [] = Ret xs \<and>
      (\<forall>h v. storage_abs s h = Some v \<longrightarrow> (h, Some v) \<in> set xs) \<and> length xs = storage_Len s) \<and>
    storage_Range iter s (\<lambda>n h v. (Suc n, False)) 0 =
      Ret (length (filter (\<lambda>t. hkeys t \<noteq> fmempty) (tables s)))"
proof -
  let ?xs = "concat (map (\<lambda>t. map (\<lambda>h. (h, table_abs t h)) (iter (hkeys t))) (rev (tables s)))"
  have inv: "\<forall>t \<in> set (rev (tables s)). table_inv t" and ne: "tables s \<noteq> []"
    using assms(1) by (simp_all add: storage_inv_def)
  have vis: "\<exists>t \<in> set ts. table_abs t h = Some v" if "tables_abs ts h = Some v" for ts h v
    using that by (induction ts) (auto simp: map_add_Some_iff)
  have "(h, Some v) \<in> set ?xs" if "storage_abs s h = Some v" for h v
  proof -
    from vis [of "tables s" h v] that obtain t where t: "t \<in> set (tables s)" "table_abs t h = Some v"
      by (auto simp: storage_abs_def)
    with inv have "h \<in> set (iter (hkeys t))"
      using dom_table_abs [of t] iter_okD(1) [OF assms(2), of "hkeys t"] by auto
    with t show ?thesis by force
  qed
  moreover have "length (iter m) = fcard (fmdom m)" for m
    using iter_okD [OF assms(2), of m] by (simp add: fcard_fmdom distinct_card [symmetric])
  then have "length ?xs = storage_Len s"
    by (simp add: length_concat storage_Len_def o_def rev_map [symmetric] sum_list_rev)
  ultimately show ?thesis
    using ne range_tables_collect [OF inv, of iter "[]"] range_tables_stop [OF inv assms(2), of 0]
    by (simp add: storage_Range_def rev_filter [symmetric])
qed

theorem storage_Range_visits_witness:
  "storage_Range iter_sorted (storage_of [table_of 7 entry_a, table_of 8 entry_b])
     (\<lambda>n h v. (Suc n, False)) 0 = Ret 2"
proof -
  have "storage_inv (storage_of [table_of 7 entry_a, table_of 8 entry_b])"
    by (simp add: table_of_sel)
  from storage_Range_visits [OF this iter_sorted_ok]
  have "storage_Range iter_sorted (storage_of [table_of 7 entry_a, table_of 8 entry_b])
      (\<lambda>n h v. (Suc n, False)) 0 =
    Ret (length (filter (\<lambda>t. hkeys t \<noteq> fmempty) [table_of 7 entry_a, table_of 8 entry_b]))" by simp
  moreover have "fmupd (h :: hkey) (n :: nat) fmempty \<noteq> fmempty" for h n
    by (metis fmupd_lookup fmempty_lookup option.distinct(1))
  ultimately show ?thesis by (simp add: table_of_sel)
qed

end
