(* ===== verification/Merge.thy ===== *)
theory Merge
  imports Storage_Views
begin

text \<open>
  \<open>internal/storage/merge.go\<close>: the background merger that folds the older tables of a storage
  instance into the newest one, at most about a thousand keys per critical section, and the
  way \<open>Storage.Close\<close> waits for it.
\<close>

section \<open>Operations\<close>

text \<open>How the copying loops of \<open>chunkedMergeTables\<close> end.\<close>

datatype merge_status = Exhausted | FreshFull | ChunkDone

text \<open>The loop over the keys of one older table.\<close>

fun merge_keys ::
  "hkey list \<Rightarrow> table \<Rightarrow> table \<Rightarrow> nat \<Rightarrow> (table \<times> table \<times> nat \<times> merge_status) outcome" where
  "merge_keys [] old fresh cnt = Ret (old, fresh, cnt, Exhausted)"
| "merge_keys (h # hs) old fresh cnt =
     bind_outcome (table_getRaw old h) (\<lambda>raw.
     bind_outcome (table_putRaw fresh h (case raw of None \<Rightarrow> [] | Some r \<Rightarrow> r)) (\<lambda>(fresh', e).
     if e = Some ErrNotEnoughSpace then Ret (old, fresh', cnt, FreshFull)
     else bind_outcome (table_delete old h) (\<lambda>(old', _).
       let cnt' = cnt + 1 in
       if cnt' > 1000 then Ret (old', fresh', cnt', ChunkDone)
       else merge_keys hs old' fresh' cnt')))"

text \<open>The loop over all tables but the newest, oldest first.\<close>

fun merge_olds ::
  "((hkey, nat) fmap \<Rightarrow> hkey list) \<Rightarrow> table list \<Rightarrow> table \<Rightarrow> nat \<Rightarrow>
   (table list \<times> table \<times> nat \<times> merge_status) outcome" where
  "merge_olds iter [] fresh cnt = Ret ([], fresh, cnt, Exhausted)"
| "merge_olds iter (old # olds) fresh cnt =
     bind_outcome (merge_keys (iter (hkeys old)) old fresh cnt) (\<lambda>(old', fresh', cnt', st).
     if st = Exhausted then
       map_ret (\<lambda>(olds', r). (old' # olds', r)) (merge_olds iter olds fresh' cnt')
     else Ret (old' # olds, fresh', cnt', st))"

definition chunkedMergeTables ::
  "os \<Rightarrow> ((hkey, nat) fmap \<Rightarrow> hkey list) \<Rightarrow> storage \<Rightarrow> (storage \<times> bool) outcome" where
  "chunkedMergeTables os iter s =
     (if length (tables s) = 1 then Ret (s, True)
      else if tables s = [] then Panic
      else bind_outcome (merge_olds iter (butlast (tables s)) (last (tables s)) 0)
        (\<lambda>(olds, fresh, _, st).
        case st of
          FreshFull \<Rightarrow>
            (case newTable os (2 * int (allocated fresh)) of
               Inl e \<Rightarrow> Ret (s\<lparr>tables := olds @ [fresh]\<rparr>, False)
             | Inr nt \<Rightarrow> Ret (s\<lparr>tables := olds @ [fresh, nt]\<rparr>, False))
        | ChunkDone \<Rightarrow> Ret (s\<lparr>tables := olds @ [fresh]\<rparr>, False)
        | Exhausted \<Rightarrow>
            Ret (s\<lparr>tables := fresh # filter (\<lambda>t. hkeys t \<noteq> fmempty) olds\<rparr>, True)))"

text \<open>
  \<open>mergeTables\<close>: chunk after chunk until one reports completion or the context is cancelled;
  \<open>cancelled n\<close> says whether the \<open>select\<close> after chunk \<open>n\<close> (from 0) takes the branch of
  \<open>ctx.Done()\<close>. The flag \<open>merging\<close> is
  reset on every exit. Running out of the chunk budget \<open>fuel\<close> is \<open>None\<close>.
\<close>

fun mergeTables ::
  "os \<Rightarrow> ((hkey, nat) fmap \<Rightarrow> hkey list) \<Rightarrow> (nat \<Rightarrow> bool) \<Rightarrow> nat \<Rightarrow> storage \<Rightarrow> storage outcome option" where
  "mergeTables os iter cancelled 0 s = None"
| "mergeTables os iter cancelled (Suc fuel) s =
     (case chunkedMergeTables os iter s of
        Panic \<Rightarrow> Some Panic
      | Ret (s', done) \<Rightarrow>
          if done \<or> cancelled 0 then Some (Ret (s'\<lparr>merging := False\<rparr>))
          else mergeTables os iter (\<lambda>n. cancelled (Suc n)) fuel s')"

section \<open>Moving keys between tables\<close>

text \<open>The effect of moving the keys \<open>D\<close> out of an older table.\<close>

definition moves :: "hkey set \<Rightarrow> table \<Rightarrow> table \<Rightarrow> table \<Rightarrow> table \<Rightarrow> bool" where
  "moves D old fresh old' fresh' \<longleftrightarrow>
     table_inv old' \<and> table_inv fresh' \<and> allocated fresh' = allocated fresh \<and>
     table_abs old' = table_abs old |` (- D) \<and>
     table_abs fresh' = table_abs fresh ++ (table_abs old |` D)"

lemma moves_refl: "table_inv old \<Longrightarrow> table_inv fresh \<Longrightarrow> moves {} old fresh old fresh"
  by (simp add: moves_def restrict_map_def)

lemma moves_trans:
  assumes "moves D old fresh old1 fresh1" and "moves E old1 fresh1 old2 fresh2"
  shows "moves (D \<union> E) old fresh old2 fresh2"
proof -
  have "table_abs old |` (- D) |` (- E) = table_abs old |` (- (D \<union> E))"
    by (auto simp: restrict_map_def fun_eq_iff)
  moreover have "table_abs fresh ++ (table_abs old |` D) ++ (table_abs old |` (- D) |` E) =
      table_abs fresh ++ (table_abs old |` (D \<union> E))"
    by (auto simp: restrict_map_def fun_eq_iff map_add_def split: option.splits)
  ultimately show ?thesis using assms by (simp add: moves_def)
qed

lemma moves_one:
  assumes old: "table_inv old" and fresh: "table_inv fresh" and v: "table_abs old h = Some v"
    and fit: "length (encode_entry v @ [0]) + offset fresh < allocated fresh"
  shows "moves {h} old fresh (table_drop old h) (table_append fresh h (encode_entry v @ [0]))"
proof -
  note o = table_invD [OF old] and f = table_invD [OF fresh]
  have val: "valid_vdata v" by (rule table_abs_Some_valid [OF o(3) v])
  have "table_abs (table_drop old h) = table_abs old |` (- {h})"
    using table_drop_refines(2) [OF o(3), of h] by (auto simp: restrict_map_def fun_eq_iff)
  moreover have "table_abs (table_append fresh h (encode_entry v @ [0])) =
      table_abs fresh ++ (table_abs old |` {h})"
    using table_append_refines(2) [OF f(3,1) val refl fit, of h] v
    by (auto simp: restrict_map_def fun_eq_iff map_add_def)
  ultimately show ?thesis
    using table_drop_inv [OF old, of h] table_append_inv [OF fresh val refl fit, of h]
    by (simp add: moves_def)
qed

lemma merge_keys_Cons:
  assumes old: "table_inv old" and fresh: "table_inv fresh" and v: "table_abs old h = Some v"
  shows "merge_keys (h # hs) old fresh cnt =
    (if length (encode_entry v @ [0]) + offset fresh \<ge> allocated fresh
     then Ret (old, fresh, cnt, FreshFull)
     else let old' = table_drop old h; fresh' = table_append fresh h (encode_entry v @ [0]) in
       if cnt + 1 > 1000 then Ret (old', fresh', cnt + 1, ChunkDone)
       else merge_keys hs old' fresh' (cnt + 1))"
proof -
  note o = table_invD [OF old] and f = table_invD [OF fresh]
  have dom: "h |\<in>| fmdom (hkeys old)" using v table_abs_dom [OF o(3), of h] by auto
  have "table_getRaw old h = Ret (Some (encode_entry v @ [0]))"
    using v by (simp add: table_getRaw_abs [OF old])
  moreover have "table_delete old h = Ret (table_drop old h, False)"
    using dom by (simp add: table_delete_eq [OF o(3)])
  ultimately show ?thesis
    using table_putRaw_full [of fresh "encode_entry v @ [0]" h]
      table_putRaw_fits [OF f(1), of "encode_entry v @ [0]" h]
    by (auto simp: Let_def not_le)
qed

lemma merge_keys_moves:
  assumes "table_inv old" and "table_inv fresh" and "set hs \<subseteq> dom (table_abs old)" and "distinct hs"
  shows "\<exists>old' fresh' cnt' st D. merge_keys hs old fresh cnt = Ret (old', fresh', cnt', st) \<and>
    moves D old fresh old' fresh' \<and> D \<subseteq> set hs \<and> (st = Exhausted \<longrightarrow> D = set hs) \<and>
    (st = ChunkDone \<longrightarrow> D \<noteq> {})"
  using assms
proof (induction hs arbitrary: old fresh cnt)
  case Nil
  then show ?case using moves_refl [of old fresh] by auto
next
  case (Cons h hs)
  from Cons.prems(3) obtain v where v: "table_abs old h = Some v" by auto
  note unfold = merge_keys_Cons [OF Cons.prems(1,2) v, of hs cnt]
  let ?raw = "encode_entry v @ [0]"
  show ?case
  proof (cases "length ?raw + offset fresh \<ge> allocated fresh")
    case True
    then have "merge_keys (h # hs) old fresh cnt = Ret (old, fresh, cnt, FreshFull)"
      unfolding unfold by simp
    with moves_refl [OF Cons.prems(1,2)] show ?thesis by blast
  next
    case False
    let ?old = "table_drop old h" and ?fresh = "table_append fresh h ?raw"
    have m: "moves {h} old fresh ?old ?fresh"
      using False by (intro moves_one [OF Cons.prems(1,2) v]) simp
    show ?thesis
    proof (cases "cnt + 1 > 1000")
      case True
      with False have "merge_keys (h # hs) old fresh cnt = Ret (?old, ?fresh, cnt + 1, ChunkDone)"
        unfolding unfold by (simp add: Let_def)
      moreover have "{h} \<subseteq> set (h # hs)" by simp
      ultimately show ?thesis using m by blast
    next
      case more: False
      have sub: "set hs \<subseteq> dom (table_abs ?old)"
        using m Cons.prems(3,4) by (auto simp: moves_def restrict_map_def)
      have inv: "table_inv ?old" "table_inv ?fresh" "distinct hs"
        using m Cons.prems(4) by (simp_all add: moves_def)
      from Cons.IH [OF inv(1,2) sub inv(3), of "cnt + 1"]
      obtain old' fresh' cnt' st D where r: "merge_keys hs ?old ?fresh (cnt + 1) = Ret (old', fresh', cnt', st)"
        "moves D ?old ?fresh old' fresh'" "D \<subseteq> set hs" "st = Exhausted \<longrightarrow> D = set hs"
        "st = ChunkDone \<longrightarrow> D \<noteq> {}"
        by blast
      from r(1) False more have "merge_keys (h # hs) old fresh cnt = Ret (old', fresh', cnt', st)"
        unfolding unfold by (simp add: Let_def)
      moreover have "moves ({h} \<union> D) old fresh old' fresh'" using m r(2) by (rule moves_trans)
      moreover have "{h} \<union> D \<subseteq> set (h # hs)" "st = Exhausted \<longrightarrow> {h} \<union> D = set (h # hs)"
        "st = ChunkDone \<longrightarrow> {h} \<union> D \<noteq> {}" using r(3,4) by auto
      ultimately show ?thesis by blast
    qed
  qed
qed

text \<open>Moving keys changes nothing visible as long as no key is stored twice.\<close>

lemma in_fmdom_iff_abs:
  assumes "table_inv t"
  shows "h |\<in>| fmdom (hkeys t) \<longleftrightarrow> table_abs t h \<noteq> None"
  using table_abs_dom [OF table_invD(3) [OF assms], of h] by auto

lemma tables_with_pos:
  assumes "\<forall>t \<in> set ts. table_inv t" and "tables_with ts h = 0"
  shows "tables_abs ts h = None"
  using assms tables_abs_None by blast

lemma moves_invisible:
  assumes m: "moves D old fresh old' fresh'" and D: "D \<subseteq> dom (table_abs old)"
    and inv: "\<forall>t \<in> set (xs @ old # ys @ [fresh]). table_inv t"
    and dis: "\<forall>h. tables_with (xs @ old # ys @ [fresh]) h \<le> 1"
  shows "tables_abs (xs @ old' # ys @ [fresh']) = tables_abs (xs @ old # ys @ [fresh])"
    and "\<forall>h. tables_with (xs @ old' # ys @ [fresh']) h = tables_with (xs @ old # ys @ [fresh]) h"
proof -
  have i: "table_inv old'" "table_inv fresh'" "table_inv old" "table_inv fresh"
    using m inv by (simp_all add: moves_def)
  have a: "table_abs old' h = (if h \<in> D then None else table_abs old h)"
    "table_abs fresh' h = (if h \<in> D then table_abs old h else table_abs fresh h)" for h
    using m D by (auto simp: moves_def restrict_map_def map_add_def split: option.splits)
  have others: "tables_with xs h = 0 \<and> tables_with ys h = 0 \<and> table_abs fresh h = None" if "h \<in> D" for h
  proof -
    have "h |\<in>| fmdom (hkeys old)" using that D i(3) by (auto simp: in_fmdom_iff_abs)
    with dis [rule_format, of h] i(4) show ?thesis
      by (auto simp: in_fmdom_iff_abs split: if_splits)
  qed
  show "\<forall>h. tables_with (xs @ old' # ys @ [fresh']) h = tables_with (xs @ old # ys @ [fresh]) h"
  proof
    fix h
    show "tables_with (xs @ old' # ys @ [fresh']) h = tables_with (xs @ old # ys @ [fresh]) h"
      using i a [of h] others [of h] D by (auto simp: in_fmdom_iff_abs)
  qed
  show "tables_abs (xs @ old' # ys @ [fresh']) = tables_abs (xs @ old # ys @ [fresh])"
  proof
    fix h
    have "tables_abs xs h = None \<and> tables_abs ys h = None" if "h \<in> D"
      using that others [OF that] inv by (simp add: tables_with_pos)
    then show "tables_abs (xs @ old' # ys @ [fresh']) h = tables_abs (xs @ old # ys @ [fresh]) h"
      using a [of h] others [of h] by (cases "h \<in> D") (auto simp: map_add_def split: option.split)
  qed
qed

text \<open>
  The whole copying loop. \<open>merged\<close> collects what is true of its result: the tables stay well
  formed, nothing visible changes when no key is stored twice, and when the loop runs to the
  end every older table is empty and the newest has taken over all of them, an older version
  replacing a newer one.
\<close>

definition merged :: "table list \<Rightarrow> table list \<Rightarrow> table \<Rightarrow> table list \<Rightarrow> table \<Rightarrow> merge_status \<Rightarrow> bool" where
  "merged xs olds fresh olds' fresh' st \<longleftrightarrow>
     (\<forall>t \<in> set olds'. table_inv t) \<and> table_inv fresh' \<and> allocated fresh' = allocated fresh \<and>
     ((\<forall>h. tables_with (xs @ olds @ [fresh]) h \<le> 1) \<longrightarrow>
        tables_abs (xs @ olds' @ [fresh']) = tables_abs (xs @ olds @ [fresh]) \<and>
        (\<forall>h. tables_with (xs @ olds' @ [fresh']) h = tables_with (xs @ olds @ [fresh]) h)) \<and>
     (st = Exhausted \<longrightarrow> (\<forall>t \<in> set olds'. hkeys t = fmempty) \<and>
        table_abs fresh' = table_abs fresh ++ tables_abs olds)"

lemma table_inv_empty:
  assumes "table_inv t" and "table_abs t = Map.empty"
  shows "hkeys t = fmempty"
proof (rule fmap_ext)
  fix h
  have "h |\<notin>| fmdom (hkeys t)" using assms by (simp add: in_fmdom_iff_abs)
  then show "fmlookup (hkeys t) h = fmlookup fmempty h" by (simp add: fmdom_notD)
qed

lemma merge_olds_merged:
  assumes "iter_ok iter" and "\<forall>t \<in> set (xs @ olds @ [fresh]). table_inv t"
  shows "\<exists>olds' fresh' cnt' st. merge_olds iter olds fresh cnt = Ret (olds', fresh', cnt', st) \<and>
    merged xs olds fresh olds' fresh' st \<and> length olds' = length olds"
  using assms
proof (induction olds arbitrary: xs fresh cnt)
  case Nil
  then show ?case by (auto simp: merged_def)
next
  case (Cons old olds)
  have inv: "table_inv old" "table_inv fresh" using Cons.prems(2) by simp_all
  have keys: "set (iter (hkeys old)) = dom (table_abs old)" "distinct (iter (hkeys old))"
    using iter_okD [OF Cons.prems(1)] dom_table_abs [OF inv(1)] by simp_all
  have "set (iter (hkeys old)) \<subseteq> dom (table_abs old)" using keys(1) by simp
  from merge_keys_moves [OF inv this keys(2), of cnt, unfolded keys(1)]
  obtain old1 fresh1 cnt1 st1 D where mk: "merge_keys (iter (hkeys old)) old fresh cnt = Ret (old1, fresh1, cnt1, st1)"
    "moves D old fresh old1 fresh1" "D \<subseteq> dom (table_abs old)" "st1 = Exhausted \<longrightarrow> D = dom (table_abs old)"
    by blast
  have inv1: "table_inv old1" "table_inv fresh1" "allocated fresh1 = allocated fresh"
    using mk(2) by (simp_all add: moves_def)
  note invisible = moves_invisible [OF mk(2,3), of xs olds]
  show ?case
  proof (cases "st1 = Exhausted")
    case False
    then have "merge_olds iter (old # olds) fresh cnt = Ret (old1 # olds, fresh1, cnt1, st1)"
      using mk(1) by simp
    moreover have "merged xs (old # olds) fresh (old1 # olds) fresh1 st1"
      using False inv1 Cons.prems(2) invisible by (simp add: merged_def)
    ultimately show ?thesis by fastforce
  next
    case True
    have "table_abs old1 = Map.empty"
      using mk(2,4) True by (auto simp: moves_def restrict_map_def fun_eq_iff)
    then have e1: "hkeys old1 = fmempty" by (rule table_inv_empty [OF inv1(1)])
    have f1: "table_abs fresh1 = table_abs fresh ++ table_abs old"
      using mk(2,4) True by (auto simp: moves_def restrict_map_def fun_eq_iff map_add_def split: option.splits)
    have "\<forall>t \<in> set ((xs @ [old1]) @ olds @ [fresh1]). table_inv t" using inv1 Cons.prems(2) by simp
    from Cons.IH [OF Cons.prems(1) this, of cnt1]
    obtain olds' fresh' cnt' st where r: "merge_olds iter olds fresh1 cnt1 = Ret (olds', fresh', cnt', st)"
      "merged (xs @ [old1]) olds fresh1 olds' fresh' st" "length olds' = length olds" by blast
    have "merge_olds iter (old # olds) fresh cnt = Ret (old1 # olds', fresh', cnt', st)"
      using mk(1) True r(1) by simp
    moreover have "merged xs (old # olds) fresh (old1 # olds') fresh' st"
      using r(2) inv1 e1 f1 invisible Cons.prems(2) by (auto simp: merged_def)
    ultimately show ?thesis using r(3) by fastforce
  qed
qed

section \<open>One chunk\<close>

text \<open>What a chunk does to a storage instance.\<close>

definition chunk_result :: "storage \<Rightarrow> storage \<Rightarrow> bool \<Rightarrow> bool" where
  "chunk_result s s' done \<longleftrightarrow>
     storage_inv s' \<and> closed s' = closed s \<and> merging s' = merging s \<and>
     (disjoint_tables s \<longrightarrow> storage_abs s' = storage_abs s \<and> disjoint_tables s') \<and>
     (done \<longrightarrow> length (tables s') = 1) \<and>
     (done \<longrightarrow> length (tables s) \<noteq> 1 \<longrightarrow>
        storage_abs s' = table_abs (last (tables s)) ++ tables_abs (butlast (tables s)))"

lemma merged_chunk:
  assumes ne: "tables s \<noteq> []" and inv: "storage_inv s"
    and m: "merged [] (butlast (tables s)) (last (tables s)) olds fresh st"
    and s': "s' = s\<lparr>tables := olds @ [fresh]\<rparr>"
  shows "chunk_result s s' False"
proof -
  have ts: "butlast (tables s) @ [last (tables s)] = tables s" using ne by simp
  from m s' ts show ?thesis
    by (auto simp: merged_def chunk_result_def storage_inv_def storage_abs_def disjoint_tables_def
        sole_def)
qed

lemma chunk_result_grow:
  assumes "chunk_result s s1 False" and "newTable os sz = Inr nt"
  shows "chunk_result s (s1\<lparr>tables := tables s1 @ [nt]\<rparr>) False"
  using assms newTable_Inr(1-3) [OF assms(2)]
  by (auto simp: chunk_result_def storage_inv_def storage_abs_def disjoint_tables_def sole_def)

lemma empty_tables:
  assumes "\<forall>t \<in> set ts. hkeys t = fmempty"
  shows "tables_abs ts = Map.empty" and "tables_with ts h = 0"
  using assms
  by (induction ts) (auto simp: table_abs_def table_absent fun_eq_iff map_add_def)

lemma merged_exhausted:
  assumes ne: "tables s \<noteq> []" and m: "merged [] (butlast (tables s)) (last (tables s)) olds fresh Exhausted"
    and s': "s' = s\<lparr>tables := fresh # filter (\<lambda>t. hkeys t \<noteq> fmempty) olds\<rparr>"
  shows "chunk_result s s' True"
proof -
  have ts: "butlast (tables s) @ [last (tables s)] = tables s" using ne by simp
  have none: "filter (\<lambda>t. hkeys t \<noteq> fmempty) olds = []" using m by (simp add: merged_def filter_empty_conv)
  have e: "tables_abs olds = Map.empty" "\<forall>h. tables_with olds h = 0"
    using m by (simp_all add: merged_def empty_tables)
  from m s' ts none e show ?thesis
    by (auto simp: merged_def chunk_result_def storage_inv_def storage_abs_def disjoint_tables_def
        sole_def)
qed

lemma chunkedMergeTables_correct:
  assumes iter: "iter_ok iter" and inv: "storage_inv s"
  shows "\<exists>s' done. chunkedMergeTables os iter s = Ret (s', done) \<and> chunk_result s s' done"
proof (cases "length (tables s) = 1")
  case True
  then have "chunkedMergeTables os iter s = Ret (s, True)" "chunk_result s s True"
    using inv by (simp_all add: chunkedMergeTables_def chunk_result_def)
  then show ?thesis by blast
next
  case False
  have ne: "tables s \<noteq> []" using inv by (simp add: storage_inv_def)
  have "\<forall>t \<in> set ([] @ butlast (tables s) @ [last (tables s)]). table_inv t"
    using inv by (simp add: storage_inv_def)
  from merge_olds_merged [OF iter this, of 0]
  obtain olds fresh cnt st where r: "merge_olds iter (butlast (tables s)) (last (tables s)) 0 = Ret (olds, fresh, cnt, st)"
    "merged [] (butlast (tables s)) (last (tables s)) olds fresh st" by blast
  have base: "chunk_result s (s\<lparr>tables := olds @ [fresh]\<rparr>) False"
    by (rule merged_chunk [OF ne inv r(2) refl])
  show ?thesis
  proof (cases st)
    case Exhausted
    with False ne r merged_exhausted [OF ne r(2) [unfolded Exhausted] refl] show ?thesis
      by (auto simp: chunkedMergeTables_def)
  next
    case ChunkDone
    with False ne r base show ?thesis by (auto simp: chunkedMergeTables_def)
  next
    case FreshFull
    with False ne r base chunk_result_grow [OF base] show ?thesis
      by (cases "newTable os (2 * int (allocated fresh))") (auto simp: chunkedMergeTables_def)
  qed
qed

lemma mergeTables_correct:
  assumes iter: "iter_ok iter" and "storage_inv s" and "disjoint_tables s"
    and "mergeTables os iter cancelled fuel s = Some r"
  shows "\<exists>s'. r = Ret s' \<and> storage_inv s' \<and> storage_abs s' = storage_abs s \<and> \<not> merging s'"
  using assms(2-)
proof (induction fuel arbitrary: s cancelled)
  case (Suc fuel)
  from chunkedMergeTables_correct [OF iter Suc.prems(1), of os]
  obtain s1 d where c: "chunkedMergeTables os iter s = Ret (s1, d)" "chunk_result s s1 d" by blast
  have k: "storage_inv s1" "storage_abs s1 = storage_abs s" "disjoint_tables s1"
    using c(2) Suc.prems(2) by (simp_all add: chunk_result_def)
  show ?case
  proof (cases "d \<or> cancelled 0")
    case True
    with c(1) Suc.prems(3) have "r = Ret (s1\<lparr>merging := False\<rparr>)" by auto
    with k show ?thesis by (simp add: storage_inv_def storage_abs_def)
  next
    case False
    with c(1) Suc.prems(3) have "mergeTables os iter (\<lambda>n. cancelled (Suc n)) fuel s1 = Some r" by auto
    from Suc.IH [OF k(1,3) this] k(2) show ?thesis by simp
  qed
qed simp

section \<open>A concrete merge\<close>

lemma iter_sorted_single: "iter_sorted (fmupd h n fmempty) = [h]"
  by (simp add: iter_sorted_def sorted_list_of_fset.rep_eq)

lemma merge_single:
  assumes v: "valid_vdata v" "entry_size v < minimumSize" and inv: "table_inv fresh"
    and fit: "entry_size v + 1 + offset fresh < allocated fresh"
  shows "\<exists>s'. chunkedMergeTables os iter_sorted (storage_of [table_of h v, fresh]) = Ret (s', True)"
proof -
  note o = table_of_sel [OF v, of h]
  have "table_getRaw (table_of h v) h = Ret (Some (encode_entry v @ [0]))"
    using table_getRaw_abs [OF o(1), of h] o(2) by simp
  moreover have "table_putRaw fresh h (encode_entry v @ [0]) =
      Ret (table_append fresh h (encode_entry v @ [0]), None)"
    using fit table_putRaw_fits [OF table_invD(1) [OF inv]] by (simp add: add.commute)
  moreover have "table_delete (table_of h v) h = Ret (table_drop (table_of h v) h, False)"
    using table_delete_eq [OF table_invD(3) [OF o(1)], of h] o(3) by simp
  moreover have "hkeys (table_drop (table_of h v) h) = fmempty"
    using table_inv_empty [OF table_drop_inv [OF o(1)]] table_drop_refines(2) [OF table_invD(3) [OF o(1)], of h]
    by (simp add: o(2))
  ultimately show ?thesis by (simp add: chunkedMergeTables_def o(3) iter_sorted_single)
qed

section \<open>Properties\<close>

text \<open>One critical section of the merger never panics and keeps the instance well formed; when
  no key is held by two tables, it changes no lookup, and still no key is held by two tables.\<close>

theorem merge_chunk_safe:
  assumes "iter_ok iter" and "storage_inv s"
  shows "\<exists>s' d. chunkedMergeTables os iter s = Ret (s', d) \<and> storage_inv s' \<and>
    (disjoint_tables s \<longrightarrow> disjoint_tables s' \<and> (\<forall>h. storage_Get s' h = storage_Get s h))"
proof -
  from chunkedMergeTables_correct [OF assms, of os]
  obtain s' d where "chunkedMergeTables os iter s = Ret (s', d)" "chunk_result s s' d" by blast
  then show ?thesis using assms(2) by (auto simp: chunk_result_def storage_Get_eq)
qed

theorem merge_chunk_safe_witness:
  "\<exists>s' d. chunkedMergeTables os_ok iter_sorted (storage_of [table_of 7 entry_a, table_of 8 entry_b]) =
     Ret (s', d) \<and> storage_Get s' 7 = Ret (Inr entry_a) \<and> storage_Get s' 8 = Ret (Inr entry_b)"
proof -
  let ?s = "storage_of [table_of 7 entry_a, table_of 8 entry_b]"
  have inv: "storage_inv ?s" by (simp add: table_of_sel)
  moreover have "disjoint_tables ?s" by (simp add: disjoint_tables_def table_of_sel)
  moreover have "storage_Get ?s 7 = Ret (Inr entry_a)" "storage_Get ?s 8 = Ret (Inr entry_b)"
    using storage_Get_eq [OF inv] by (simp_all add: table_of_sel)
  ultimately show ?thesis
    using merge_chunk_safe [OF iter_sorted_ok inv, of os_ok] by auto
qed

text \<open>A completed merge of several tables leaves one table in which, of the versions of a key,
  an older table's wins over the newest table's: a key that was overwritten since the last merge
  has its old value again.\<close>

theorem merge_prefers_old:
  assumes "iter_ok iter" and "storage_inv s" and "length (tables s) \<noteq> 1"
    and "chunkedMergeTables os iter s = Ret (s', True)"
  shows "length (tables s') = 1 \<and>
    storage_abs s' = table_abs (last (tables s)) ++ tables_abs (butlast (tables s))"
  using chunkedMergeTables_correct [OF assms(1,2), of os] assms(3,4) by (auto simp: chunk_result_def)

theorem merge_prefers_old_witness:
  "storage_Get (storage_of [table_of 7 entry_a, table_of 7 entry_b]) 7 = Ret (Inr entry_b) \<and>
   (\<exists>s'. chunkedMergeTables os_ok iter_sorted (storage_of [table_of 7 entry_a, table_of 7 entry_b]) =
      Ret (s', True) \<and> storage_abs s' 7 = Some entry_a)"
proof -
  let ?s = "storage_of [table_of 7 entry_a, table_of 7 entry_b]"
  have inv: "storage_inv ?s" by (simp add: table_of_sel)
  have "entry_size entry_a + 1 + offset (table_of 7 entry_b) < allocated (table_of 7 entry_b)"
    by (simp add: table_of_sel) (simp add: entry_size_def entry_a_def entry_b_def minimumSize_def)
  then obtain s' where s': "chunkedMergeTables os_ok iter_sorted ?s = Ret (s', True)"
    using merge_single [of entry_a "table_of 7 entry_b" os_ok 7] by (auto simp: table_of_sel)
  moreover have "storage_abs s' 7 = Some entry_a"
    using merge_prefers_old [OF iter_sorted_ok inv _ s'] by (simp add: table_of_sel)
  moreover have "storage_Get ?s 7 = Ret (Inr entry_b)"
    using storage_Get_eq [OF inv] by (simp add: table_of_sel)
  ultimately show ?thesis by blast
qed

end
