(* ===== verification/Merge_Progress.thy ===== *)
theory Merge_Progress
  imports Merge
begin

text \<open>
  The background merger ends: \<open>mergeTables\<close> (\<open>internal/storage/merge.go\<close>) reaches a chunk that
  reports completion. A chunk that fills the newest table appends one of twice its size, and the
  bytes still to be copied never grow, so a table is reached that takes everything; from then on
  every chunk that is cut short has moved a key.
\<close>

section \<open>Bytes and keys still to be moved\<close>

text \<open>A moved entry takes one byte more than its size: \<open>getRaw\<close> copies a trailing zero byte.\<close>

definition map_weight :: "(hkey \<rightharpoonup> vdata) \<Rightarrow> nat" where
  "map_weight m = (\<Sum>h \<in> dom m. entry_size (the (m h)) + 1)"

definition weight :: "table list \<Rightarrow> nat" where
  "weight ts = sum_list (map (\<lambda>t. map_weight (table_abs t)) ts)"

definition held :: "table list \<Rightarrow> nat" where
  "held ts = sum_list (map (\<lambda>t. card (dom (table_abs t))) ts)"

lemma weight_simps [simp]:
  "weight [] = 0" "weight (t # ts) = map_weight (table_abs t) + weight ts"
  "weight (ts @ us) = weight ts + weight us"
  "held [] = 0" "held (t # ts) = card (dom (table_abs t)) + held ts"
  "held (ts @ us) = held ts + held us"
  by (simp_all add: weight_def held_def)

lemma finite_dom_table_abs: "table_inv t \<Longrightarrow> finite (dom (table_abs t))"
  by (simp add: dom_table_abs)

lemma map_weight_remove:
  assumes "finite (dom m)" and "m h = Some v"
  shows "map_weight m = map_weight (m(h := None)) + (entry_size v + 1)"
    and "card (dom m) = card (dom (m(h := None))) + 1"
proof -
  have h: "h \<in> dom m" using assms(2) by blast
  have "(\<Sum>k \<in> dom m - {h}. entry_size (the ((m(h := None)) k)) + 1) =
      (\<Sum>k \<in> dom m - {h}. entry_size (the (m k)) + 1)"
    by (rule sum.cong) auto
  then show "map_weight m = map_weight (m(h := None)) + (entry_size v + 1)"
    using sum.remove [OF assms(1) h, of "\<lambda>k. entry_size (the (m k)) + 1"] assms(2)
    by (simp add: map_weight_def)
  show "card (dom m) = card (dom (m(h := None))) + 1"
    using card.remove [OF assms(1) h] by simp
qed

lemma map_weight_update:
  assumes "finite (dom m)"
  shows "map_weight (m(h \<mapsto> v)) \<le> map_weight m + (entry_size v + 1)"
proof -
  have "map_weight (m(h \<mapsto> v)) = map_weight (m(h := None)) + (entry_size v + 1)"
    using map_weight_remove(1) [of "m(h \<mapsto> v)" h v] assms by simp
  moreover have "map_weight (m(h := None)) \<le> map_weight m"
    using map_weight_remove(1) [OF assms, of h] by (cases "m h") (auto simp: fun_upd_idem)
  ultimately show ?thesis by simp
qed

section \<open>What the copying loops do to these quantities\<close>

definition progress ::
  "table list \<Rightarrow> table \<Rightarrow> table list \<Rightarrow> table \<Rightarrow> merge_status \<Rightarrow> bool" where
  "progress olds fresh olds' fresh' st \<longleftrightarrow>
     weight olds' + offset fresh' = weight olds + offset fresh \<and>
     weight olds' + map_weight (table_abs fresh') \<le> weight olds + map_weight (table_abs fresh) \<and>
     held olds' + (if st = ChunkDone then 1 else 0) \<le> held olds \<and>
     (st = FreshFull \<longrightarrow> allocated fresh \<le> weight olds' + offset fresh')"

lemma progress_one:
  assumes old: "table_inv old" and fresh: "table_inv fresh" and v: "table_abs old h = Some v"
    and fit: "length (encode_entry v @ [0]) + offset fresh < allocated fresh"
  shows "progress [old] fresh [table_drop old h] (table_append fresh h (encode_entry v @ [0])) ChunkDone"
proof -
  have val: "valid_vdata v" by (rule table_abs_Some_valid [OF table_invD(3) [OF old] v])
  have d: "table_abs (table_drop old h) = (table_abs old)(h := None)"
    by (rule table_drop_refines(2) [OF table_invD(3) [OF old]])
  have a: "table_abs (table_append fresh h (encode_entry v @ [0])) = (table_abs fresh)(h \<mapsto> v)"
    by (rule table_append_refines(2) [OF table_invD(3,1) [OF fresh] val refl fit])
  have "offset (table_append fresh h (encode_entry v @ [0])) = offset fresh + (entry_size v + 1)"
    by (simp add: table_append_def)
  with map_weight_remove [OF finite_dom_table_abs [OF old] v]
    map_weight_update [OF finite_dom_table_abs [OF fresh], of h v]
  show ?thesis by (simp add: progress_def d a)
qed

lemma progress_trans:
  assumes "progress olds fresh olds1 fresh1 ChunkDone" and "progress olds1 fresh1 olds2 fresh2 st"
    and "allocated fresh1 = allocated fresh"
  shows "progress olds fresh olds2 fresh2 st"
  using assms by (auto simp: progress_def)

lemma merge_keys_progress:
  assumes "table_inv old" and "table_inv fresh" and "set hs \<subseteq> dom (table_abs old)" and "distinct hs"
    and "merge_keys hs old fresh cnt = Ret (old', fresh', cnt', st)"
  shows "progress [old] fresh [old'] fresh' st"
  using assms
proof (induction hs arbitrary: old fresh cnt)
  case Nil
  then show ?case by (simp add: progress_def)
next
  case (Cons h hs)
  from Cons.prems(3) obtain v where v: "table_abs old h = Some v" by auto
  note unfold = merge_keys_Cons [OF Cons.prems(1,2) v, of hs cnt]
  let ?raw = "encode_entry v @ [0]"
  show ?case
  proof (cases "length ?raw + offset fresh \<ge> allocated fresh")
    case True
    then have "old' = old \<and> fresh' = fresh \<and> st = FreshFull" using Cons.prems(5) unfolding unfold by simp
    with True map_weight_remove(1) [OF finite_dom_table_abs [OF Cons.prems(1)] v]
    show ?thesis by (simp add: progress_def)
  next
    case False
    let ?old = "table_drop old h" and ?fresh = "table_append fresh h ?raw"
    have fit: "length ?raw + offset fresh < allocated fresh" using False by simp
    note p = progress_one [OF Cons.prems(1,2) v fit] and m = moves_one [OF Cons.prems(1,2) v fit]
    show ?thesis
    proof (cases "cnt + 1 > 1000")
      case True
      with Cons.prems(5) False have "old' = ?old \<and> fresh' = ?fresh \<and> st = ChunkDone"
        unfolding unfold by (simp add: Let_def)
      with p show ?thesis by simp
    next
      case more: False
      have sub: "set hs \<subseteq> dom (table_abs ?old)"
        using m Cons.prems(3,4) by (auto simp: moves_def restrict_map_def)
      have "merge_keys hs ?old ?fresh (cnt + 1) = Ret (old', fresh', cnt', st)"
        using Cons.prems(5) False more unfolding unfold by (simp add: Let_def)
      then have "progress [?old] ?fresh [old'] fresh' st"
        using m Cons.prems(4) sub by (intro Cons.IH) (simp_all add: moves_def)
      from progress_trans [OF p this] m show ?thesis by (simp add: moves_def)
    qed
  qed
qed

lemma progress_append:
  assumes "progress [old] fresh [old1] fresh1 Exhausted" and "progress olds fresh1 olds2 fresh2 st"
    and "allocated fresh1 = allocated fresh"
  shows "progress (old # olds) fresh (old1 # olds2) fresh2 st"
  using assms by (auto simp: progress_def)

lemma progress_stopped:
  assumes "progress [old] fresh [old1] fresh1 st"
  shows "progress (old # olds) fresh (old1 # olds) fresh1 st"
  using assms by (auto simp: progress_def)

lemma merge_olds_progress:
  assumes "iter_ok iter" and "\<forall>t \<in> set olds. table_inv t" and "table_inv fresh"
    and "merge_olds iter olds fresh cnt = Ret (olds', fresh', cnt', st)"
  shows "progress olds fresh olds' fresh' st"
  using assms
proof (induction olds arbitrary: fresh cnt olds')
  case Nil
  then show ?case by (simp add: progress_def)
next
  case (Cons old olds)
  have inv: "table_inv old" using Cons.prems(2) by simp
  have keys: "set (iter (hkeys old)) \<subseteq> dom (table_abs old)" "distinct (iter (hkeys old))"
    using iter_okD [OF Cons.prems(1)] dom_table_abs [OF inv] by simp_all
  obtain old1 fresh1 cnt1 st1 D where mk: "merge_keys (iter (hkeys old)) old fresh cnt = Ret (old1, fresh1, cnt1, st1)"
    and m: "moves D old fresh old1 fresh1"
    using merge_keys_moves [OF inv Cons.prems(3) keys, of cnt] by blast
  note p = merge_keys_progress [OF inv Cons.prems(3) keys mk]
  show ?case
  proof (cases "st1 = Exhausted")
    case True
    with mk Cons.prems(4) obtain olds1 where o: "olds' = old1 # olds1"
      "merge_olds iter olds fresh1 cnt1 = Ret (olds1, fresh', cnt', st)"
      by (cases "merge_olds iter olds fresh1 cnt1") auto
    have "progress olds fresh1 olds1 fresh' st"
      using Cons.prems(2) m by (intro Cons.IH [OF Cons.prems(1) _ _ o(2)]) (simp_all add: moves_def)
    from progress_append [OF p [unfolded True] this] m o(1) show ?thesis by (simp add: moves_def)
  next
    case False
    with mk Cons.prems(4) have "olds' = old1 # olds \<and> fresh' = fresh1 \<and> st = st1" by simp
    with progress_stopped [OF p] show ?thesis by simp
  qed
qed

section \<open>Termination\<close>

definition fits_all :: "storage \<Rightarrow> bool" where
  "fits_all s \<longleftrightarrow>
     weight (butlast (tables s)) + offset (last (tables s)) < allocated (last (tables s))"

text \<open>
  The measure of a storage instance, for a bound \<open>b\<close> on the bytes it holds: how far the newest
  table is from taking everything, then the keys left in the older tables.
\<close>

definition merge_measure :: "nat \<Rightarrow> storage \<Rightarrow> nat \<times> nat" where
  "merge_measure b s =
     (if fits_all s then 0 else Suc (b - allocated (last (tables s))), held (butlast (tables s)))"

lemma weight_split:
  assumes "tables s \<noteq> []"
  shows "weight (tables s) = weight (butlast (tables s)) + map_weight (table_abs (last (tables s)))"
  using weight_simps(3) [of "butlast (tables s)" "[last (tables s)]"] assms by simp

lemma merge_measure_cut:
  assumes s: "tables s \<noteq> []" and p: "progress (butlast (tables s)) (last (tables s)) olds fresh ChunkDone"
    and al: "allocated fresh = allocated (last (tables s))"
  shows "weight (olds @ [fresh]) \<le> weight (tables s) \<and>
    (merge_measure b (s\<lparr>tables := olds @ [fresh]\<rparr>), merge_measure b s) \<in> less_than <*lex*> less_than"
  using p al by (auto simp: progress_def merge_measure_def fits_all_def weight_split [OF s])

lemma merge_measure_grow:
  assumes s: "tables s \<noteq> []" and p: "progress (butlast (tables s)) (last (tables s)) olds fresh FreshFull"
    and al: "allocated fresh = allocated (last (tables s))" and inv: "table_inv fresh"
    and nt: "newTable os (2 * int (allocated fresh)) = Inr nt" and b: "weight (tables s) \<le> b"
  shows "weight (olds @ [fresh, nt]) \<le> weight (tables s) \<and>
    (merge_measure b (s\<lparr>tables := olds @ [fresh, nt]\<rparr>), merge_measure b s) \<in> less_than <*lex*> less_than"
proof -
  note n = newTable_Inr [OF nt]
  have w: "weight olds + map_weight (table_abs fresh) \<le> weight (tables s)"
    using p by (simp add: progress_def weight_split [OF s])
  have nf: "\<not> fits_all s" using p al by (auto simp: progress_def fits_all_def)
  have e: "map_weight (table_abs nt) = 0" using n(2) by (simp add: map_weight_def)
  have "0 < allocated fresh" using table_invD(2) [OF inv] by simp
  then have "allocated fresh < allocated nt" using n(7) by (cases "2 * int (allocated fresh) < int minimumSize") auto
  moreover have "butlast (olds @ [fresh, nt]) = olds @ [fresh]" by (simp add: butlast_append)
  ultimately show ?thesis
    using w nf e b al n(4) by (auto simp: merge_measure_def fits_all_def)
qed

lemma chunk_progress:
  assumes iter: "iter_ok iter" and inv: "storage_inv s" and mm: "\<forall>n. mmap_ok os n"
    and b: "weight (tables s) \<le> b" and c: "chunkedMergeTables os iter s = Ret (s', False)"
  shows "weight (tables s') \<le> weight (tables s) \<and>
    (merge_measure b s', merge_measure b s) \<in> less_than <*lex*> less_than"
proof -
  have ne: "tables s \<noteq> []" and one: "length (tables s) \<noteq> 1"
    using inv c by (auto simp: storage_inv_def chunkedMergeTables_def)
  have t: "\<forall>t \<in> set ([] @ butlast (tables s) @ [last (tables s)]). table_inv t"
    using inv by (simp add: storage_inv_def)
  from merge_olds_merged [OF iter this, of 0]
  obtain olds fresh cnt st where r: "merge_olds iter (butlast (tables s)) (last (tables s)) 0 = Ret (olds, fresh, cnt, st)"
    "merged [] (butlast (tables s)) (last (tables s)) olds fresh st" by blast
  have m: "table_inv fresh" "allocated fresh = allocated (last (tables s))"
    using r(2) by (simp_all add: merged_def)
  have p: "progress (butlast (tables s)) (last (tables s)) olds fresh st"
    using t by (intro merge_olds_progress [OF iter _ _ r(1)]) simp_all
  from newTable_ok [OF mm] obtain nt where nt: "newTable os (2 * int (allocated fresh)) = Inr nt" by metis
  show ?thesis
  proof (cases st)
    case Exhausted
    with c r(1) one ne show ?thesis by (simp add: chunkedMergeTables_def)
  next
    case FreshFull
    with c r(1) one ne nt have "s' = s\<lparr>tables := olds @ [fresh, nt]\<rparr>"
      by (simp add: chunkedMergeTables_def)
    with merge_measure_grow [OF ne p [unfolded FreshFull] m(2,1) nt b] show ?thesis by simp
  next
    case ChunkDone
    with c r(1) one ne have "s' = s\<lparr>tables := olds @ [fresh]\<rparr>" by (simp add: chunkedMergeTables_def)
    with merge_measure_cut [OF ne p [unfolded ChunkDone] m(2), of b] show ?thesis by simp
  qed
qed

lemma mergeTables_ends:
  assumes iter: "iter_ok iter" and mm: "\<forall>n. mmap_ok os n"
  shows "storage_inv s \<Longrightarrow> weight (tables s) \<le> b \<Longrightarrow>
    \<exists>fuel s'. mergeTables os iter (\<lambda>_. False) fuel s = Some (Ret s') \<and> length (tables s') = 1 \<and>
      storage_inv s' \<and> \<not> merging s'"
proof (induction s rule: wf_induct_rule [OF wf_inv_image [of "less_than <*lex*> less_than" "merge_measure b"]])
  case 1
  show ?case by (simp add: wf_lex_prod)
next
  case (2 s)
  from chunkedMergeTables_correct [OF iter 2(2), of os]
  obtain s1 d where c: "chunkedMergeTables os iter s = Ret (s1, d)" "chunk_result s s1 d" by blast
  show ?case
  proof (cases d)
    case True
    then have "mergeTables os iter (\<lambda>_. False) 1 s = Some (Ret (s1\<lparr>merging := False\<rparr>))"
      using c(1) by simp
    with c(2) True show ?thesis
      by (intro exI [of _ 1] exI [of _ "s1\<lparr>merging := False\<rparr>"])
        (auto simp: chunk_result_def storage_inv_def)
  next
    case False
    from chunk_progress [OF iter 2(2) mm 2(3), of s1] c(1) False
    have p: "weight (tables s1) \<le> b" "(merge_measure b s1, merge_measure b s) \<in> less_than <*lex*> less_than"
      using 2(3) by auto
    have "storage_inv s1" using c(2) by (simp add: chunk_result_def)
    from 2(1) [OF _ this p(1)] p(2) obtain fuel s' where f: "mergeTables os iter (\<lambda>_. False) fuel s1 = Some (Ret s')"
      "length (tables s') = 1" "storage_inv s'" "\<not> merging s'" unfolding in_inv_image by blast
    have "mergeTables os iter (\<lambda>_. False) (Suc fuel) s = Some (Ret s')"
      using c(1) False f(1) by simp
    with f show ?thesis by blast
  qed
qed

section \<open>Properties\<close>

text \<open>C19. The merger ends: when memory can be mapped and nobody writes meanwhile, after finitely
  many chunks \<open>mergeTables\<close> returns with a single well-formed table and the \<open>merging\<close> flag
  reset; if no key was held by two tables, every lookup is as before.\<close>

theorem mergeTables_terminates:
  assumes "iter_ok iter" and "\<forall>n. mmap_ok os n" and "storage_inv s"
  shows "\<exists>fuel s'. mergeTables os iter (\<lambda>_. False) fuel s = Some (Ret s') \<and> length (tables s') = 1 \<and>
    storage_inv s' \<and> \<not> merging s' \<and> (disjoint_tables s \<longrightarrow> storage_abs s' = storage_abs s)"
proof -
  from mergeTables_ends [OF assms order.refl] obtain fuel s' where
    f: "mergeTables os iter (\<lambda>_. False) fuel s = Some (Ret s')" "length (tables s') = 1"
      "storage_inv s'" "\<not> merging s'" by blast
  moreover from mergeTables_correct [OF assms(1,3) _ f(1)]
  have "disjoint_tables s \<longrightarrow> storage_abs s' = storage_abs s" by auto
  ultimately show ?thesis by blast
qed

theorem mergeTables_terminates_witness:
  "\<exists>fuel s'. mergeTables os_ok iter_sorted (\<lambda>_. False) fuel
     (storage_of [table_of 7 entry_a, table_of 8 entry_b]) = Some (Ret s') \<and>
   length (tables s') = 1 \<and> storage_abs s' 7 = Some entry_a"
proof -
  let ?s = "storage_of [table_of 7 entry_a, table_of 8 entry_b]"
  have inv: "storage_inv ?s" by (simp add: table_of_sel)
  have dis: "disjoint_tables ?s" by (simp add: disjoint_tables_def table_of_sel)
  have abs: "storage_abs ?s 7 = Some entry_a" by (simp add: table_of_sel)
  have "\<forall>n. mmap_ok os_ok n" by simp
  from mergeTables_terminates [OF iter_sorted_ok this inv] dis abs show ?thesis by metis
qed

end
