(* ===== verification/Storage_Runs.thy ===== *)
theory Storage_Runs
  imports Merge_Progress
begin

text \<open>
  Interleavings of the writers of a storage instance with its background merger. Every
  operation of \<open>internal/storage/storage.go\<close> and every chunk of \<open>internal/storage/merge.go\<close> runs
  under the instance's mutex, so a run is a sequence of whole operations.
\<close>

inductive storage_run ::
  "os \<Rightarrow> ((hkey, nat) fmap \<Rightarrow> hkey list) \<Rightarrow> storage \<Rightarrow> storage \<Rightarrow> bool" for os iter where
  run_nil: "storage_run os iter s s"
| run_put: "storage_run os iter s s1 \<Longrightarrow> length (vvalue v) < 2 ^ 32 \<Longrightarrow>
     storage_Put os s1 h v = Some (Ret (s2, e)) \<Longrightarrow> storage_run os iter s s2"
| run_putRaw: "storage_run os iter s s1 \<Longrightarrow> valid_vdata v \<Longrightarrow>
     storage_PutRaw os s1 h (encode_entry v @ rest) = Some (Ret (s2, e)) \<Longrightarrow> storage_run os iter s s2"
| run_delete: "storage_run os iter s s1 \<Longrightarrow> storage_Delete os s1 h = Ret (s2, e) \<Longrightarrow>
     storage_run os iter s s2"
| run_chunk: "storage_run os iter s s1 \<Longrightarrow> merging s1 \<Longrightarrow>
     chunkedMergeTables os iter s1 = Ret (s2, d) \<Longrightarrow>
     storage_run os iter s (s2\<lparr>merging := \<not> d\<rparr>)"

lemma storage_run_inv:
  assumes "storage_run os iter s s'" and "iter_ok iter" and "storage_inv s"
  shows "storage_inv s'"
  using assms
proof (induction rule: storage_run.induct)
  case (run_put s s1 v h s2 e)
  then show ?case using storage_Put_correct [of os s1 h v "Ret (s2, e)"] by (simp add: put_result_def)
next
  case (run_putRaw s s1 v h rest s2 e)
  then show ?case
    using storage_PutRaw_correct [of os s1 h v rest "Ret (s2, e)"] by (simp add: put_result_def)
next
  case (run_delete s s1 h s2 e)
  then show ?case using storage_Delete_correct [of s1 os h s2 e] by simp
next
  case (run_chunk s s1 s2 d)
  then show ?case
    using chunkedMergeTables_correct [of iter s1 os] by (auto simp: chunk_result_def storage_inv_def)
qed simp

section \<open>Properties\<close>



text \<open>\<open>Close\<close>: when a table cannot be unmapped, its error is returned and the tables stay
  listed; otherwise the instance has no table left, a second \<open>Close\<close> does nothing, and the
  operations panic instead of touching unmapped memory.\<close>

theorem storage_Close_outcome:
  assumes "\<not> closed s"
  shows "if \<forall>t \<in> set (tables s). munmap_ok os (mlen (memory t))
    then \<exists>s'. storage_Close os s = (s', None) \<and> storage_Close os s' = (s', None) \<and>
      storage_Get s' h = Panic \<and> storage_GetRaw s' h = Panic \<and> storage_Check s' h = Panic \<and>
      storage_Delete os s' h = Panic \<and> storage_Put os s' h v = Some Panic \<and>
      storage_PutRaw os s' h raw = Some Panic \<and> storage_Range iter s' f acc = Panic \<and> storage_Len s' = 0
    else storage_Close os s = (s\<lparr>closed := True, merging := False\<rparr>, Some ErrMunmap)"
proof -
  have "close_tables os ts = (if \<forall>t \<in> set ts. munmap_ok os (mlen (memory t)) then None else Some ErrMunmap)" for ts
    by (induction ts) (simp_all add: table_close_def)
  with assms show ?thesis
    by (simp add: storage_Close_def storage_Get_def storage_GetRaw_def storage_Check_def
        storage_Delete_def storage_Put_def storage_PutRaw_def storage_Range_def storage_Len_def Let_def)
qed

theorem storage_Close_outcome_witness:
  "\<exists>s'. storage_Close os_ok (storage_of [fresh_table]) = (s', None) \<and> storage_Get s' 7 = Panic"
proof -
  have "\<not> closed (storage_of [fresh_table])" by simp
  from storage_Close_outcome [OF this, of os_ok 7 entry_a "[]" iter_sorted "\<lambda>(n :: nat) _ _. (n, True)" 0]
  show ?thesis by (auto simp: os_ok_def)
qed

end
