(* ===== verification/Close_Protocol.thy ===== *)
theory Close_Protocol
  imports Main
begin

text \<open>
  The synchronisation between \<open>Storage.Close\<close> (\<open>internal/storage/storage.go\<close>) and the merger
  goroutine \<open>mergeTables\<close> (\<open>internal/storage/merge.go\<close>): the instance's mutex, the context
  that \<open>Close\<close> cancels and the wait group it waits on. Data is abstracted away: only program
  positions, the mutex and the cancellation are kept.
\<close>

section \<open>The two goroutines\<close>

datatype actor = Closer | Merger

text \<open>
  \<open>Close\<close>: about to lock, holding the lock before the \<open>select\<close> on the context, waiting for the
  group with the lock held, returned (the deferred unlock has run).
\<close>

datatype closer_pc = C_Lock | C_Check | C_Wait | C_Done

text \<open>
  \<open>mergeTables\<close>: about to lock in \<open>chunkedMergeTables\<close>, inside it, in the \<open>select\<close> between the
  timer and the context, returned (the deferred \<open>wg.Done\<close> has run).
\<close>

datatype merger_pc = M_Lock | M_Chunk | M_Select | M_Done

record cm_state =
  mutex :: "actor option"
  cancelled :: bool
  closer :: closer_pc
  merger :: merger_pc

definition cm_init :: cm_state where
  "cm_init = \<lparr>mutex = None, cancelled = False, closer = C_Lock, merger = M_Lock\<rparr>"

inductive cm_step :: "cm_state \<Rightarrow> cm_state \<Rightarrow> bool" where
  close_lock: "closer s = C_Lock \<Longrightarrow> mutex s = None \<Longrightarrow>
     cm_step s (s\<lparr>mutex := Some Closer, closer := C_Check\<rparr>)"
| close_again: "closer s = C_Check \<Longrightarrow> cancelled s \<Longrightarrow>
     cm_step s (s\<lparr>mutex := None, closer := C_Done\<rparr>)"
| close_cancel: "closer s = C_Check \<Longrightarrow> \<not> cancelled s \<Longrightarrow>
     cm_step s (s\<lparr>cancelled := True, closer := C_Wait\<rparr>)"
| close_finish: "closer s = C_Wait \<Longrightarrow> merger s = M_Done \<Longrightarrow>
     cm_step s (s\<lparr>mutex := None, closer := C_Done\<rparr>)"
| merge_lock: "merger s = M_Lock \<Longrightarrow> mutex s = None \<Longrightarrow>
     cm_step s (s\<lparr>mutex := Some Merger, merger := M_Chunk\<rparr>)"
| merge_done: "merger s = M_Chunk \<Longrightarrow> cm_step s (s\<lparr>mutex := None, merger := M_Done\<rparr>)"
| merge_more: "merger s = M_Chunk \<Longrightarrow> cm_step s (s\<lparr>mutex := None, merger := M_Select\<rparr>)"
| merge_tick: "merger s = M_Select \<Longrightarrow> cm_step s (s\<lparr>merger := M_Lock\<rparr>)"
| merge_quit: "merger s = M_Select \<Longrightarrow> cancelled s \<Longrightarrow> cm_step s (s\<lparr>merger := M_Done\<rparr>)"

inductive cm_reach :: "cm_state \<Rightarrow> bool" where
  cm_start: "cm_reach cm_init"
| cm_next: "cm_reach s \<Longrightarrow> cm_step s t \<Longrightarrow> cm_reach t"

section \<open>Invariant\<close>

definition cm_inv :: "cm_state \<Rightarrow> bool" where
  "cm_inv s \<longleftrightarrow>
     (mutex s = Some Closer \<longleftrightarrow> closer s = C_Check \<or> closer s = C_Wait) \<and>
     (mutex s = Some Merger \<longleftrightarrow> merger s = M_Chunk) \<and>
     (cancelled s \<longleftrightarrow> closer s = C_Wait \<or> closer s = C_Done) \<and>
     (closer s = C_Done \<longrightarrow> merger s = M_Done)"

lemma cm_step_inv:
  assumes "cm_step s t" and "cm_inv s"
  shows "cm_inv t"
  using assms by (cases rule: cm_step.cases) (auto simp: cm_inv_def)

lemma cm_reach_inv: "cm_reach s \<Longrightarrow> cm_inv s"
proof (induction rule: cm_reach.induct)
  case cm_start
  show ?case by (simp add: cm_inv_def cm_init_def)
next
  case (cm_next s t)
  then show ?case by (blast intro: cm_step_inv)
qed

definition cm_stuck :: "cm_state \<Rightarrow> bool" where
  "cm_stuck s \<longleftrightarrow> (\<forall>t. \<not> cm_step s t)"

lemma cm_step_cases_enabled:
  "(\<exists>t. cm_step s t) \<longleftrightarrow>
     (closer s = C_Lock \<and> mutex s = None) \<or> closer s = C_Check \<or>
     (closer s = C_Wait \<and> merger s = M_Done) \<or> (merger s = M_Lock \<and> mutex s = None) \<or>
     merger s = M_Chunk \<or> merger s = M_Select"
  (is "?l \<longleftrightarrow> ?r")
proof
  assume ?l
  then show ?r by (auto elim!: cm_step.cases)
next
  assume ?r
  then show ?l by (cases "cancelled s") (blast intro: cm_step.intros)+
qed

lemma actor_cases: "m = None \<or> m = Some Closer \<or> m = Some Merger"
  by (metis actor.exhaust option.exhaust)

lemma cm_stuck_iff:
  assumes "cm_inv s"
  shows "cm_stuck s \<longleftrightarrow> closer s = C_Done \<or> closer s = C_Wait \<and> merger s = M_Lock"
proof -
  have "cm_stuck s \<longleftrightarrow> \<not> (\<exists>t. cm_step s t)" by (simp add: cm_stuck_def)
  also have "\<dots> \<longleftrightarrow> closer s = C_Done \<or> closer s = C_Wait \<and> merger s = M_Lock"
    unfolding cm_step_cases_enabled
    using assms actor_cases [of "mutex s"]
    by (cases "closer s"; cases "merger s") (auto simp: cm_inv_def)
  finally show ?thesis .
qed

definition cm_deadlock :: cm_state where
  "cm_deadlock = \<lparr>mutex = Some Closer, cancelled = True, closer = C_Wait, merger = M_Lock\<rparr>"

lemma cm_reach_deadlock: "cm_reach cm_deadlock"
proof -
  let ?s1 = "cm_init\<lparr>mutex := Some Closer, closer := C_Check\<rparr>"
  have "cm_reach ?s1"
    by (rule cm_next [OF cm_start], rule close_lock) (simp_all add: cm_init_def)
  then have "cm_reach (?s1\<lparr>cancelled := True, closer := C_Wait\<rparr>)"
    by (rule cm_next, intro close_cancel) (simp_all add: cm_init_def)
  then show ?thesis by (simp add: cm_init_def cm_deadlock_def)
qed

section \<open>Properties\<close>

inductive_cases cm_step_waiting: "cm_step s t"

text \<open>C24. \<open>Close\<close> and the merger never hold the mutex together, \<open>Close\<close> returns only once the
  merger has ended, and the pair stops for good in exactly two ways: \<open>Close\<close> has returned, or
  \<open>Close\<close> waits for the merger with the mutex held while the merger waits for the mutex.\<close>

theorem close_stops_iff:
  assumes "cm_reach s"
  shows "\<not> (closer s \<in> {C_Check, C_Wait} \<and> merger s = M_Chunk) \<and>
    (closer s = C_Done \<longrightarrow> merger s = M_Done \<and> mutex s = None) \<and>
    (cm_stuck s \<longleftrightarrow> closer s = C_Done \<or> s = cm_deadlock)"
proof -
  have inv: "cm_inv s" by (rule cm_reach_inv [OF assms])
  then have "closer s = C_Wait \<and> merger s = M_Lock \<longleftrightarrow> s = cm_deadlock"
    by (cases s) (auto simp: cm_inv_def cm_deadlock_def)
  with inv cm_stuck_iff [OF inv] actor_cases [of "mutex s"] show ?thesis by (auto simp: cm_inv_def)
qed

theorem close_stops_iff_witness: "cm_reach cm_deadlock \<and> cm_stuck cm_deadlock"
  using close_stops_iff [OF cm_reach_deadlock] cm_reach_deadlock by simp


end
