(* ===== verification/Snapshot.thy ===== *)
theory Snapshot
  imports Storage_Runs "HOL-Library.Countable"
begin

text \<open>
  \<open>internal/snapshot\<close>: the operation log of a DMap, its synchronisation to BadgerDB, the
  register of DMaps on disk, and the loader that restores them at start-up.

  BadgerDB is a map from byte strings to byte strings; \<open>badger_env\<close> has the answers that are not
  up to this code: the errors its calls may return, and the \<open>msgpack\<close> codecs of the two
  values stored as sets. Goroutines and timers are left out: a sync round is one step.
\<close>

section \<open>Data\<close>

type_synonym badger = "bytes \<rightharpoonup> bytes"
type_synonym part_id = "64 word"
type_synonym on_disk_dmaps = "(part_id \<times> bytes) fset"

record badger_env =
  get_err :: "bytes \<Rightarrow> gerr option"
  set_err :: "bytes \<Rightarrow> gerr option"
  del_err :: "bytes \<Rightarrow> gerr option"
  flush_err :: "gerr option"
  flush_done :: nat
  marshal_hkeys :: "hkey fset \<Rightarrow> gerr + bytes"
  unmarshal_hkeys :: "bytes \<Rightarrow> gerr + hkey fset"
  marshal_dmaps :: "on_disk_dmaps \<Rightarrow> gerr + bytes"
  unmarshal_dmaps :: "bytes \<Rightarrow> gerr + on_disk_dmaps"

definition opPut :: byte where "opPut = 0"
definition opDel :: byte where "opDel = 1"

definition PrimaryDMapKey :: bytes where "PrimaryDMapKey = string_bytes ''primary-dmap-key''"
definition BackupDMapKey :: bytes where "BackupDMapKey = string_bytes ''backup-dmap-key''"

text \<open>\<open>OpLog.m\<close>: the last logged operation of each key.\<close>

type_synonym oplog = "(hkey, byte) fmap"

definition OpLog_Put :: "oplog \<Rightarrow> hkey \<Rightarrow> oplog" where "OpLog_Put o' h = fmupd h opPut o'"
definition OpLog_Delete :: "oplog \<Rightarrow> hkey \<Rightarrow> oplog" where "OpLog_Delete o' h = fmupd h opDel o'"

definition dmapKey :: "part_id \<Rightarrow> bytes \<Rightarrow> bytes" where
  "dmapKey partID name = string_bytes ''dmap-keys-'' @ name @ string_bytes ''-'' @ string_bytes (itoa (sint partID))"

definition bkey :: "hkey \<Rightarrow> bytes" where "bkey h = putUint64 h"

section \<open>BadgerDB\<close>

definition badger_get :: "badger_env \<Rightarrow> badger \<Rightarrow> bytes \<Rightarrow> gerr + bytes option" where
  "badger_get env b k = (case get_err env k of Some e \<Rightarrow> Inl e | None \<Rightarrow> Inr (b k))"

text \<open>The entries of a write batch, newest last; a \<open>None\<close> deletes.\<close>

type_synonym batch = "(bytes \<times> bytes option) list"

definition apply_batch :: "batch \<Rightarrow> badger \<Rightarrow> badger" where
  "apply_batch w b = foldl (\<lambda>b (k, v). b(k := v)) b w"

text \<open>\<open>Flush\<close>: all entries, or the first \<open>flush_done\<close> of them and an error.\<close>

definition batch_flush :: "badger_env \<Rightarrow> batch \<Rightarrow> badger \<Rightarrow> badger \<times> gerr option" where
  "batch_flush env w b =
     (case flush_err env of
        None \<Rightarrow> (apply_batch w b, None)
      | Some e \<Rightarrow> (apply_batch (take (flush_done env) w) b, Some e))"

section \<open>Synchronisation\<close>

text \<open>The hkeys of a DMap that are on disk; an unknown DMap has none.\<close>

definition read_hkeys :: "badger_env \<Rightarrow> badger \<Rightarrow> part_id \<Rightarrow> bytes \<Rightarrow> gerr + hkey fset" where
  "read_hkeys env b partID name =
     (case badger_get env b (dmapKey partID name) of
        Inl e \<Rightarrow> Inl e
      | Inr None \<Rightarrow> Inr {||}
      | Inr (Some raw) \<Rightarrow> unmarshal_hkeys env raw)"

text \<open>The loop over the drained log: the hkeys on disk, the batch and the keys that failed.\<close>

fun sync_ops ::
  "badger_env \<Rightarrow> storage \<Rightarrow> (hkey \<times> byte) list \<Rightarrow> hkey fset \<Rightarrow> batch \<Rightarrow> oplog \<Rightarrow>
   (hkey fset \<times> batch \<times> oplog) outcome" where
  "sync_ops env str [] hks wb failed = Ret (hks, wb, failed)"
| "sync_ops env str ((h, op) # ops) hks wb failed =
     (if op = opPut then
        bind_outcome (storage_GetRaw str h) (\<lambda>r.
          case r of
            Inl e \<Rightarrow>
              if e = ErrKeyNotFound then sync_ops env str ops hks wb failed
              else sync_ops env str ops hks wb (fmupd h op failed)
          | Inr val \<Rightarrow>
              (case set_err env (bkey h) of
                 Some e \<Rightarrow> sync_ops env str ops hks wb (fmupd h op failed)
               | None \<Rightarrow> sync_ops env str ops (finsert h hks) (wb @ [(bkey h, Some val)]) failed))
      else
        (case del_err env (bkey h) of
           Some e \<Rightarrow> sync_ops env str ops hks wb (fmupd h op failed)
         | None \<Rightarrow> sync_ops env str ops (hks |-| {|h|}) (wb @ [(bkey h, None)]) failed))"

text \<open>
  \<open>syncDMap\<close> after the log has been drained into \<open>wcopy\<close>: the new database, the keys to log
  again and the error. \<open>iter\<close> is the order in which \<open>range\<close> visits the copy.
\<close>

definition sync_drained ::
  "badger_env \<Rightarrow> (oplog \<Rightarrow> (hkey \<times> byte) list) \<Rightarrow> part_id \<Rightarrow> bytes \<Rightarrow> oplog \<Rightarrow> storage \<Rightarrow> badger \<Rightarrow>
   (badger \<times> oplog \<times> gerr option) outcome" where
  "sync_drained env iter partID name wcopy str b =
     (case read_hkeys env b partID name of
        Inl e \<Rightarrow> Ret (b, fmempty, Some e)
      | Inr hks \<Rightarrow>
          bind_outcome (sync_ops env str (iter wcopy) hks [] fmempty) (\<lambda>(hks', wb, failed).
            case marshal_hkeys env hks' of
              Inl e \<Rightarrow> (let (b', fe) = batch_flush env wb b in Ret (b', wcopy, fe))
            | Inr data \<Rightarrow>
                (case set_err env (dmapKey partID name) of
                   Some e \<Rightarrow> (let (b', fe) = batch_flush env wb b in Ret (b', wcopy, fe))
                 | None \<Rightarrow>
                     (let (b', fe) = batch_flush env (wb @ [(dmapKey partID name, Some data)]) b in
                      Ret (b', failed, fe)))))"

text \<open>\<open>syncDMap\<close>: the emptied log, the database, the failed keys and the error.\<close>

definition syncDMap ::
  "badger_env \<Rightarrow> (oplog \<Rightarrow> (hkey \<times> byte) list) \<Rightarrow> part_id \<Rightarrow> bytes \<Rightarrow> oplog \<Rightarrow> storage \<Rightarrow> badger \<Rightarrow>
   (oplog \<times> badger \<times> oplog \<times> gerr option) outcome" where
  "syncDMap env iter partID name log str b =
     (if log = fmempty then Ret (log, b, fmempty, None)
      else map_ret (\<lambda>(b', failed, e). (fmempty, b', failed, e))
             (sync_drained env iter partID name log str b))"

text \<open>The worker logs the failed keys again, unless they have been logged meanwhile.\<close>

definition oplog_readd :: "oplog \<Rightarrow> oplog \<Rightarrow> oplog" where
  "oplog_readd log failed = failed ++\<^sub>f log"

definition worker_sync ::
  "badger_env \<Rightarrow> (oplog \<Rightarrow> (hkey \<times> byte) list) \<Rightarrow> part_id \<Rightarrow> bytes \<Rightarrow> oplog \<Rightarrow> storage \<Rightarrow> badger \<Rightarrow>
   (oplog \<times> badger) outcome" where
  "worker_sync env iter partID name log str b =
     map_ret (\<lambda>(log', b', failed, e). (oplog_readd log' failed, b'))
       (syncDMap env iter partID name log str b)"

section \<open>The register of DMaps\<close>

text \<open>
  A nested map from partitions to names is kept as its set of pairs: the code deletes a
  partition's map when it becomes empty.
\<close>

definition registerOnBadger :: "badger_env \<Rightarrow> bytes \<Rightarrow> part_id \<Rightarrow> bytes \<Rightarrow> badger \<Rightarrow> badger \<times> gerr option" where
  "registerOnBadger env dkey partID name b =
     (case badger_get env b dkey of
        Inl e \<Rightarrow> (b, Some e)
      | Inr item \<Rightarrow>
          (case (case item of None \<Rightarrow> Inr {||} | Some raw \<Rightarrow> unmarshal_dmaps env raw) of
             Inl e \<Rightarrow> (b, Some e)
           | Inr dmaps \<Rightarrow>
               (case marshal_dmaps env (finsert (partID, name) dmaps) of
                  Inl e \<Rightarrow> (b, Some e)
                | Inr res \<Rightarrow>
                    (case set_err env dkey of
                       Some e \<Rightarrow> (b, Some e)
                     | None \<Rightarrow> (b(dkey \<mapsto> res), None)))))"

definition unregisterOnBadger :: "badger_env \<Rightarrow> bytes \<Rightarrow> part_id \<Rightarrow> bytes \<Rightarrow> badger \<Rightarrow> badger \<times> gerr option" where
  "unregisterOnBadger env dkey partID name b =
     (case badger_get env b dkey of
        Inl e \<Rightarrow> (b, Some e)
      | Inr None \<Rightarrow> (b, Some (ErrOther ''Key not found''))
      | Inr (Some raw) \<Rightarrow>
          (case unmarshal_dmaps env raw of
             Inl e \<Rightarrow> (b, Some e)
           | Inr dmaps \<Rightarrow>
               (case marshal_dmaps env (dmaps |-| {|(partID, name)|}) of
                  Inl e \<Rightarrow> (b, Some e)
                | Inr res \<Rightarrow>
                    (case set_err env dkey of
                       Some e \<Rightarrow> (b, Some e)
                     | None \<Rightarrow> (b(dkey \<mapsto> res), None)))))"

text \<open>
  \<open>Snapshot\<close>: the database, the log of each registered DMap (by partition and name, whatever
  its \<open>dkey\<close>), and the worker of each partition, which is \<open>True\<close> while it runs: a cancelled
  worker stays in the table. A log is an object that its DMap shares, so the table holds
  references into a store of logs.
\<close>

type_synonym log_id = nat

record snapshot =
  sn_db :: badger
  oplogs :: "(part_id \<times> bytes, log_id) fmap"
  logs :: "log_id \<Rightarrow> oplog"
  next_log :: log_id
  workers :: "part_id \<rightharpoonup> bool"

definition RegisterDMap ::
  "badger_env \<Rightarrow> bytes \<Rightarrow> part_id \<Rightarrow> bytes \<Rightarrow> snapshot \<Rightarrow> snapshot \<times> (gerr + log_id)" where
  "RegisterDMap env dkey partID name s =
     (case registerOnBadger env dkey partID name (sn_db s) of
        (b, Some e) \<Rightarrow> (s\<lparr>sn_db := b\<rparr>, Inl e)
      | (b, None) \<Rightarrow>
          (s\<lparr>sn_db := b, oplogs := fmupd (partID, name) (next_log s) (oplogs s),
             logs := (logs s)(next_log s := fmempty), next_log := next_log s + 1,
             workers := (case workers s partID of None \<Rightarrow> (workers s)(partID \<mapsto> True) | Some w \<Rightarrow> workers s)\<rparr>,
           Inr (next_log s)))"

definition part_logged :: "snapshot \<Rightarrow> part_id \<Rightarrow> bool" where
  "part_logged s partID \<longleftrightarrow> (\<exists>x \<in> fmdom' (oplogs s). fst x = partID)"

text \<open>Cancelling the worker of a partition that never had one calls a nil function.\<close>

definition UnregisterDMap ::
  "badger_env \<Rightarrow> bytes \<Rightarrow> part_id \<Rightarrow> bytes \<Rightarrow> snapshot \<Rightarrow> (snapshot \<times> gerr option) outcome" where
  "UnregisterDMap env dkey partID name s =
     (if \<not> part_logged s partID then Ret (s, None)
      else (case unregisterOnBadger env dkey partID name (sn_db s) of
        (b, Some e) \<Rightarrow> Ret (s\<lparr>sn_db := b\<rparr>, Some e)
      | (b, None) \<Rightarrow>
          (let s1 = s\<lparr>sn_db := b, oplogs := fmdrop (partID, name) (oplogs s)\<rparr> in
           if part_logged s1 partID then Ret (s1, None)
           else (case workers s1 partID of
                   None \<Rightarrow> Panic
                 | Some w \<Rightarrow> Ret (s1\<lparr>workers := (workers s1)(partID \<mapsto> False)\<rparr>, None)))))"

fun destroy_batch :: "badger_env \<Rightarrow> hkey list \<Rightarrow> batch \<Rightarrow> gerr + batch" where
  "destroy_batch env [] wb = Inr wb"
| "destroy_batch env (h # hs) wb =
     (case del_err env (bkey h) of
        Some e \<Rightarrow> Inl e
      | None \<Rightarrow> destroy_batch env hs (wb @ [(bkey h, None)]))"

definition DestroyDMap ::
  "badger_env \<Rightarrow> (hkey fset \<Rightarrow> hkey list) \<Rightarrow> bytes \<Rightarrow> part_id \<Rightarrow> bytes \<Rightarrow> snapshot \<Rightarrow>
   (snapshot \<times> gerr option) outcome" where
  "DestroyDMap env iter dkey partID name s =
     (case badger_get env (sn_db s) (dmapKey partID name) of
        Inl e \<Rightarrow> Ret (s, Some e)
      | Inr None \<Rightarrow> Ret (s, Some (ErrOther ''Key not found''))
      | Inr (Some raw) \<Rightarrow>
          (case unmarshal_hkeys env raw of
             Inl e \<Rightarrow> Ret (s, Some e)
           | Inr hks \<Rightarrow>
               (case destroy_batch env (iter hks) [] of
                  Inl e \<Rightarrow> Ret (s, Some e)
                | Inr wb \<Rightarrow>
                    (case batch_flush env wb (sn_db s) of
                       (b, Some e) \<Rightarrow> Ret (s\<lparr>sn_db := b\<rparr>, Some e)
                     | (b, None) \<Rightarrow> UnregisterDMap env dkey partID name (s\<lparr>sn_db := b\<rparr>)))))"

section \<open>The loader\<close>

definition NewLoader :: "badger_env \<Rightarrow> bytes \<Rightarrow> badger \<Rightarrow> gerr + on_disk_dmaps" where
  "NewLoader env dkey b =
     (case badger_get env b dkey of
        Inl e \<Rightarrow> Inl e
      | Inr None \<Rightarrow> Inl ErrFirstRun
      | Inr (Some raw) \<Rightarrow> unmarshal_dmaps env raw)"

text \<open>The outer option is the endless loop of \<open>PutRaw\<close>.\<close>

fun load_hkeys ::
  "badger_env \<Rightarrow> os \<Rightarrow> badger \<Rightarrow> hkey list \<Rightarrow> storage \<Rightarrow> (storage \<times> gerr option) outcome option" where
  "load_hkeys env os b [] str = Some (Ret (str, None))"
| "load_hkeys env os b (h # hs) str =
     (case badger_get env b (bkey h) of
        Inl e \<Rightarrow> Some (Ret (str, Some e))
      | Inr None \<Rightarrow> Some (Ret (str, Some (ErrOther ''Key not found'')))
      | Inr (Some val) \<Rightarrow>
          (case storage_PutRaw os str h val of
             Some (Ret (str', None)) \<Rightarrow> load_hkeys env os b hs str'
           | r \<Rightarrow> r))"

definition loadFromBadger ::
  "badger_env \<Rightarrow> os \<Rightarrow> (hkey fset \<Rightarrow> hkey list) \<Rightarrow> badger \<Rightarrow> hkey fset \<Rightarrow>
   (gerr + storage) outcome option" where
  "loadFromBadger env os iter b hks =
     (case storage_New os 0 of
        Inl e \<Rightarrow> Some (Ret (Inl e))
      | Inr o' \<Rightarrow>
          map_option (map_ret (\<lambda>(str, e). case e of None \<Rightarrow> Inr str | Some e \<Rightarrow> Inl e))
            (load_hkeys env os b (iter hks) o'))"

text \<open>
  \<open>Next\<close> on a chosen pair of the loader's register: the restored storage and the register
  without the pair.
\<close>

definition load_dmap ::
  "badger_env \<Rightarrow> os \<Rightarrow> (hkey fset \<Rightarrow> hkey list) \<Rightarrow> badger \<Rightarrow> part_id \<Rightarrow> bytes \<Rightarrow>
   (gerr + storage) outcome option" where
  "load_dmap env os iter b partID name =
     (case badger_get env b (dmapKey partID name) of
        Inl e \<Rightarrow> Some (Ret (Inl e))
      | Inr None \<Rightarrow> Some (Ret (Inl (ErrOther ''Key not found'')))
      | Inr (Some raw) \<Rightarrow>
          (case unmarshal_hkeys env raw of
             Inl e \<Rightarrow> Some (Ret (Inl e))
           | Inr hks \<Rightarrow> loadFromBadger env os iter b hks))"

definition loader_Next ::
  "badger_env \<Rightarrow> os \<Rightarrow> (hkey fset \<Rightarrow> hkey list) \<Rightarrow> (on_disk_dmaps \<Rightarrow> part_id \<times> bytes) \<Rightarrow> badger \<Rightarrow>
   on_disk_dmaps \<Rightarrow> (gerr + (part_id \<times> bytes \<times> storage \<times> on_disk_dmaps)) outcome option" where
  "loader_Next env os iter pick b dmaps =
     (if dmaps = {||} then Some (Ret (Inl ErrLoaderDone))
      else let (partID, name) = pick dmaps in
        map_option (map_ret (\<lambda>r. case r of
            Inl e \<Rightarrow> Inl e
          | Inr str \<Rightarrow> Inr (partID, name, str, dmaps |-| {|(partID, name)|})))
          (load_dmap env os iter b partID name))"

section \<open>What is on disk\<close>

text \<open>A database that works, and codecs that decode what they encoded.\<close>

definition env_ok :: "badger_env \<Rightarrow> bool" where
  "env_ok env \<longleftrightarrow>
     (\<forall>k. get_err env k = None \<and> set_err env k = None \<and> del_err env k = None) \<and> flush_err env = None \<and>
     (\<forall>H. \<exists>w. marshal_hkeys env H = Inr w \<and> unmarshal_hkeys env w = Inr H) \<and>
     (\<forall>D. \<exists>w. marshal_dmaps env D = Inr w \<and> unmarshal_dmaps env w = Inr D)"

definition raw_entry :: "vdata \<Rightarrow> bytes" where
  "raw_entry v = encode_entry v @ [0]"

text \<open>Outside the keys \<open>P\<close>, the database holds exactly the entries of \<open>m\<close> for the DMap.\<close>

definition covers :: "badger_env \<Rightarrow> badger \<Rightarrow> part_id \<Rightarrow> bytes \<Rightarrow> (hkey \<rightharpoonup> vdata) \<Rightarrow> hkey set \<Rightarrow> bool" where
  "covers env b partID name m P \<longleftrightarrow>
     (\<exists>H. read_hkeys env b partID name = Inr H \<and>
       (\<forall>h. h \<notin> P \<longrightarrow> (h |\<in>| H \<longleftrightarrow> m h \<noteq> None) \<and>
          (\<forall>v. m h = Some v \<longrightarrow> b (bkey h) = Some (raw_entry v))))"

text \<open>The logged operations of the keys outside \<open>Q\<close> agree with the contents.\<close>

definition log_ok :: "(hkey \<times> byte) list \<Rightarrow> (hkey \<rightharpoonup> vdata) \<Rightarrow> hkey set \<Rightarrow> bool" where
  "log_ok ops m Q \<longleftrightarrow> (\<forall>(h, op) \<in> set ops. h \<notin> Q \<longrightarrow> (op = opPut \<longleftrightarrow> m h \<noteq> None))"

definition log_iter_ok :: "(oplog \<Rightarrow> (hkey \<times> byte) list) \<Rightarrow> bool" where
  "log_iter_ok iter \<longleftrightarrow> (\<forall>l. distinct (map fst (iter l)) \<and> set (iter l) = {(h, op). fmlookup l h = Some op})"

definition set_iter_ok :: "(hkey fset \<Rightarrow> hkey list) \<Rightarrow> bool" where
  "set_iter_ok iter \<longleftrightarrow> (\<forall>H. distinct (iter H) \<and> set (iter H) = fset H)"

lemma bkey_inject [simp]: "bkey h = bkey k \<longleftrightarrow> h = k"
  by (metis bkey_def getUint64_put)

lemma bkey_not_dmapKey [simp]: "bkey h \<noteq> dmapKey p n" "dmapKey p n \<noteq> bkey h"
proof -
  have "length (bkey h) \<noteq> length (dmapKey p n)" by (simp add: bkey_def dmapKey_def)
  then show "bkey h \<noteq> dmapKey p n" "dmapKey p n \<noteq> bkey h" by metis+
qed

lemma apply_batch_snoc [simp]: "apply_batch (w @ [(k, v)]) b = (apply_batch w b)(k := v)"
  by (simp add: apply_batch_def)

lemma apply_batch_Nil [simp]: "apply_batch [] b = b"
  by (simp add: apply_batch_def)

text \<open>What the loop has to leave for the keys it has seen.\<close>

definition synced :: "(hkey \<rightharpoonup> vdata) \<Rightarrow> hkey set \<Rightarrow> hkey set \<Rightarrow> hkey fset \<Rightarrow> batch \<Rightarrow> hkey fset \<Rightarrow> batch \<Rightarrow> bool" where
  "synced m Q S H wb H' wb' \<longleftrightarrow>
     (\<forall>h. h \<notin> Q \<longrightarrow> (h |\<in>| H' \<longleftrightarrow> (if h \<in> S then m h \<noteq> None else h |\<in>| H))) \<and>
     (\<forall>b h. h \<notin> Q \<longrightarrow> apply_batch wb' b (bkey h) =
        (if h \<in> S then map_option raw_entry (m h) else apply_batch wb b (bkey h))) \<and>
     (\<forall>b p n. apply_batch wb' b (dmapKey p n) = apply_batch wb b (dmapKey p n))"

lemma synced_put:
  assumes "m h = Some v"
  shows "synced m Q {h} H wb (finsert h H) (wb @ [(bkey h, Some (raw_entry v))])"
  using assms by (auto simp: synced_def)

lemma synced_del:
  assumes "h \<notin> Q \<longrightarrow> m h = None"
  shows "synced m Q {h} H wb (H |-| {|h|}) (wb @ [(bkey h, None)])"
  using assms by (auto simp: synced_def)

lemma synced_skip: "h \<in> Q \<Longrightarrow> synced m Q {h} H wb H wb"
  by (auto simp: synced_def)

lemma synced_trans:
  assumes "synced m Q S H wb H1 wb1" and "synced m Q T H1 wb1 H2 wb2"
  shows "synced m Q (S \<union> T) H wb H2 wb2"
  using assms by (simp add: synced_def)

lemma sync_ops_synced:
  assumes "env_ok env" and "storage_inv str" and "log_ok ops (storage_abs str) Q"
  shows "\<exists>H' wb'. sync_ops env str ops H wb fm = Ret (H', wb', fm) \<and>
    synced (storage_abs str) Q (fst ` set ops) H wb H' wb'"
  using assms(3)
proof (induction ops arbitrary: H wb)
  case Nil
  show ?case by (simp add: synced_def)
next
  case (Cons x ops)
  obtain h op where x: "x = (h, op)" by (cases x)
  let ?m = "storage_abs str"
  have log: "log_ok ops ?m Q" and op: "h \<notin> Q \<Longrightarrow> op = opPut \<longleftrightarrow> ?m h \<noteq> None"
    using Cons.prems by (auto simp: log_ok_def x)
  have errs: "set_err env k = None" "del_err env k = None" for k using assms(1) by (simp_all add: env_ok_def)
  have "\<exists>H1 wb1. sync_ops env str (x # ops) H wb fm = sync_ops env str ops H1 wb1 fm \<and>
      synced ?m Q {h} H wb H1 wb1"
  proof (cases "op = opPut")
    case True
    show ?thesis
    proof (cases "?m h")
      case None
      then have "sync_ops env str (x # ops) H wb fm = sync_ops env str ops H wb fm"
        using True by (simp add: x storage_GetRaw_eq [OF assms(2)])
      moreover have "h \<in> Q" using None op True by blast
      ultimately show ?thesis using synced_skip by blast
    next
      case (Some v)
      then have "sync_ops env str (x # ops) H wb fm =
          sync_ops env str ops (finsert h H) (wb @ [(bkey h, Some (raw_entry v))]) fm"
        using True errs by (simp add: x storage_GetRaw_eq [OF assms(2)] raw_entry_def)
      moreover have "synced ?m Q {h} H wb (finsert h H) (wb @ [(bkey h, Some (raw_entry v))])"
        using Some by (rule synced_put)
      ultimately show ?thesis by blast
    qed
  next
    case False
    then have "sync_ops env str (x # ops) H wb fm = sync_ops env str ops (H |-| {|h|}) (wb @ [(bkey h, None)]) fm"
      using errs by (simp add: x)
    moreover have "h \<notin> Q \<longrightarrow> ?m h = None" using op False by blast
    ultimately show ?thesis using synced_del by blast
  qed
  then obtain H1 wb1 where 1: "sync_ops env str (x # ops) H wb fm = sync_ops env str ops H1 wb1 fm"
    "synced ?m Q {h} H wb H1 wb1" by blast
  from Cons.IH [OF log, of H1 wb1] obtain H' wb' where
    "sync_ops env str ops H1 wb1 fm = Ret (H', wb', fm)" "synced ?m Q (fst ` set ops) H1 wb1 H' wb'" by blast
  with 1 synced_trans [OF 1(2)] show ?case by (auto simp: x)
qed

lemma sync_drained_covers:
  assumes env: "env_ok env" and iter: "log_iter_ok iter" and inv: "storage_inv str"
    and cov: "covers env b partID name (storage_abs str) (fmdom' log \<union> Q)"
    and log: "log_ok (iter log) (storage_abs str) Q"
  shows "\<exists>b'. sync_drained env iter partID name log str b = Ret (b', fmempty, None) \<and>
    covers env b' partID name (storage_abs str) Q \<and> b' (dmapKey partID name) \<noteq> None"
proof -
  let ?m = "storage_abs str" and ?k = "dmapKey partID name"
  from cov obtain H where H: "read_hkeys env b partID name = Inr H"
    "\<And>h. h \<notin> fmdom' log \<union> Q \<Longrightarrow> (h |\<in>| H \<longleftrightarrow> ?m h \<noteq> None) \<and> (\<forall>v. ?m h = Some v \<longrightarrow> b (bkey h) = Some (raw_entry v))"
    unfolding covers_def by blast
  from sync_ops_synced [OF env inv log, of H "[]" fmempty] obtain H' wb' where
    s: "sync_ops env str (iter log) H [] fmempty = Ret (H', wb', fmempty)"
    "synced ?m Q (fst ` set (iter log)) H [] H' wb'" by blast
  have keys: "fst ` set (iter log) = fmdom' log"
    using iter by (force simp: log_iter_ok_def fmdom'_def dom_def)
  from env obtain w where w: "marshal_hkeys env H' = Inr w" "unmarshal_hkeys env w = Inr H'"
    unfolding env_ok_def by blast
  have errs: "set_err env ?k = None" "get_err env ?k = None" "flush_err env = None"
    using env by (simp_all add: env_ok_def)
  let ?b = "(apply_batch wb' b)(?k \<mapsto> w)"
  have "sync_drained env iter partID name log str b = Ret (?b, fmempty, None)"
    by (simp add: sync_drained_def H(1) s(1) w(1) errs batch_flush_def)
  moreover have "read_hkeys env ?b partID name = Inr H'"
    by (simp add: read_hkeys_def badger_get_def errs w(2))
  then have "covers env ?b partID name ?m Q"
    using s(2) H(2) by (auto simp: covers_def synced_def keys)
  moreover have "?b ?k \<noteq> None" by simp
  ultimately show ?thesis by blast
qed

section \<open>Restoring\<close>

lemma storage_PutRaw_small:
  assumes inv: "storage_inv s" and mm: "\<forall>n. mmap_ok os n" and v: "valid_vdata v"
    and small: "entry_size v + 1 < minimumSize"
  shows "\<exists>s'. storage_PutRaw os s h (raw_entry v) = Some (Ret (s', None)) \<and> storage_inv s' \<and>
    storage_abs s' = (storage_abs s)(h \<mapsto> v)"
proof -
  have "\<exists>s'. put_loop os (\<lambda>t. table_putRaw t h (raw_entry v)) s = Some (Ret (s', None))"
  proof (rule put_loop_small [OF inv mm])
    show "length (raw_entry v) < minimumSize" using small by (simp add: raw_entry_def)
  qed (auto simp: table_putRaw_fits [OF table_invD(1)] table_putRaw_full)
  with storage_invD(2) [OF inv] obtain s' where s': "storage_PutRaw os s h (raw_entry v) = Some (Ret (s', None))"
    by (auto simp: storage_PutRaw_def)
  from storage_PutRaw_correct [OF this [unfolded raw_entry_def] v inv] s' show ?thesis
    by (simp add: put_result_def)
qed

lemma load_hkeys_restores:
  assumes "storage_inv str" and mm: "\<forall>n. mmap_ok os n" and env: "env_ok env"
    and b: "\<forall>h \<in> set hs. \<exists>v. m h = Some v \<and> b (bkey h) = Some (raw_entry v) \<and> valid_vdata v \<and>
      entry_size v + 1 < minimumSize"
  shows "\<exists>str'. load_hkeys env os b hs str = Some (Ret (str', None)) \<and> storage_inv str' \<and>
    storage_abs str' = storage_abs str ++ (m |` set hs)"
  using assms(1) b
proof (induction hs arbitrary: str)
  case Nil
  then show ?case by (simp add: restrict_map_def)
next
  case (Cons h hs)
  from Cons.prems(2) obtain v where v: "m h = Some v" "b (bkey h) = Some (raw_entry v)" "valid_vdata v"
    "entry_size v + 1 < minimumSize" by auto
  from storage_PutRaw_small [OF Cons.prems(1) mm v(3,4), of h] obtain s1 where
    s1: "storage_PutRaw os str h (raw_entry v) = Some (Ret (s1, None))" "storage_inv s1"
      "storage_abs s1 = (storage_abs str)(h \<mapsto> v)" by blast
  from Cons.IH [OF s1(2)] Cons.prems(2) obtain s2 where
    s2: "load_hkeys env os b hs s1 = Some (Ret (s2, None))" "storage_inv s2"
      "storage_abs s2 = storage_abs s1 ++ (m |` set hs)" by auto
  have "load_hkeys env os b (h # hs) str = Some (Ret (s2, None))"
    using env by (simp add: badger_get_def env_ok_def v(2) s1(1) s2(1))
  moreover have "(storage_abs str)(h \<mapsto> v) ++ (m |` set hs) = storage_abs str ++ (m |` set (h # hs))"
    using v(1) by (auto simp: fun_eq_iff map_add_def restrict_map_def split: option.splits)
  ultimately show ?case using s2(2,3) s1(3) by simp
qed

lemma load_dmap_restores:
  assumes env: "env_ok env" and iter: "set_iter_ok iter" and mm: "\<forall>n. mmap_ok os n"
    and known: "b (dmapKey partID name) \<noteq> None"
    and cov: "covers env b partID name m {}"
    and ok: "\<forall>h v. m h = Some v \<longrightarrow> valid_vdata v \<and> entry_size v + 1 < minimumSize"
  shows "\<exists>str. load_dmap env os iter b partID name = Some (Ret (Inr str)) \<and> storage_inv str \<and> storage_abs str = m"
proof -
  from cov obtain H where H: "read_hkeys env b partID name = Inr H"
    "\<And>h. h |\<in>| H \<longleftrightarrow> m h \<noteq> None" "\<And>h v. m h = Some v \<Longrightarrow> b (bkey h) = Some (raw_entry v)"
    unfolding covers_def by blast
  from known obtain raw where raw: "b (dmapKey partID name) = Some raw" by blast
  then have un: "unmarshal_hkeys env raw = Inr H"
    using H(1) env by (simp add: read_hkeys_def badger_get_def env_ok_def)
  from newTable_ok [OF mm] obtain nt where nt: "newTable os 0 = Inr nt" "table_inv nt" by metis
  let ?o = "storage_of [nt]"
  have new: "storage_New os 0 = Inr ?o" using nt(1) by (simp add: storage_New_def storage_of_def)
  have empty: "storage_inv ?o" "storage_abs ?o = Map.empty" using newTable_Inr(1,2) [OF nt(1)] by simp_all
  have S: "set (iter H) = fset H" using iter by (simp add: set_iter_ok_def)
  have "\<forall>h \<in> set (iter H). \<exists>v. m h = Some v \<and> b (bkey h) = Some (raw_entry v) \<and> valid_vdata v \<and>
      entry_size v + 1 < minimumSize"
    using S H(2,3) ok by fastforce
  from load_hkeys_restores [OF empty(1) mm env this] empty(2) obtain str where
    str: "load_hkeys env os b (iter H) ?o = Some (Ret (str, None))" "storage_inv str"
      "storage_abs str = m |` set (iter H)" by auto
  moreover have "m |` set (iter H) = m"
    using S H(2) by (auto simp: fun_eq_iff restrict_map_def)
  ultimately have "load_dmap env os iter b partID name = Some (Ret (Inr str))" "storage_abs str = m"
    using raw un env new by (simp_all add: load_dmap_def loadFromBadger_def badger_get_def env_ok_def)
  with str(2) show ?thesis by blast
qed

section \<open>Histories of a logged DMap\<close>

text \<open>
  A DMap, its log and the database: writes and deletions are logged, and the worker syncs in
  between. \<open>snap_inv\<close> says what holds at any time.
\<close>

definition snap_inv :: "badger_env \<Rightarrow> part_id \<Rightarrow> bytes \<Rightarrow> oplog \<Rightarrow> storage \<Rightarrow> badger \<Rightarrow> bool" where
  "snap_inv env partID name log str b \<longleftrightarrow>
     storage_inv str \<and> covers env b partID name (storage_abs str) (fmdom' log) \<and>
     (\<forall>h op. fmlookup log h = Some op \<longrightarrow> (op = opPut \<longleftrightarrow> storage_abs str h \<noteq> None)) \<and>
     (\<forall>h v. storage_abs str h = Some v \<longrightarrow> valid_vdata v \<and> entry_size v + 1 < minimumSize)"

inductive snap_run ::
  "badger_env \<Rightarrow> (oplog \<Rightarrow> (hkey \<times> byte) list) \<Rightarrow> os \<Rightarrow> part_id \<Rightarrow> bytes \<Rightarrow>
   oplog \<Rightarrow> storage \<Rightarrow> badger \<Rightarrow> bool" for env iter os partID name where
  snap_new: "storage_New os sz = Inr str \<Longrightarrow> b (dmapKey partID name) = None \<Longrightarrow>
     snap_run env iter os partID name fmempty str b"
| snap_put: "snap_run env iter os partID name log str b \<Longrightarrow> valid_vdata v \<Longrightarrow>
     entry_size v + 1 < minimumSize \<Longrightarrow> storage_Put os str h v = Some (Ret (str', None)) \<Longrightarrow>
     snap_run env iter os partID name (OpLog_Put log h) str' b"
| snap_del: "snap_run env iter os partID name log str b \<Longrightarrow> sole str h \<Longrightarrow>
     storage_Delete os str h = Ret (str', e) \<Longrightarrow>
     snap_run env iter os partID name (OpLog_Delete log h) str' b"
| snap_sync: "snap_run env iter os partID name log str b \<Longrightarrow>
     worker_sync env iter partID name log str b = Ret (log', b') \<Longrightarrow>
     snap_run env iter os partID name log' str b'"

lemma covers_weaken:
  assumes "covers env b p n m P" and "P \<subseteq> P'" and "\<forall>h. h \<notin> P' \<longrightarrow> m' h = m h"
  shows "covers env b p n m' P'"
  using assms unfolding covers_def by (metis subsetD)

lemma snap_inv_put:
  assumes "snap_inv env p n log str b" and "valid_vdata v" and "entry_size v + 1 < minimumSize"
    and "storage_Put os str h v = Some (Ret (str', None))"
  shows "snap_inv env p n (OpLog_Put log h) str' b"
proof -
  have i: "storage_inv str" and v: "length (vvalue v) < 2 ^ 32"
    using assms(1,2) by (simp_all add: snap_inv_def valid_vdata_def)
  have s: "storage_inv str'" "storage_abs str' = (storage_abs str)(h \<mapsto> v)"
    using storage_Put_correct [OF assms(4) v i] by (simp_all add: put_result_def)
  have "covers env b p n (storage_abs str') (fmdom' (OpLog_Put log h))"
  proof (rule covers_weaken)
    show "covers env b p n (storage_abs str) (fmdom' log)" using assms(1) by (simp add: snap_inv_def)
  qed (simp_all add: s(2) OpLog_Put_def subset_insertI)
  moreover have "op = opPut \<longleftrightarrow> storage_abs str' k \<noteq> None" if "fmlookup (OpLog_Put log h) k = Some op" for k op
    using that assms(1) s(2) by (cases "k = h") (auto simp: snap_inv_def OpLog_Put_def)
  moreover have "valid_vdata w \<and> entry_size w + 1 < minimumSize" if "storage_abs str' k = Some w" for k w
    using that assms(1-3) s(2) by (cases "k = h") (auto simp: snap_inv_def)
  ultimately show ?thesis using s(1) unfolding snap_inv_def by blast
qed

lemma snap_inv_del:
  assumes "snap_inv env p n log str b" and "sole str h" and "storage_Delete os str h = Ret (str', e)"
  shows "snap_inv env p n (OpLog_Delete log h) str' b"
proof -
  have i: "storage_inv str" using assms(1) by (simp add: snap_inv_def)
  have "prev_version (rev (tables str)) h = None"
    using assms(2) i by (intro prev_version_sole) (simp_all add: sole_def storage_inv_def)
  then have s: "storage_inv str'" "storage_abs str' = (storage_abs str)(h := None)"
    using storage_Delete_correct [OF i assms(3)] by simp_all
  have "covers env b p n (storage_abs str') (fmdom' (OpLog_Delete log h))"
  proof (rule covers_weaken)
    show "covers env b p n (storage_abs str) (fmdom' log)" using assms(1) by (simp add: snap_inv_def)
  qed (simp_all add: s(2) OpLog_Delete_def subset_insertI)
  moreover have "op = opPut \<longleftrightarrow> storage_abs str' k \<noteq> None" if "fmlookup (OpLog_Delete log h) k = Some op" for k op
    using that assms(1) s(2) by (cases "k = h") (auto simp: snap_inv_def OpLog_Delete_def opDel_def opPut_def)
  moreover have "valid_vdata w \<and> entry_size w + 1 < minimumSize" if "storage_abs str' k = Some w" for k w
    using that assms(1) s(2) by (cases "k = h") (auto simp: snap_inv_def)
  ultimately show ?thesis using s(1) unfolding snap_inv_def by blast
qed

lemma worker_sync_covers:
  assumes env: "env_ok env" and iter: "log_iter_ok iter" and inv: "snap_inv env p n log str b"
  shows "\<exists>b'. worker_sync env iter p n log str b = Ret (fmempty, b') \<and> snap_inv env p n fmempty str b' \<and>
    (log \<noteq> fmempty \<or> b (dmapKey p n) \<noteq> None \<longrightarrow> b' (dmapKey p n) \<noteq> None)"
proof (cases "log = fmempty")
  case True
  then show ?thesis using inv by (simp add: worker_sync_def syncDMap_def oplog_readd_def)
next
  case False
  have "log_ok (iter log) (storage_abs str) {}"
    using inv iter by (fastforce simp: log_ok_def snap_inv_def log_iter_ok_def)
  with sync_drained_covers [OF env iter, of str b p n log "{}"] inv obtain b' where
    b': "sync_drained env iter p n log str b = Ret (b', fmempty, None)"
      "covers env b' p n (storage_abs str) {}" "b' (dmapKey p n) \<noteq> None"
    unfolding snap_inv_def by (metis sup_bot_right)
  have "worker_sync env iter p n log str b = Ret (fmempty, b')"
    using False b'(1) by (simp add: worker_sync_def syncDMap_def oplog_readd_def)
  then show ?thesis using b'(2,3) inv by (simp add: snap_inv_def)
qed

lemma snap_run_inv:
  assumes "snap_run env iter os p n log str b" and env: "env_ok env" and "log_iter_ok iter"
  shows "snap_inv env p n log str b"
  using assms(1)
proof (induction rule: snap_run.induct)
  case (snap_new sz str b)
  from snap_new(1) obtain t where "newTable os sz = Inr t" "str = storage_of [t]"
    by (auto simp: storage_New_def storage_of_def split: sum.splits)
  then have "storage_inv str" "storage_abs str = Map.empty" using newTable_Inr(1,2) by simp_all
  with snap_new(2) env show ?case
    by (simp add: snap_inv_def covers_def read_hkeys_def badger_get_def env_ok_def)
next
  case (snap_sync log str b log' b')
  with worker_sync_covers [OF env assms(3), of p n log str b] show ?case by auto
qed (blast intro: snap_inv_put snap_inv_del)+

section \<open>Losing track of a DMap\<close>

lemma register_lists:
  assumes env: "env_ok env" and r: "RegisterDMap env dkey p n s = (s', Inr i)"
  shows "\<exists>D. NewLoader env dkey (sn_db s') = Inr D \<and> (p, n) |\<in>| D"
    and "k \<noteq> dkey \<Longrightarrow> sn_db s' k = sn_db s k"
proof -
  have errs: "get_err env k = None" "set_err env k = None" for k using env by (simp_all add: env_ok_def)
  from r obtain b where b: "registerOnBadger env dkey p n (sn_db s) = (b, None)" "sn_db s' = b"
    by (auto simp: RegisterDMap_def split: prod.splits option.splits)
  then obtain D res where D: "marshal_dmaps env (finsert (p, n) D) = Inr res" "b = (sn_db s)(dkey \<mapsto> res)"
    by (auto simp: registerOnBadger_def badger_get_def errs split: option.splits sum.splits)
  from env obtain w where "marshal_dmaps env (finsert (p, n) D) = Inr w"
    "unmarshal_dmaps env w = Inr (finsert (p, n) D)" unfolding env_ok_def by blast
  with D have "NewLoader env dkey b = Inr (finsert (p, n) D)"
    by (simp add: NewLoader_def badger_get_def errs)
  with b(2) show "\<exists>D. NewLoader env dkey (sn_db s') = Inr D \<and> (p, n) |\<in>| D" by auto
  show "k \<noteq> dkey \<Longrightarrow> sn_db s' k = sn_db s k" using b(2) D(2) by simp
qed

lemma register_total:
  assumes "env_ok env" and "sn_db s dkey = None"
  shows "\<exists>s' i. RegisterDMap env dkey p n s = (s', Inr i)"
proof -
  from assms(1) obtain w where "marshal_dmaps env {|(p, n)|} = Inr w" unfolding env_ok_def by blast
  with assms show ?thesis
    by (simp add: RegisterDMap_def registerOnBadger_def badger_get_def env_ok_def)
qed

lemma destroy_batch_ok:
  assumes "env_ok env"
  shows "destroy_batch env hs wb = Inr (wb @ map (\<lambda>h. (bkey h, None)) hs)"
  using assms by (induction hs arbitrary: wb) (simp_all add: env_ok_def)

lemma apply_deletes:
  "apply_batch (map (\<lambda>h. (bkey h, None)) hs) b k = (if k \<in> bkey ` set hs then None else b k)"
  by (induction hs rule: rev_induct) auto

lemma unregister_db:
  assumes "UnregisterDMap env dkey p n s = Ret (s', e)" and "k \<noteq> dkey"
  shows "sn_db s' k = sn_db s k"
  using assms
  by (auto simp: UnregisterDMap_def unregisterOnBadger_def Let_def
      split: if_splits sum.splits option.splits prod.splits)

section \<open>A concrete database\<close>

definition env_mem :: badger_env where
  "env_mem = \<lparr>get_err = (\<lambda>_. None), set_err = (\<lambda>_. None), del_err = (\<lambda>_. None), flush_err = None,
     flush_done = 0,
     marshal_hkeys = (\<lambda>H. Inr (replicate (to_nat H) 0)),
     unmarshal_hkeys = (\<lambda>w. Inr (from_nat (length w))),
     marshal_dmaps = (\<lambda>D. Inr (replicate (to_nat D) 0)),
     unmarshal_dmaps = (\<lambda>w. Inr (from_nat (length w)))\<rparr>"

lemma env_mem_ok [simp]: "env_ok env_mem"
  by (simp add: env_ok_def env_mem_def)

definition iter_log :: "oplog \<Rightarrow> (hkey \<times> byte) list" where
  "iter_log l = map (\<lambda>h. (h, the (fmlookup l h))) (sorted_list_of_fset (fmdom l))"

lemma iter_log_ok [simp]: "log_iter_ok iter_log"
proof -
  have "map fst (iter_log l) = sorted_list_of_fset (fmdom l)" for l
    by (simp add: iter_log_def o_def)
  moreover have "set (iter_log l) = {(h, op). fmlookup l h = Some op}" for l
    by (auto simp: iter_log_def sorted_list_of_fset.rep_eq fmlookup_dom_iff)
  ultimately show ?thesis by (simp add: log_iter_ok_def sorted_list_of_fset.rep_eq)
qed

lemma sorted_iter_ok [simp]: "set_iter_ok sorted_list_of_fset"
  by (simp add: set_iter_ok_def sorted_list_of_fset.rep_eq)

definition empty_snapshot :: snapshot where
  "empty_snapshot = \<lparr>sn_db = Map.empty, oplogs = fmempty, logs = (\<lambda>_. fmempty), next_log = 0,
     workers = Map.empty\<rparr>"

section \<open>Properties\<close>



text \<open>A registered DMap without a synced key stops the next start: \<open>RegisterDMap\<close> lists it in the
  database, but without its key list the loader's \<open>Next\<close> fails on it. This is the state of a
  DMap that was only read.\<close>

theorem unsynced_dmap_blocks_restart:
  assumes "env_ok env" and "RegisterDMap env dkey p n s = (s', Inr i)"
    and "sn_db s (dmapKey p n) = None" and "dmapKey p n \<noteq> dkey"
  shows "\<exists>D. NewLoader env dkey (sn_db s') = Inr D \<and> (p, n) |\<in>| D \<and>
    loader_Next env os siter (\<lambda>_. (p, n)) (sn_db s') D = Some (Ret (Inl (ErrOther ''Key not found'')))"
proof -
  from register_lists(1) [OF assms(1,2)] obtain D where
    D: "NewLoader env dkey (sn_db s') = Inr D" "(p, n) |\<in>| D" by blast
  have "sn_db s' (dmapKey p n) = None" using register_lists(2) [OF assms(1,2,4)] assms(3) by simp
  then have "load_dmap env os siter (sn_db s') p n = Some (Ret (Inl (ErrOther ''Key not found'')))"
    using assms(1) by (simp add: load_dmap_def badger_get_def env_ok_def)
  moreover have "D \<noteq> {||}" using D(2) by auto
  ultimately show ?thesis using D by (simp add: loader_Next_def)
qed

lemma dmapKey_not_primary: "dmapKey p n \<noteq> PrimaryDMapKey"
proof -
  have "hd (dmapKey p n) \<noteq> hd PrimaryDMapKey"
    by (simp add: dmapKey_def PrimaryDMapKey_def string_bytes_def)
  then show ?thesis by metis
qed

theorem unsynced_dmap_blocks_restart_witness:
  "\<exists>s' i D. RegisterDMap env_mem PrimaryDMapKey 3 [109] empty_snapshot = (s', Inr i) \<and>
     NewLoader env_mem PrimaryDMapKey (sn_db s') = Inr D \<and>
     loader_Next env_mem os_ok sorted_list_of_fset (\<lambda>_. (3, [109])) (sn_db s') D =
       Some (Ret (Inl (ErrOther ''Key not found'')))"
proof -
  have e: "sn_db empty_snapshot k = None" for k by (simp add: empty_snapshot_def)
  from register_total [OF env_mem_ok e] obtain s' i where
    s': "RegisterDMap env_mem PrimaryDMapKey 3 [109] empty_snapshot = (s', Inr i)" by blast
  from unsynced_dmap_blocks_restart [OF env_mem_ok s' e dmapKey_not_primary] s' show ?thesis by blast
qed

text \<open>Destroying a DMap leaves its key list behind: the entries are deleted, the list is not, so
  once the DMap is created again the loader looks for entries that are gone and fails.\<close>

theorem destroy_leaves_keys:
  assumes "env_ok env" and "set_iter_ok siter" and "read_hkeys env (sn_db s) p n = Inr H" and "H \<noteq> {||}"
    and "DestroyDMap env siter dkey p n s = Ret (s1, None)"
    and "RegisterDMap env dkey p n s1 = (s2, Inr i)" and "dmapKey p n \<noteq> dkey" and "dkey \<notin> range bkey"
    and "\<forall>n. mmap_ok os n"
  shows "load_dmap env os siter (sn_db s2) p n = Some (Ret (Inl (ErrOther ''Key not found'')))"
proof -
  have errs: "get_err env k = None" "flush_err env = None" for k using assms(1) by (simp_all add: env_ok_def)
  from assms(3-5) obtain raw where raw: "sn_db s (dmapKey p n) = Some raw" "unmarshal_hkeys env raw = Inr H"
    by (auto simp: read_hkeys_def DestroyDMap_def badger_get_def errs split: option.splits)
  let ?b = "apply_batch (map (\<lambda>h. (bkey h, None)) (siter H)) (sn_db s)"
  have un: "UnregisterDMap env dkey p n (s\<lparr>sn_db := ?b\<rparr>) = Ret (s1, None)"
    using assms(5) raw by (simp add: DestroyDMap_def badger_get_def errs destroy_batch_ok [OF assms(1)] batch_flush_def)
  have keep: "sn_db s2 k = ?b k" if "k \<noteq> dkey" for k
    using unregister_db [OF un that] register_lists(2) [OF assms(1,6) that] by simp
  have S: "set (siter H) = fset H" using assms(2) by (simp add: set_iter_ok_def)
  with assms(4) obtain h hs where h: "siter H = h # hs" by (cases "siter H") auto
  have "sn_db s2 (dmapKey p n) = Some raw" using keep [OF assms(7)] raw(1) by (auto simp: apply_deletes)
  moreover have "bkey h \<noteq> dkey" using assms(8) by blast
  then have "sn_db s2 (bkey h) = None" using keep [of "bkey h"] h apply_deletes [of "siter H" "sn_db s" "bkey h"] by simp
  moreover from newTable_ok [OF assms(9)] obtain nt where "newTable os 0 = Inr nt" by metis
  ultimately show ?thesis
    using raw(2) h by (simp add: load_dmap_def loadFromBadger_def badger_get_def errs storage_New_def)
qed

theorem destroy_leaves_keys_witness:
  "\<exists>s1 s2 i. DestroyDMap env_mem sorted_list_of_fset PrimaryDMapKey 3 [109]
       (empty_snapshot\<lparr>sn_db := [dmapKey 3 [109] \<mapsto> replicate (to_nat {|7 :: hkey|}) 0]\<rparr>) = Ret (s1, None) \<and>
     RegisterDMap env_mem PrimaryDMapKey 3 [109] s1 = (s2, Inr i) \<and>
     load_dmap env_mem os_ok sorted_list_of_fset (sn_db s2) 3 [109] =
       Some (Ret (Inl (ErrOther ''Key not found'')))"
proof -
  let ?s = "empty_snapshot\<lparr>sn_db := [dmapKey 3 [109] \<mapsto> replicate (to_nat {|7 :: hkey|}) 0]\<rparr>"
  have H: "read_hkeys env_mem (sn_db ?s) 3 [109] = Inr {|7|}" "{|7 :: hkey|} \<noteq> {||}"
    by (simp_all add: read_hkeys_def badger_get_def env_mem_def)
  have d: "\<exists>s1. DestroyDMap env_mem sorted_list_of_fset PrimaryDMapKey 3 [109] ?s = Ret (s1, None) \<and>
      sn_db s1 PrimaryDMapKey = None"
    using dmapKey_not_primary [of 3 "[109]"]
    by (simp add: DestroyDMap_def badger_get_def env_mem_def batch_flush_def UnregisterDMap_def
        part_logged_def empty_snapshot_def destroy_batch_ok [OF env_mem_ok, unfolded env_mem_def]
        apply_deletes)
  then obtain s1 where s1: "DestroyDMap env_mem sorted_list_of_fset PrimaryDMapKey 3 [109] ?s = Ret (s1, None)"
    "sn_db s1 PrimaryDMapKey = None" by blast
  from register_total [OF env_mem_ok s1(2)] obtain s2 i where
    s2: "RegisterDMap env_mem PrimaryDMapKey 3 [109] s1 = (s2, Inr i)" by blast
  have "length PrimaryDMapKey \<noteq> length (bkey h)" for h by (simp add: PrimaryDMapKey_def bkey_def)
  then have "PrimaryDMapKey \<notin> range bkey" by (metis imageE)
  from destroy_leaves_keys [OF env_mem_ok sorted_iter_ok H s1(1) s2 dmapKey_not_primary this, of os_ok]
  show ?thesis using s1(1) s2 by auto
qed

text \<open>A partition that was emptied once is never synced again: unregistering its last DMap stops
  the worker but keeps it in the table, so registering a DMap later starts no new one.\<close>

theorem worker_not_restarted:
  assumes "UnregisterDMap env dkey p n s = Ret (s1, None)" and "part_logged s p" and "\<not> part_logged s1 p"
    and "RegisterDMap env dkey' p n' s1 = (s2, Inr i)"
  shows "part_logged s2 p \<and> workers s2 p = Some False"
proof -
  have w: "workers s1 p = Some False"
    using assms(1-3)
    by (auto simp: UnregisterDMap_def Let_def part_logged_def split: if_splits prod.splits option.splits)
  moreover from assms(4) have "oplogs s2 = fmupd (p, n') (next_log s1) (oplogs s1)"
    "workers s2 = (case workers s1 p of None \<Rightarrow> (workers s1)(p \<mapsto> True) | Some w \<Rightarrow> workers s1)"
    by (auto simp: RegisterDMap_def split: prod.splits option.splits)
  ultimately show ?thesis by (auto simp: part_logged_def)
qed

theorem worker_not_restarted_witness:
  "\<exists>s s1 s2. RegisterDMap env_mem PrimaryDMapKey 3 [109] empty_snapshot = (s, Inr 0) \<and> workers s 3 = Some True \<and>
     UnregisterDMap env_mem PrimaryDMapKey 3 [109] s = Ret (s1, None) \<and>
     RegisterDMap env_mem PrimaryDMapKey 3 [110] s1 = (s2, Inr 1) \<and> workers s2 3 = Some False"
proof -
  let ?w = "\<lambda>D :: on_disk_dmaps. replicate (to_nat D) (0 :: byte)"
  let ?s = "\<lparr>sn_db = [PrimaryDMapKey \<mapsto> ?w {|(3, [109])|}], oplogs = fmupd (3, [109]) 0 fmempty,
    logs = (\<lambda>_. fmempty), next_log = 1, workers = [3 \<mapsto> True]\<rparr>"
  let ?s1 = "\<lparr>sn_db = [PrimaryDMapKey \<mapsto> ?w {||}], oplogs = fmempty, logs = (\<lambda>_. fmempty),
    next_log = 1, workers = [3 \<mapsto> False]\<rparr>"
  have s: "RegisterDMap env_mem PrimaryDMapKey 3 [109] empty_snapshot = (?s, Inr 0)"
    by (simp add: RegisterDMap_def registerOnBadger_def badger_get_def env_mem_def empty_snapshot_def fun_upd_idem)
  have s1: "UnregisterDMap env_mem PrimaryDMapKey 3 [109] ?s = Ret (?s1, None)"
    by (simp add: UnregisterDMap_def unregisterOnBadger_def badger_get_def env_mem_def part_logged_def
        fmdrop_fmupd_same)
  have s2: "\<exists>s2. RegisterDMap env_mem PrimaryDMapKey 3 [110] ?s1 = (s2, Inr 1)"
    by (simp add: RegisterDMap_def registerOnBadger_def badger_get_def env_mem_def)
  then obtain s2 where s2: "RegisterDMap env_mem PrimaryDMapKey 3 [110] ?s1 = (s2, Inr 1)" by blast
  have "part_logged ?s 3" "\<not> part_logged ?s1 3" by (simp_all add: part_logged_def)
  from worker_not_restarted [OF s1 this s2] s s1 s2 show ?thesis by auto
qed

end
