(* ===== verification/Protocol.thy ===== *)
theory Protocol
  imports Prelude
begin

text \<open>
  \<open>internal/protocol/protocol.go\<close>, the Olric Binary Protocol, and \<open>internal/bufpool\<close>: the
  header and message structures, \<open>Read\<close>, \<open>Write\<close>, and the constructors of responses. All
  integers keep their widths, so the truncations of \<open>Write\<close> are visible.

  A connection is the bytes still to arrive and the error its reader reports after them; a
  writer is a function from the bytes written to the error it reports.
\<close>

section \<open>Codes\<close>

definition MagicReq :: byte where "MagicReq = 0xE2"
definition MagicRes :: byte where "MagicRes = 0xE3"

datatype opcode =
    OpExPut | OpExPutEx | OpExGet | OpExDelete | OpExDestroy | OpExLockWithTimeout | OpExUnlock
  | OpExIncr | OpExDecr | OpExGetPut | OpUpdateRouting | OpPutBackup | OpDeletePrev | OpGetPrev
  | OpGetBackup | OpFindLock | OpLockPrev | OpUnlockPrev | OpDeleteBackup | OpDestroyDMap
  | OpMoveDMap | OpBackupMoveDMap | OpIsPartEmpty | OpIsBackupEmpty

definition opcodes :: "opcode list" where
  "opcodes =
     [OpExPut, OpExPutEx, OpExGet, OpExDelete, OpExDestroy, OpExLockWithTimeout, OpExUnlock,
      OpExIncr, OpExDecr, OpExGetPut, OpUpdateRouting, OpPutBackup, OpDeletePrev, OpGetPrev,
      OpGetBackup, OpFindLock, OpLockPrev, OpUnlockPrev, OpDeleteBackup, OpDestroyDMap,
      OpMoveDMap, OpBackupMoveDMap, OpIsPartEmpty, OpIsBackupEmpty]"

text \<open>The wire value of an operation is its position in the \<open>iota\<close> block.\<close>

primrec op_byte :: "opcode \<Rightarrow> byte" where
  "op_byte OpExPut = 0" | "op_byte OpExPutEx = 1" | "op_byte OpExGet = 2"
| "op_byte OpExDelete = 3" | "op_byte OpExDestroy = 4" | "op_byte OpExLockWithTimeout = 5"
| "op_byte OpExUnlock = 6" | "op_byte OpExIncr = 7" | "op_byte OpExDecr = 8"
| "op_byte OpExGetPut = 9" | "op_byte OpUpdateRouting = 10" | "op_byte OpPutBackup = 11"
| "op_byte OpDeletePrev = 12" | "op_byte OpGetPrev = 13" | "op_byte OpGetBackup = 14"
| "op_byte OpFindLock = 15" | "op_byte OpLockPrev = 16" | "op_byte OpUnlockPrev = 17"
| "op_byte OpDeleteBackup = 18" | "op_byte OpDestroyDMap = 19" | "op_byte OpMoveDMap = 20"
| "op_byte OpBackupMoveDMap = 21" | "op_byte OpIsPartEmpty = 22" | "op_byte OpIsBackupEmpty = 23"

definition op_of :: "byte \<Rightarrow> opcode option" where
  "op_of b = find (\<lambda>oc. op_byte oc = b) opcodes"

datatype status =
    StatusOK | StatusInternalServerError | StatusKeyNotFound | StatusNoSuchLock
  | StatusPartNotEmpty | StatusBackupNotEmpty

primrec status_byte :: "status \<Rightarrow> byte" where
  "status_byte StatusOK = 0"
| "status_byte StatusInternalServerError = 1"
| "status_byte StatusKeyNotFound = 2"
| "status_byte StatusNoSuchLock = 3"
| "status_byte StatusPartNotEmpty = 4"
| "status_byte StatusBackupNotEmpty = 5"

section \<open>Messages\<close>

definition headerSize :: nat where "headerSize = 12"

record header =
  Magic :: byte
  Op :: byte
  DMapLen :: "16 word"
  KeyLen :: "16 word"
  ExtraLen :: byte
  Status :: byte
  BodyLen :: "32 word"

text \<open>
  \<open>binary.Size\<close> of each extra is 8. The signed \<open>TTL\<close> is kept as its 64-bit pattern.
\<close>

datatype extra =
    LockWithTimeoutExtra "64 word"
  | PutExExtra "64 word"
  | IsPartEmptyExtra "64 word"

record message = header +
  Extra :: "extra option"
  DMap :: bytes
  Key :: bytes
  Value :: bytes

definition empty_message :: message where
  "empty_message =
     \<lparr>Magic = 0, Op = 0, DMapLen = 0, KeyLen = 0, ExtraLen = 0, Status = 0, BodyLen = 0,
      Extra = None, DMap = [], Key = [], Value = []\<rparr>"

section \<open>Error texts\<close>

primrec err_text :: "gerr \<Rightarrow> string" where
  "err_text ErrKeyTooLarge = ''key too large''"
| "err_text ErrNotEnoughSpace = ''not enough space''"
| "err_text ErrKeyNotFound = ''key not found''"
| "err_text ErrFragmented = ''storage fragmented''"
| "err_text ErrMmap = ''cannot allocate memory''"
| "err_text ErrMunmap = ''invalid argument''"
| "err_text ErrValueTooBig = ''value too big''"
| "err_text ErrConnClosed = ''connection closed''"
| "err_text ErrEOF = ''EOF''"
| "err_text ErrUnexpectedEOF = ''unexpected EOF''"
| "err_text ErrNoSuchLock = ''no such lock''"
| "err_text ErrOperationTimeout = ''operation timeout''"
| "err_text ErrInternalServerError = ''internal server error''"
| "err_text ErrPartNotEmpty = ''partition not empty''"
| "err_text ErrBackupNotEmpty = ''backup not empty''"
| "err_text ErrHostNotFound = ''host not found''"
| "err_text ErrInsufficientMemberCount = ''insufficient member count''"
| "err_text ErrLoaderDone = ''loader done''"
| "err_text ErrFirstRun = ''first run''"
| "err_text (ErrOther s) = s"

fun starts_with :: "'a list \<Rightarrow> 'a list \<Rightarrow> bool" where
  "starts_with [] s = True"
| "starts_with (c # p) [] = False"
| "starts_with (c # p) (d # s) = (c = d \<and> starts_with p s)"

fun strings_contains :: "'a list \<Rightarrow> 'a list \<Rightarrow> bool" where
  "strings_contains [] p = (p = [])"
| "strings_contains (c # s) p = (starts_with p (c # s) \<or> strings_contains s p)"

definition filterNetworkErrors :: "gerr \<Rightarrow> gerr" where
  "filterNetworkErrors e =
     (if strings_contains (err_text e) ''use of closed network connection'' then ErrConnClosed else e)"

section \<open>The buffer pool\<close>

text \<open>
  The buffers a pool holds. \<open>sync.Pool\<close> hands out any of them, or a new one; \<open>pick\<close> is its choice.
\<close>

type_synonym bufpool = "bytes list"

definition bufpool_Put :: "bufpool \<Rightarrow> bytes \<Rightarrow> bufpool" where
  "bufpool_Put p b = [] # p"

definition bufpool_Get :: "nat option \<Rightarrow> bufpool \<Rightarrow> bytes \<times> bufpool" where
  "bufpool_Get pick p =
     (case pick of
        Some i \<Rightarrow> if i < length p then (p ! i, take i p @ drop (Suc i) p) else ([], p)
      | None \<Rightarrow> ([], p))"

lemma bufpool_empty_buffers:
  assumes "set p \<subseteq> {[]}"
  shows "set (bufpool_Put p b) \<subseteq> {[]}" and "fst (bufpool_Get pick p) = []"
    and "set (snd (bufpool_Get pick p)) \<subseteq> {[]}"
proof -
  show "set (bufpool_Put p b) \<subseteq> {[]}" using assms by (simp add: bufpool_Put_def)
  have "i < length p \<Longrightarrow> p ! i = []" for i using assms by (meson nth_mem singletonD subsetD)
  then show "fst (bufpool_Get pick p) = []" by (simp add: bufpool_Get_def split: option.splits)
  show "set (snd (bufpool_Get pick p)) \<subseteq> {[]}"
    using assms by (auto simp: bufpool_Get_def split: option.splits dest: in_set_takeD in_set_dropD)
qed

section \<open>Reading\<close>

record conn =
  avail :: bytes
  rerr :: gerr

text \<open>\<open>io.CopyN\<close>: all \<open>n\<close> bytes, or what there is and the reader's error.\<close>

definition copyN :: "conn \<Rightarrow> nat \<Rightarrow> bytes \<times> conn \<times> gerr option" where
  "copyN c n =
     (take n (avail c), c\<lparr>avail := drop n (avail c)\<rparr>,
      if n \<le> length (avail c) then None else Some (rerr c))"

text \<open>\<open>bytes.Buffer.Next\<close> returns fewer bytes when the buffer has fewer.\<close>

definition buf_next :: "bytes \<Rightarrow> nat \<Rightarrow> bytes \<times> bytes" where
  "buf_next buf n = (take n buf, drop n buf)"

definition decode_header :: "bytes \<Rightarrow> message \<Rightarrow> message" where
  "decode_header h m =
     m\<lparr>Magic := h ! 0, Op := h ! 1, DMapLen := getUint16 (take 2 (drop 2 h)),
       KeyLen := getUint16 (take 2 (drop 4 h)), ExtraLen := h ! 6, Status := h ! 7,
       BodyLen := getUint32 (take 4 (drop 8 h))\<rparr>"

text \<open>\<open>binary.Read\<close> of an eight-byte structure: the value, zero on an error, and the error.\<close>

definition read_uint64 :: "bytes \<Rightarrow> 64 word \<times> gerr option" where
  "read_uint64 raw =
     (if 8 \<le> length raw then (getUint64 (take 8 raw), None)
      else (0, Some (if raw = [] then ErrEOF else ErrUnexpectedEOF)))"

definition read_extra :: "byte \<Rightarrow> bytes \<Rightarrow> extra option \<Rightarrow> extra option \<times> gerr option" where
  "read_extra op raw old =
     (let (v, e) = read_uint64 raw in
      if op = op_byte OpExPutEx then (Some (PutExExtra v), e)
      else if op = op_byte OpExLockWithTimeout \<or> op = op_byte OpLockPrev
        then (Some (LockWithTimeoutExtra v), e)
      else if op = op_byte OpIsPartEmpty \<or> op = op_byte OpIsBackupEmpty
        then (Some (IsPartEmptyExtra v), e)
      else (old, None))"

definition value_len :: "message \<Rightarrow> int" where
  "value_len m =
     int (unat (BodyLen m)) - int (unat (ExtraLen m)) - int (unat (KeyLen m)) - int (unat (DMapLen m))"

text \<open>
  The part of \<open>Read\<close> after the body has arrived. \<open>make\<close> with a negative length panics.
\<close>

definition read_body :: "message \<Rightarrow> bytes \<Rightarrow> (message \<times> gerr option) outcome" where
  "read_body m buf =
     (let (m1, buf1, e1) =
            (if Magic m = MagicReq \<and> ExtraLen m > 0 then
               (let (raw, rest) = buf_next buf (unat (ExtraLen m));
                    (x, e) = read_extra (Op m) raw (Extra m)
                in (m\<lparr>Extra := x\<rparr>, rest, e))
             else (m, buf, None))
      in case e1 of
           Some e \<Rightarrow> Ret (m1, Some e)
         | None \<Rightarrow>
             let (dm, buf2) = buf_next buf1 (unat (DMapLen m));
                 (k, buf3) = buf_next buf2 (unat (KeyLen m));
                 m2 = m1\<lparr>DMap := dm, Key := k\<rparr>;
                 vlen = value_len m
             in if vlen = 0 then Ret (m2, None)
                else if vlen < 0 then Panic
                else let v = take (nat vlen) buf3
                     in Ret (m2\<lparr>Value := v @ replicate (nat vlen - length v) 0\<rparr>, None))"

definition message_Read ::
  "int \<Rightarrow> message \<Rightarrow> conn \<Rightarrow> (message \<times> conn \<times> gerr option) outcome" where
  "message_Read MaxValueSize m c =
     (let (h, c1, e) = copyN c headerSize in
      case e of
        Some e \<Rightarrow> Ret (m, c1, Some (filterNetworkErrors e))
      | None \<Rightarrow>
          let m1 = decode_header h m in
          if Magic m1 \<noteq> MagicReq \<and> Magic m1 \<noteq> MagicRes
          then Ret (m1, c1, Some (ErrOther ''invalid message''))
          else if value_len m1 > MaxValueSize then Ret (m1, c1, Some ErrValueTooBig)
          else let (body, c2, e2) = copyN c1 (unat (BodyLen m1)) in
            case e2 of
              Some e \<Rightarrow> Ret (m1, c2, Some (filterNetworkErrors e))
            | None \<Rightarrow> map_ret (\<lambda>(m2, e). (m2, c2, e)) (read_body m1 body))"

section \<open>Writing\<close>

definition encode_header :: "message \<Rightarrow> bytes" where
  "encode_header m =
     [Magic m, Op m] @ putUint16 (DMapLen m) @ putUint16 (KeyLen m) @ [ExtraLen m, Status m] @
     putUint32 (BodyLen m)"

fun encode_extra :: "extra option \<Rightarrow> bytes" where
  "encode_extra None = []"
| "encode_extra (Some (LockWithTimeoutExtra t)) = putUint64 t"
| "encode_extra (Some (PutExExtra t)) = putUint64 t"
| "encode_extra (Some (IsPartEmptyExtra p)) = putUint64 p"

text \<open>The lengths \<open>Write\<close> stores in the header before encoding it.\<close>

definition set_lengths :: "message \<Rightarrow> message" where
  "set_lengths m =
     (let x = (if Extra m = None then ExtraLen m else word_of_nat (length (encode_extra (Extra m)))) in
      m\<lparr>DMapLen := word_of_nat (length (DMap m)), KeyLen := word_of_nat (length (Key m)),
        ExtraLen := x,
        BodyLen := word_of_nat (length (DMap m) + length (Key m) + length (Value m) + unat x)\<rparr>)"

definition message_bytes :: "message \<Rightarrow> bytes" where
  "message_bytes m =
     encode_header (set_lengths m) @ encode_extra (Extra m) @ DMap m @ Key m @ Value m"

definition message_Write :: "(bytes \<Rightarrow> gerr option) \<Rightarrow> message \<Rightarrow> message \<times> gerr option" where
  "message_Write wr m = (set_lengths m, map_option filterNetworkErrors (wr (message_bytes m)))"

section \<open>Responses\<close>

definition message_Error :: "message \<Rightarrow> status \<Rightarrow> string \<Rightarrow> message" where
  "message_Error m st txt =
     empty_message\<lparr>Magic := MagicRes, Op := Op m, Status := status_byte st, Value := string_bytes txt\<rparr>"

definition message_Success :: "message \<Rightarrow> message" where
  "message_Success m = empty_message\<lparr>Magic := MagicRes, Op := Op m, Status := status_byte StatusOK\<rparr>"

section \<open>Decoding what was encoded\<close>

lemma op_of_byte [simp]: "op_of (op_byte oc) = Some oc"
  by (cases oc) (simp_all add: op_of_def opcodes_def)

lemma op_byte_inject [simp]: "op_byte a = op_byte b \<longleftrightarrow> a = b"
  by (metis op_of_byte option.inject)

text \<open>The operations are ordered by their wire values, and there are finitely many.\<close>

instantiation opcode :: linorder
begin

definition less_eq_opcode :: "opcode \<Rightarrow> opcode \<Rightarrow> bool" where "less_eq_opcode a b \<longleftrightarrow> op_byte a \<le> op_byte b"
definition less_opcode :: "opcode \<Rightarrow> opcode \<Rightarrow> bool" where "less_opcode a b \<longleftrightarrow> op_byte a < op_byte b"

instance by standard (auto simp: less_eq_opcode_def less_opcode_def dest: order.antisym)

end

instantiation opcode :: enum
begin

definition enum_opcode :: "opcode list" where "enum_opcode = opcodes"
definition enum_all_opcode :: "(opcode \<Rightarrow> bool) \<Rightarrow> bool" where "enum_all_opcode P \<longleftrightarrow> list_all P opcodes"
definition enum_ex_opcode :: "(opcode \<Rightarrow> bool) \<Rightarrow> bool" where "enum_ex_opcode P \<longleftrightarrow> list_ex P opcodes"

instance
proof
  have all: "oc \<in> set opcodes" for oc by (cases oc) (simp_all add: opcodes_def)
  then show "(UNIV :: opcode set) = set enum_class.enum" by (auto simp: enum_opcode_def)
  show "distinct (enum_class.enum :: opcode list)" by (simp add: enum_opcode_def opcodes_def)
  show "enum_class.enum_all P \<longleftrightarrow> Ball UNIV P" for P :: "opcode \<Rightarrow> bool"
    using all by (auto simp: enum_all_opcode_def list_all_iff)
  show "enum_class.enum_ex P \<longleftrightarrow> Bex UNIV P" for P :: "opcode \<Rightarrow> bool"
    using all by (auto simp: enum_ex_opcode_def list_ex_iff)
qed

end

lemma opcodes_iota: "sorted opcodes" "i < length opcodes \<Longrightarrow> op_byte (opcodes ! i) = word_of_nat i"
proof -
  have ops: "map op_byte opcodes = map word_of_nat [0..<length opcodes]" by (simp add: opcodes_def upt_rec)
  show "op_byte (opcodes ! i) = word_of_nat i" if "i < length opcodes"
    using arg_cong [OF ops, of "\<lambda>l. l ! i"] that by simp
  show "sorted opcodes" by (simp add: opcodes_def less_eq_opcode_def)
qed

lemma op_of_Some_iff: "op_of b = Some oc \<longleftrightarrow> op_byte oc = b"
  using op_of_byte by (auto simp: op_of_def find_Some_iff)

lemma op_of_None_iff: "op_of b = None \<longleftrightarrow> 24 \<le> b"
proof -
  have "op_of b = None \<longleftrightarrow> b \<notin> set (map op_byte opcodes)" by (auto simp: op_of_def find_None_iff)
  also have "map op_byte opcodes = map word_of_nat [0..<24]" by (simp add: opcodes_def upt_rec)
  also have "b \<in> set (map word_of_nat [0..<24]) \<longleftrightarrow> unat b < 24"
    by (auto simp: unat_of_nat intro!: image_eqI [of b word_of_nat "unat b"])
  finally show ?thesis by (simp add: word_le_nat_alt not_less)
qed
lemma length_encode_header [simp, codec_simps]: "length (encode_header m) = headerSize"
  by (simp add: encode_header_def headerSize_def)

lemma length_2E:
  assumes "length xs = 2"
  obtains a b where "xs = [a, b]"
  using assms by (auto simp: numeral_2_eq_2 length_Suc_conv)

lemma decode_encode_header [codec_simps]:
  "decode_header (encode_header m) m0 =
     m0\<lparr>Magic := Magic m, Op := Op m, DMapLen := DMapLen m, KeyLen := KeyLen m,
        ExtraLen := ExtraLen m, Status := Status m, BodyLen := BodyLen m\<rparr>"
proof -
  obtain d0 d1 where d: "putUint16 (DMapLen m) = [d0, d1]"
    using length_2E [OF length_putUint(3)] by blast
  obtain k0 k1 where k: "putUint16 (KeyLen m) = [k0, k1]"
    using length_2E [OF length_putUint(3)] by blast
  have "getUint16 [d0, d1] = DMapLen m" "getUint16 [k0, k1] = KeyLen m"
    unfolding d [symmetric] k [symmetric] by simp_all
  then show ?thesis by (simp add: decode_header_def encode_header_def d k)
qed

text \<open>
  What a peer must not exceed for its message to be read back: the widths of the length fields
  and the value limit. An extra is read back only for the operations that declare one.
\<close>

definition wire_ok :: "int \<Rightarrow> message \<Rightarrow> bool" where
  "wire_ok maxv m \<longleftrightarrow>
     (Magic m = MagicReq \<or> Magic m = MagicRes) \<and>
     length (DMap m) < 2 ^ 16 \<and> length (Key m) < 2 ^ 16 \<and>
     length (DMap m) + length (Key m) + length (Value m) + 8 < 2 ^ 32 \<and>
     int (length (Value m)) \<le> maxv"

definition extra_ok :: "message \<Rightarrow> bool" where
  "extra_ok m \<longleftrightarrow>
     (case Extra m of
        None \<Rightarrow> ExtraLen m = 0
      | Some (PutExExtra _) \<Rightarrow> Magic m = MagicReq \<and> Op m = op_byte OpExPutEx
      | Some (LockWithTimeoutExtra _) \<Rightarrow>
          Magic m = MagicReq \<and> (Op m = op_byte OpExLockWithTimeout \<or> Op m = op_byte OpLockPrev)
      | Some (IsPartEmptyExtra _) \<Rightarrow>
          Magic m = MagicReq \<and> (Op m = op_byte OpIsPartEmpty \<or> Op m = op_byte OpIsBackupEmpty))"

lemma read_body_framed:
  assumes len: "unat (DMapLen m) = length d" "unat (KeyLen m) = length k"
      "unat (ExtraLen m) = length xb" "value_len m = int (length v)"
    and x: "if Magic m = MagicReq \<and> ExtraLen m > 0 then read_extra (Op m) xb (Extra m) = (x, None)
            else x = Extra m \<and> xb = []"
  shows "read_body m (xb @ d @ k @ v) =
    Ret (m\<lparr>Extra := x, DMap := d, Key := k, Value := if v = [] then Value m else v\<rparr>, None)"
proof (cases "Magic m = MagicReq \<and> ExtraLen m > 0")
  case True
  with x have "read_extra (Op m) xb (Extra m) = (x, None)" by simp
  with True len show ?thesis by (simp add: read_body_def buf_next_def Let_def)
next
  case False
  with x have "x = Extra m" "xb = []" by (simp_all only: if_False)
  moreover from this len(3) have "ExtraLen m = 0" by (simp add: unsigned_eq_0_iff)
  ultimately show ?thesis using len(1,2,4) by (simp add: read_body_def buf_next_def)
qed

lemma extra_length: "length (encode_extra x) = (if x = None then 0 else 8)"
  by (cases x rule: encode_extra.cases) simp_all

lemma set_lengths_unat:
  assumes "wire_ok maxv m" and "Extra m = None \<longrightarrow> ExtraLen m = 0"
  shows "unat (DMapLen (set_lengths m)) = length (DMap m)"
    and "unat (KeyLen (set_lengths m)) = length (Key m)"
    and "unat (ExtraLen (set_lengths m)) = length (encode_extra (Extra m))"
    and "unat (BodyLen (set_lengths m)) =
      length (encode_extra (Extra m)) + length (DMap m) + length (Key m) + length (Value m)"
    and "value_len (set_lengths m) = int (length (Value m))"
proof -
  have b: "length (DMap m) < 2 ^ 16" "length (Key m) < 2 ^ 16"
    "length (DMap m) + length (Key m) + length (Value m) + 8 < 2 ^ 32"
    using assms(1) by (simp_all add: wire_ok_def)
  show d: "unat (DMapLen (set_lengths m)) = length (DMap m)"
    using b(1) by (simp add: set_lengths_def Let_def unat_of_nat)
  show k: "unat (KeyLen (set_lengths m)) = length (Key m)"
    using b(2) by (simp add: set_lengths_def Let_def unat_of_nat)
  show x: "unat (ExtraLen (set_lengths m)) = length (encode_extra (Extra m))"
    using assms(2) by (simp add: set_lengths_def Let_def extra_length unat_of_nat)
  have "BodyLen (set_lengths m) = word_of_nat (length (DMap m) + length (Key m) + length (Value m) +
      unat (ExtraLen (set_lengths m)))" by (simp add: set_lengths_def Let_def)
  moreover have "length (DMap m) + length (Key m) + length (Value m) + length (encode_extra (Extra m)) < 2 ^ 32"
    using b(3) by (simp add: extra_length)
  ultimately show l: "unat (BodyLen (set_lengths m)) =
      length (encode_extra (Extra m)) + length (DMap m) + length (Key m) + length (Value m)"
    unfolding x by (simp only: unat_of_nat) simp
  show "value_len (set_lengths m) = int (length (Value m))"
    by (simp add: value_len_def d k x l)
qed

lemma set_lengths_sel [simp]:
  "Magic (set_lengths m) = Magic m" "Op (set_lengths m) = Op m" "Status (set_lengths m) = Status m"
  "Extra (set_lengths m) = Extra m" "DMap (set_lengths m) = DMap m" "Key (set_lengths m) = Key m"
  "Value (set_lengths m) = Value m"
  by (simp_all add: set_lengths_def Let_def)

definition with_header :: "message \<Rightarrow> message \<Rightarrow> message" where
  "with_header m0 m =
     m0\<lparr>Magic := Magic m, Op := Op m, DMapLen := DMapLen m, KeyLen := KeyLen m,
        ExtraLen := ExtraLen m, Status := Status m, BodyLen := BodyLen m\<rparr>"

lemma message_Read_frame:
  assumes ok: "wire_ok maxv m" and none: "Extra m = None \<longrightarrow> ExtraLen m = 0"
    and x: "if Magic m = MagicReq \<and> Extra m \<noteq> None
            then read_extra (Op m) (encode_extra (Extra m)) None = (x, None)
            else x = None \<and> Extra m = None"
  shows "message_Read maxv empty_message \<lparr>avail = message_bytes m @ rest, rerr = e\<rparr> =
    Ret ((set_lengths m)\<lparr>Extra := x\<rparr>, \<lparr>avail = rest, rerr = e\<rparr>, None)"
proof -
  let ?s = "set_lengths m"
  let ?m = "with_header empty_message ?s"
  note u = set_lengths_unat [OF ok none]
  have lens: "unat (DMapLen ?m) = length (DMap m)" "unat (KeyLen ?m) = length (Key m)"
    "unat (ExtraLen ?m) = length (encode_extra (Extra m))" "value_len ?m = int (length (Value m))"
    "unat (BodyLen ?m) = length (encode_extra (Extra m) @ DMap m @ Key m @ Value m)"
    using u by (simp_all add: with_header_def value_len_def)
  have pos: "ExtraLen ?s > 0 \<longleftrightarrow> Extra m \<noteq> None"
    using u(3) by (auto simp: extra_length word_gt_0 unsigned_eq_0_iff split: if_splits)
  have body: "read_body ?m (encode_extra (Extra m) @ DMap m @ Key m @ Value m) =
      Ret (?m\<lparr>Extra := x, DMap := DMap m, Key := Key m,
        Value := if Value m = [] then Value ?m else Value m\<rparr>, None)"
    using lens x pos
    by (intro read_body_framed) (auto simp: with_header_def empty_message_def)
  have magic: "Magic m = MagicReq \<or> Magic m = MagicRes" and big: "\<not> value_len ?m > maxv"
    using ok lens(4) by (auto simp: wire_ok_def)
  have hd: "decode_header (encode_header ?s) empty_message = ?m"
    by (simp add: decode_encode_header with_header_def)
  have "?m\<lparr>Extra := x, DMap := DMap m, Key := Key m, Value := if Value m = [] then Value ?m else Value m\<rparr> =
      ?s\<lparr>Extra := x\<rparr>"
    by (simp add: with_header_def empty_message_def)
  then show ?thesis
    using magic big lens(5) body
    by (simp add: message_Read_def copyN_def message_bytes_def Let_def hd with_header_def)
qed

lemma read_extra_encoded:
  assumes "extra_ok m" and "Extra m \<noteq> None"
  shows "read_extra (Op m) (encode_extra (Extra m)) None = (Extra m, None)"
  using assms
  by (auto simp: extra_ok_def read_extra_def read_uint64_def split: option.splits extra.splits)

lemma message_Read_truncated:
  assumes ok: "wire_ok maxv m" and none: "Extra m = None \<longrightarrow> ExtraLen m = 0"
    and n: "n < length (message_bytes m)"
  shows "\<exists>m' c'. message_Read maxv m0 \<lparr>avail = take n (message_bytes m), rerr = e\<rparr> =
    Ret (m', c', Some (filterNetworkErrors e))"
proof (cases "n < headerSize")
  case True
  then show ?thesis by (simp add: message_Read_def copyN_def Let_def)
next
  case False
  let ?s = "set_lengths m" and ?body = "encode_extra (Extra m) @ DMap m @ Key m @ Value m"
  let ?m = "with_header m0 ?s" and ?c = "\<lparr>avail = take (n - headerSize) ?body, rerr = e\<rparr>"
  note u = set_lengths_unat [OF ok none]
  have m1: "decode_header (encode_header ?s) m0 = ?m"
    by (simp add: decode_encode_header with_header_def)
  have ok1: "Magic ?m = MagicReq \<or> Magic ?m = MagicRes" "\<not> value_len ?m > maxv"
    "n - headerSize < unat (BodyLen ?m)"
    using ok u n False by (auto simp: wire_ok_def with_header_def value_len_def message_bytes_def)
  have "copyN \<lparr>avail = take n (message_bytes m), rerr = e\<rparr> headerSize = (encode_header ?s, ?c, None)"
    using False n by (simp add: copyN_def message_bytes_def)
  moreover have "\<exists>b c2. copyN ?c (unat (BodyLen ?m)) = (b, c2, Some e)"
    using ok1(3) by (simp add: copyN_def)
  ultimately show ?thesis using ok1(1,2) m1 by (auto simp: message_Read_def Let_def)
qed

lemma read_body_panics_iff:
  "read_body m buf = Panic \<longleftrightarrow> value_len m < 0 \<and>
     (Magic m = MagicReq \<and> ExtraLen m > 0 \<longrightarrow>
        snd (read_extra (Op m) (take (unat (ExtraLen m)) buf) (Extra m)) = None)"
proof (cases "Magic m = MagicReq \<and> ExtraLen m > 0")
  case True
  obtain x e where r: "read_extra (Op m) (take (unat (ExtraLen m)) buf) (Extra m) = (x, e)"
    by (cases "read_extra (Op m) (take (unat (ExtraLen m)) buf) (Extra m)")
  show ?thesis
    unfolding read_body_def if_P [OF True] buf_next_def Let_def prod.case r
    using True by (cases e) simp_all
next
  case False
  then show ?thesis unfolding read_body_def if_not_P [OF False] buf_next_def Let_def by auto
qed

section \<open>Sample messages\<close>

lemma message_Read_ok:
  assumes "wire_ok maxv m" and "extra_ok m"
  shows "message_Read maxv empty_message \<lparr>avail = message_bytes m @ rest, rerr = e\<rparr> =
    Ret (set_lengths m, \<lparr>avail = rest, rerr = e\<rparr>, None)"
proof -
  have "Extra m = None \<longrightarrow> ExtraLen m = 0" "Extra m \<noteq> None \<longrightarrow> Magic m = MagicReq"
    using assms(2) by (auto simp: extra_ok_def split: option.splits extra.splits)
  then show ?thesis
    using message_Read_frame [OF assms(1), of "Extra m" rest e] read_extra_encoded [OF assms(2)]
    by (cases "Extra m = None") simp_all
qed

definition sample_put :: message where
  "sample_put = empty_message\<lparr>Magic := MagicReq, Op := op_byte OpExPutEx,
     Extra := Some (PutExExtra 60), DMap := [109], Key := [107], Value := [1, 2]\<rparr>"

lemma sample_put_ok [simp]: "wire_ok 1024 sample_put" "extra_ok sample_put"
  by (simp_all add: wire_ok_def extra_ok_def sample_put_def empty_message_def)

definition sample_backup :: message where
  "sample_backup = sample_put\<lparr>Op := op_byte OpPutBackup\<rparr>"

section \<open>Properties\<close>

text \<open>C5. Round trip of the wire format: a message within the widths of its length fields, whose
  extra belongs to its operation, is read back exactly, with the rest of the stream untouched.\<close>

theorem message_roundtrip:
  assumes "wire_ok maxv m" and "extra_ok m"
  shows "message_Read maxv empty_message \<lparr>avail = message_bytes m @ rest, rerr = e\<rparr> =
    Ret (set_lengths m, \<lparr>avail = rest, rerr = e\<rparr>, None)"
  using assms by (rule message_Read_ok)

theorem message_roundtrip_witness:
  "message_Read 1024 empty_message \<lparr>avail = message_bytes sample_put @ [7], rerr = ErrEOF\<rparr> =
     Ret (set_lengths sample_put, \<lparr>avail = [7], rerr = ErrEOF\<rparr>, None) \<and>
   unat (BodyLen (set_lengths sample_put)) = 12"
  using message_roundtrip [OF sample_put_ok, of "[7]" ErrEOF]
  by (simp add: set_lengths_def sample_put_def empty_message_def unat_of_nat)

text \<open>A message that is cut off anywhere is never delivered: \<open>Read\<close> returns the connection's
  error, with a closed connection reported as such, and does not panic.\<close>

theorem message_truncated:
  assumes "wire_ok maxv m" and "extra_ok m" and "n < length (message_bytes m)"
  shows "\<exists>m' c'. message_Read maxv m0 \<lparr>avail = take n (message_bytes m), rerr = e\<rparr> =
    Ret (m', c', Some (filterNetworkErrors e))"
proof -
  have "Extra m = None \<longrightarrow> ExtraLen m = 0" using assms(2) by (auto simp: extra_ok_def)
  from message_Read_truncated [OF assms(1) this assms(3)] show ?thesis .
qed

theorem message_truncated_witness:
  "\<exists>m' c'. message_Read 1024 empty_message
     \<lparr>avail = take 20 (message_bytes sample_put), rerr = ErrOther ''read: use of closed network connection''\<rparr> =
   Ret (m', c', Some ErrConnClosed)"
proof -
  have n: "20 < length (message_bytes sample_put)"
    by (simp add: message_bytes_def headerSize_def extra_length) (simp add: sample_put_def)
  have "filterNetworkErrors (ErrOther ''read: use of closed network connection'') = ErrConnClosed"
    by (simp add: filterNetworkErrors_def)
  with message_truncated [OF sample_put_ok n] show ?thesis by metis
qed

text \<open>C26. The input on which \<open>Read\<close> panics: a complete header with a valid magic byte whose body
  length is smaller than the lengths of its parts, followed by that body. Twelve bytes are
  enough.\<close>

theorem message_Read_panics_iff:
  "message_Read maxv m c = Panic \<longleftrightarrow>
     headerSize \<le> length (avail c) \<and>
     (let m1 = decode_header (take headerSize (avail c)) m;
          body = take (unat (BodyLen m1)) (drop headerSize (avail c));
          raw = take (unat (ExtraLen m1)) body
      in (Magic m1 = MagicReq \<or> Magic m1 = MagicRes) \<and> value_len m1 < 0 \<and> value_len m1 \<le> maxv \<and>
         headerSize + unat (BodyLen m1) \<le> length (avail c) \<and>
         (Magic m1 = MagicReq \<and> ExtraLen m1 > 0 \<longrightarrow> snd (read_extra (Op m1) raw (Extra m1)) = None))"
proof (cases "headerSize \<le> length (avail c)")
  case True
  let ?m1 = "decode_header (take headerSize (avail c)) m"
  let ?c1 = "c\<lparr>avail := drop headerSize (avail c)\<rparr>"
  have "map_ret f x = Panic \<longleftrightarrow> x = Panic" for f :: "message \<times> gerr option \<Rightarrow> message \<times> conn \<times> gerr option" and x
    by (cases x) simp_all
  moreover have "copyN c headerSize = (take headerSize (avail c), ?c1, None)"
    using True by (simp add: copyN_def)
  moreover have "copyN ?c1 (unat (BodyLen ?m1)) =
      (take (unat (BodyLen ?m1)) (drop headerSize (avail c)),
       c\<lparr>avail := drop (unat (BodyLen ?m1)) (drop headerSize (avail c))\<rparr>,
       if headerSize + unat (BodyLen ?m1) \<le> length (avail c) then None else Some (rerr c))"
    using True by (auto simp: copyN_def)
  ultimately show ?thesis
    using True unfolding message_Read_def Let_def by (auto simp: read_body_panics_iff)
qed (simp add: message_Read_def copyN_def Let_def)

theorem message_Read_panics_iff_witness:
  "message_Read 1024 empty_message \<lparr>avail = [0xE2, 0, 0, 1, 0, 0, 0, 0, 0, 0, 0, 0], rerr = ErrEOF\<rparr> = Panic"
proof -
  let ?c = "\<lparr>avail = [0xE2, 0, 0, 1, 0, 0, 0, 0, 0, 0, 0, 0], rerr = ErrEOF\<rparr>"
  let ?m = "decode_header (take headerSize (avail ?c)) empty_message"
  have lens: "Magic ?m = MagicReq" "ExtraLen ?m = 0" "DMapLen ?m = 1" "KeyLen ?m = 0" "BodyLen ?m = 0"
    by (simp_all add: decode_header_def headerSize_def MagicReq_def getUint16_def getUint32_def be_get_def)
  then have "value_len ?m = - 1" by (simp add: value_len_def)
  then show ?thesis using lens
    by (subst message_Read_panics_iff) (simp add: Let_def headerSize_def)
qed



end
