(* ===== verification/Locker.thy ===== *)
theory Locker
  imports Prelude
begin

text \<open>
  \<open>locker.go\<close>: named locks with reference counting, and the watcher goroutine
  \<open>waitLockForTimeout\<close> of \<open>dmap_lock.go\<close>.

  A \<open>lockCtr\<close> outlives its entry in the table while a goroutine still points at it, so the
  state has a store of counters besides the table of names. A critical section under the
  locker's mutex is one step; \<open>lock\<close> has three: registering under the mutex, acquiring the
  counter's mutex, and the decrement after it.
\<close>

section \<open>Data\<close>

type_synonym name = bytes
type_synonym ctr_id = nat
type_synonym chan_id = nat

text \<open>\<open>lockCtr\<close>: its mutex, the number of waiters, and the channel of its next notification.\<close>

record lockCtr =
  held :: bool
  waiters :: int
  done_ch :: "chan_id option"

record locker =
  locks :: "name \<rightharpoonup> ctr_id"
  ctrs :: "ctr_id \<Rightarrow> lockCtr"
  next_ctr :: ctr_id
  next_ch :: chan_id
  closed_ch :: "chan_id set"

definition new_lockCtr :: lockCtr where
  "new_lockCtr = \<lparr>held = False, waiters = 0, done_ch = None\<rparr>"

definition newLocker :: locker where
  "newLocker = \<lparr>locks = Map.empty, ctrs = (\<lambda>_. new_lockCtr), next_ctr = 0, next_ch = 0, closed_ch = {}\<rparr>"

section \<open>Operations\<close>

definition ctr_inc :: "lockCtr \<Rightarrow> lockCtr" where "ctr_inc c = c\<lparr>waiters := waiters c + 1\<rparr>"
definition ctr_dec :: "lockCtr \<Rightarrow> lockCtr" where "ctr_dec c = c\<lparr>waiters := waiters c - 1\<rparr>"
definition ctr_count :: "lockCtr \<Rightarrow> int" where "ctr_count c = waiters c"

definition locker_length :: "locker \<Rightarrow> nat" where "locker_length l = card (dom (locks l))"
definition locker_check :: "locker \<Rightarrow> name \<Rightarrow> bool" where "locker_check l n \<longleftrightarrow> locks l n \<noteq> None"

text \<open>\<open>unlockNotifier\<close>: the current channel of the name's counter; \<open>nil\<close> for an unknown name.\<close>

definition unlockNotifier :: "locker \<Rightarrow> name \<Rightarrow> chan_id option" where
  "unlockNotifier l n = (case locks l n of None \<Rightarrow> None | Some c \<Rightarrow> done_ch (ctrs l c))"

text \<open>The first half of \<open>lock\<close>, under the locker's mutex: find or create, count, new channel.\<close>

definition lock_enter :: "locker \<Rightarrow> name \<Rightarrow> locker \<times> ctr_id" where
  "lock_enter l n =
     (let (l1, c) =
        (case locks l n of
           Some c \<Rightarrow> (l, c)
         | None \<Rightarrow>
             (l\<lparr>locks := (locks l)(n \<mapsto> next_ctr l), ctrs := (ctrs l)(next_ctr l := new_lockCtr),
                next_ctr := next_ctr l + 1\<rparr>, next_ctr l))
      in (l1\<lparr>ctrs := (ctrs l1)(c := (ctr_inc (ctrs l1 c))\<lparr>done_ch := Some (next_ch l1)\<rparr>),
             next_ch := next_ch l1 + 1\<rparr>, c))"

text \<open>The second half, outside: take the counter's mutex when it is free, then decrement.\<close>

definition lock_acquire :: "locker \<Rightarrow> ctr_id \<Rightarrow> locker" where
  "lock_acquire l c = l\<lparr>ctrs := (ctrs l)(c := (ctrs l c)\<lparr>held := True\<rparr>)\<rparr>"

definition lock_leave :: "locker \<Rightarrow> ctr_id \<Rightarrow> locker" where
  "lock_leave l c = l\<lparr>ctrs := (ctrs l)(c := ctr_dec (ctrs l c))\<rparr>"

text \<open>
  \<open>unlock\<close>. Unlocking a mutex that is not held is a fatal error of the Go runtime; closing a
  closed channel cannot happen because of the \<open>select\<close> before it, and a \<open>nil\<close> channel would
  panic on \<open>close\<close>.
\<close>

definition locker_unlock :: "locker \<Rightarrow> name \<Rightarrow> (locker \<times> gerr option) outcome" where
  "locker_unlock l n =
     (case locks l n of
        None \<Rightarrow> Ret (l, Some ErrNoSuchLock)
      | Some c \<Rightarrow>
          let l1 = (if ctr_count (ctrs l c) = 0 then l\<lparr>locks := (locks l)(n := None)\<rparr> else l) in
          if \<not> held (ctrs l1 c) then Panic
          else let l2 = l1\<lparr>ctrs := (ctrs l1)(c := (ctrs l1 c)\<lparr>held := False\<rparr>)\<rparr> in
            case done_ch (ctrs l2 c) of
              None \<Rightarrow> Panic
            | Some ch \<Rightarrow>
                if ch \<in> closed_ch l2 then Ret (l2, None)
                else Ret (l2\<lparr>closed_ch := insert ch (closed_ch l2)\<rparr>, None))"

section \<open>Goroutines\<close>

text \<open>
  Where a client goroutine is with a name: idle, inside \<open>lock\<close> before and after taking the
  mutex, or holding the lock after \<open>lock\<close> has returned.
\<close>

datatype client =
    Idle
  | Entered name ctr_id
  | Taken name ctr_id
  | Holding name ctr_id

record lock_sys =
  lk :: locker
  client :: "nat \<Rightarrow> client"
  crashed :: bool

definition lock_init :: lock_sys where
  "lock_init = \<lparr>lk = newLocker, client = (\<lambda>_. Idle), crashed = False\<rparr>"

text \<open>Clients that release exactly the locks they hold.\<close>

inductive lock_step :: "lock_sys \<Rightarrow> lock_sys \<Rightarrow> bool" where
  enter: "client s g = Idle \<Longrightarrow> lock_enter (lk s) n = (l, c) \<Longrightarrow>
     lock_step s (s\<lparr>lk := l, client := (client s)(g := Entered n c)\<rparr>)"
| acquire: "client s g = Entered n c \<Longrightarrow> \<not> held (ctrs (lk s) c) \<Longrightarrow>
     lock_step s (s\<lparr>lk := lock_acquire (lk s) c, client := (client s)(g := Taken n c)\<rparr>)"
| leave: "client s g = Taken n c \<Longrightarrow>
     lock_step s (s\<lparr>lk := lock_leave (lk s) c, client := (client s)(g := Holding n c)\<rparr>)"
| release: "client s g = Holding n c \<Longrightarrow> locker_unlock (lk s) n = Ret (l, e) \<Longrightarrow>
     lock_step s (s\<lparr>lk := l, client := (client s)(g := Idle)\<rparr>)"
| crash: "client s g = Holding n c \<Longrightarrow> locker_unlock (lk s) n = Panic \<Longrightarrow>
     lock_step s (s\<lparr>crashed := True\<rparr>)"

inductive lock_reach :: "lock_sys \<Rightarrow> bool" where
  lock_start: "lock_reach lock_init"
| lock_next: "lock_reach s \<Longrightarrow> lock_step s t \<Longrightarrow> lock_reach t"

section \<open>Invariant\<close>

fun uses :: "client \<Rightarrow> (name \<times> ctr_id) option" where
  "uses Idle = None"
| "uses (Entered n c) = Some (n, c)"
| "uses (Taken n c) = Some (n, c)"
| "uses (Holding n c) = Some (n, c)"

fun waiting :: "ctr_id \<Rightarrow> client \<Rightarrow> bool" where
  "waiting c (Entered n d) = (d = c)"
| "waiting c (Taken n d) = (d = c)"
| "waiting c _ = False"

fun owning :: "ctr_id \<Rightarrow> client \<Rightarrow> bool" where
  "owning c (Taken n d) = (d = c)"
| "owning c (Holding n d) = (d = c)"
| "owning c _ = False"

lemma waiting_uses: "waiting c x \<Longrightarrow> \<exists>n. uses x = Some (n, c)"
  by (cases "(c, x)" rule: waiting.cases) auto

lemma owning_uses: "owning c x \<Longrightarrow> \<exists>n. uses x = Some (n, c)"
  by (cases "(c, x)" rule: owning.cases) auto

lemma uses_cases: "uses x = Some (n, c) \<Longrightarrow> waiting c x \<or> x = Holding n c"
  by (cases x) auto

text \<open>
  The table names the counters in use and only those, injectively; a counter's mutex is held by
  exactly the one goroutine that owns it; its count is the number of goroutines inside \<open>lock\<close>.
\<close>

definition inv_table :: "lock_sys \<Rightarrow> bool" where
  "inv_table s \<longleftrightarrow>
     (\<forall>g n c. uses (client s g) = Some (n, c) \<longrightarrow> locks (lk s) n = Some c) \<and>
     (\<forall>n c. locks (lk s) n = Some c \<longrightarrow>
        c < next_ctr (lk s) \<and> done_ch (ctrs (lk s) c) \<noteq> None \<and>
        (\<exists>g. uses (client s g) = Some (n, c)) \<and> (\<forall>m. locks (lk s) m = Some c \<longrightarrow> m = n))"

definition inv_mutex :: "lock_sys \<Rightarrow> bool" where
  "inv_mutex s \<longleftrightarrow>
     (\<forall>c. held (ctrs (lk s) c) \<longleftrightarrow> (\<exists>g. owning c (client s g))) \<and>
     (\<forall>c g h. owning c (client s g) \<longrightarrow> owning c (client s h) \<longrightarrow> g = h)"

definition inv_count :: "lock_sys \<Rightarrow> bool" where
  "inv_count s \<longleftrightarrow>
     finite {g. client s g \<noteq> Idle} \<and>
     (\<forall>c. waiters (ctrs (lk s) c) = int (card {g. waiting c (client s g)}))"

definition lock_inv :: "lock_sys \<Rightarrow> bool" where
  "lock_inv s \<longleftrightarrow> inv_table s \<and> inv_mutex s \<and> inv_count s \<and> \<not> crashed s"

lemma lock_enter_eq:
  assumes "lock_enter l n = (l', c)"
  shows "c = (case locks l n of None \<Rightarrow> next_ctr l | Some c \<Rightarrow> c)"
    and "locks l' = (locks l)(n \<mapsto> c)"
    and "next_ctr l' = (if locks l n = None then next_ctr l + 1 else next_ctr l)"
    and "\<And>d. d \<noteq> c \<Longrightarrow> ctrs l' d = ctrs l d"
    and "held (ctrs l' c) = (locks l n \<noteq> None \<and> held (ctrs l c))"
    and "waiters (ctrs l' c) = (if locks l n = None then 0 else waiters (ctrs l c)) + 1"
    and "done_ch (ctrs l' c) \<noteq> None"
  using assms
  by (auto simp: lock_enter_def Let_def ctr_inc_def new_lockCtr_def fun_upd_idem split: option.splits)

lemma finite_waiting: "inv_count s \<Longrightarrow> finite {g. waiting c (client s g)}"
  by (rule finite_subset [of _ "{g. client s g \<noteq> Idle}"]) (auto simp: inv_count_def)

lemma card_update:
  assumes "finite {g. P (f g)}"
  shows "card {g. P ((f(g0 := x)) g)} + (if P (f g0) then 1 else 0) =
    card {g. P (f g)} + (if P x then 1 else 0)"
proof -
  let ?R = "{g. P (f g)} - {g0}"
  have "{g. P ((f(g0 := x)) g)} = (if P x then insert g0 ?R else ?R)" by auto
  moreover have "card {g. P (f g)} = card ?R + (if P (f g0) then 1 else 0)"
    using card.remove [OF assms, of g0] by auto
  moreover have "card (insert g0 ?R) = card ?R + 1" by (rule card_insert_disjoint [THEN trans]) (use assms in simp_all)
  ultimately show ?thesis by simp
qed

lemma unused_counter:
  assumes "inv_table s"
  shows "\<not> waiting (next_ctr (lk s)) (client s g)" and "\<not> owning (next_ctr (lk s)) (client s g)"
  using assms waiting_uses owning_uses unfolding inv_table_def by (metis less_irrefl)+

lemma waiting_card_update:
  assumes "inv_count s"
  shows "card {h. waiting c (((client s)(g := x)) h)} + (if waiting c (client s g) then 1 else 0) =
    card {h. waiting c (client s h)} + (if waiting c x then 1 else 0)"
  using finite_waiting [OF assms] by (rule card_update [where P = "waiting c"])

lemma finite_clients_update:
  "finite {g. client s g \<noteq> Idle} \<Longrightarrow> finite {h. ((client s)(g := x)) h \<noteq> Idle}"
  by (rule finite_subset [of _ "insert g {g. client s g \<noteq> Idle}"]) auto

lemma enter_other:
  assumes t: "inv_table s" and e: "lock_enter (lk s) n = (l, c)"
    and m: "locks (lk s) m = Some d" "m \<noteq> n"
  shows "d \<noteq> c"
proof (cases "locks (lk s) n")
  case None
  then have "c = next_ctr (lk s)" using lock_enter_eq(1) [OF e] by simp
  moreover have "d < next_ctr (lk s)" using t m(1) by (simp add: inv_table_def)
  ultimately show ?thesis by simp
next
  case (Some c')
  then have "locks (lk s) n = Some c" using lock_enter_eq(1) [OF e] by simp
  with t m show ?thesis unfolding inv_table_def by blast
qed

lemma enter_table:
  assumes t: "inv_table s" and idle: "client s g = Idle" and e: "lock_enter (lk s) n = (l, c)"
  shows "inv_table (s\<lparr>lk := l, client := (client s)(g := Entered n c)\<rparr>)" (is "inv_table ?s")
proof -
  note q = lock_enter_eq [OF e] and other = enter_other [OF t e]
  have used: "uses (client s h) = Some (m, d) \<Longrightarrow> locks (lk s) m = Some d" for h m d
    using t by (simp add: inv_table_def)
  have "locks l m = Some d" if "uses (client ?s h) = Some (m, d)" for h m d
  proof (cases "h = g")
    case False
    with that used have m: "locks (lk s) m = Some d" by simp
    then show ?thesis using q(1,2) by (cases "m = n") simp_all
  qed (use that q(2) in simp)
  moreover have "d < next_ctr l \<and> done_ch (ctrs l d) \<noteq> None \<and> (\<exists>g. uses (client ?s g) = Some (m, d)) \<and>
      (\<forall>m'. locks l m' = Some d \<longrightarrow> m' = m)" if m: "locks l m = Some d" for m d
  proof (cases "m = n")
    case True
    then have "d = c" using m q(2) by simp
    moreover have "c < next_ctr l"
      using t q(1,3) by (cases "locks (lk s) n") (simp_all add: inv_table_def)
    moreover have "uses (client ?s g) = Some (n, c)" by simp
    moreover have "m' = n" if "locks l m' = Some c" for m'
      using that other [of m' c] q(2) by (cases "m' = n") simp_all
    ultimately show ?thesis using True q(7) by blast
  next
    case False
    then have m0: "locks (lk s) m = Some d" using m q(2) by simp
    note d = other [OF m0 False]
    from t m0 obtain h where h: "d < next_ctr (lk s)" "done_ch (ctrs (lk s) d) \<noteq> None"
      "uses (client s h) = Some (m, d)" "\<forall>m'. locks (lk s) m' = Some d \<longrightarrow> m' = m"
      unfolding inv_table_def by blast
    have "uses (client ?s h) = Some (m, d)" using h(3) idle by (cases "h = g") simp_all
    moreover have "m' = m" if "locks l m' = Some d" for m'
      using that h(4) d q(2) by (cases "m' = n") simp_all
    moreover have "d < next_ctr l" "done_ch (ctrs l d) \<noteq> None" using h(1,2) q(3) q(4) [OF d] by simp_all
    ultimately show ?thesis by (intro conjI exI [of _ h] allI impI)
  qed
  moreover have lk: "lk ?s = l" by simp
  ultimately show ?thesis unfolding inv_table_def lk by blast
qed

lemma enter_inv:
  assumes inv: "lock_inv s" and idle: "client s g = Idle" and e: "lock_enter (lk s) n = (l, c)"
  shows "lock_inv (s\<lparr>lk := l, client := (client s)(g := Entered n c)\<rparr>)" (is "lock_inv ?s")
proof -
  note q = lock_enter_eq [OF e]
  have t: "inv_table s" and m: "inv_mutex s" and k: "inv_count s" and nc: "\<not> crashed s"
    using inv by (simp_all add: lock_inv_def)
  have own: "owning d (client ?s h) \<longleftrightarrow> owning d (client s h)" for d h
    using idle by (cases "h = g") simp_all
  have new: "locks (lk s) n = None \<Longrightarrow> \<not> owning c (client s h) \<and> \<not> waiting c (client s h)" for h
    using unused_counter [OF t] q(1) by simp
  have "held (ctrs l d) \<longleftrightarrow> (\<exists>h. owning d (client s h))" for d
    using m q(4) [of d] q(5) new by (cases "d = c") (auto simp: inv_mutex_def)
  then have "inv_mutex ?s" using m own by (simp add: inv_mutex_def)
  moreover have "waiters (ctrs l d) = int (card {h. waiting d (client ?s h)})" for d
    using waiting_card_update [OF k, of d g "Entered n c"] k idle q(4) [of d] q(6) new
    by (cases "d = c") (auto simp: inv_count_def)
  then have "inv_count ?s"
    using k finite_clients_update [of s g "Entered n c"] by (simp add: inv_count_def)
  ultimately show ?thesis using nc enter_table [OF t idle e] by (simp add: lock_inv_def)
qed

lemma acquire_inv:
  assumes inv: "lock_inv s" and g: "client s g = Entered n c" and free: "\<not> held (ctrs (lk s) c)"
  shows "lock_inv (s\<lparr>lk := lock_acquire (lk s) c, client := (client s)(g := Taken n c)\<rparr>)"
    (is "lock_inv ?s")
proof -
  have t: "inv_table s" and m: "inv_mutex s" and k: "inv_count s" and nc: "\<not> crashed s"
    using inv by (simp_all add: lock_inv_def)
  have u: "uses (client ?s h) = uses (client s h)" for h using g by simp
  have none: "\<not> owning c (client s h)" for h using m free by (auto simp: inv_mutex_def)
  have "inv_table ?s" using t unfolding inv_table_def u by (simp add: lock_acquire_def)
  moreover have o: "owning d (client ?s h) \<longleftrightarrow> h = g \<and> d = c \<or> owning d (client s h)" for d h
    using g by (cases "h = g") auto
  have hd: "held (ctrs (lk ?s) d) \<longleftrightarrow> d = c \<or> held (ctrs (lk s) d)" for d
    by (simp add: lock_acquire_def)
  have "inv_mutex ?s" using m none unfolding inv_mutex_def o hd by blast
  moreover have "{h. waiting d (client ?s h)} = {h. waiting d (client s h)}" for d using g by auto
  then have "inv_count ?s"
    using k finite_clients_update [of s g "Taken n c"] by (simp add: inv_count_def lock_acquire_def)
  ultimately show ?thesis using nc by (simp add: lock_inv_def)
qed

lemma leave_inv:
  assumes inv: "lock_inv s" and g: "client s g = Taken n c"
  shows "lock_inv (s\<lparr>lk := lock_leave (lk s) c, client := (client s)(g := Holding n c)\<rparr>)"
    (is "lock_inv ?s")
proof -
  have t: "inv_table s" and m: "inv_mutex s" and k: "inv_count s" and nc: "\<not> crashed s"
    using inv by (simp_all add: lock_inv_def)
  have u: "uses (client ?s h) = uses (client s h)" for h using g by simp
  have o: "owning d (client ?s h) = owning d (client s h)" for d h using g by simp
  have "inv_table ?s" using t unfolding inv_table_def u by (simp add: lock_leave_def ctr_dec_def)
  moreover have "inv_mutex ?s" using m unfolding inv_mutex_def o by (simp add: lock_leave_def ctr_dec_def)
  moreover have "int (card {h. waiting d (client ?s h)}) = waiters (ctrs (lk s) d) - (if d = c then 1 else 0)" for d
    using waiting_card_update [OF k, of d g "Holding n c"] k g
    by (auto simp: inv_count_def simp del: fun_upd_apply)
  then have "waiters (ctrs (lock_leave (lk s) c) d) = int (card {h. waiting d (client ?s h)})" for d
    by (simp add: lock_leave_def ctr_dec_def)
  then have "inv_count ?s"
    using k finite_clients_update [of s g "Holding n c"] by (simp add: inv_count_def)
  ultimately show ?thesis using nc by (simp add: lock_inv_def)
qed

lemma unlock_held:
  assumes inv: "lock_inv s" and g: "client s g = Holding n c"
  obtains l where "locker_unlock (lk s) n = Ret (l, None)"
    and "locks l = (if waiters (ctrs (lk s) c) = 0 then (locks (lk s))(n := None) else locks (lk s))"
    and "ctrs l = (ctrs (lk s))(c := (ctrs (lk s) c)\<lparr>held := False\<rparr>)" and "next_ctr l = next_ctr (lk s)"
proof -
  have c: "locks (lk s) n = Some c" using inv g unfolding lock_inv_def inv_table_def by (metis uses.simps(4))
  obtain ch where ch: "done_ch (ctrs (lk s) c) = Some ch" using inv c unfolding lock_inv_def inv_table_def by blast
  have "held (ctrs (lk s) c)" using inv g unfolding lock_inv_def inv_mutex_def by (metis owning.simps(2))
  with c ch show ?thesis
    by (intro that [of "(if waiters (ctrs (lk s) c) = 0 then (lk s)\<lparr>locks := (locks (lk s))(n := None)\<rparr> else lk s)
        \<lparr>ctrs := (ctrs (lk s))(c := (ctrs (lk s) c)\<lparr>held := False\<rparr>),
         closed_ch := insert ch (closed_ch (lk s))\<rparr>"])
      (auto simp: locker_unlock_def ctr_count_def Let_def insert_absorb)
qed

lemma release_table:
  assumes inv: "lock_inv s" and g: "client s g = Holding n c"
    and l: "locks l = (if waiters (ctrs (lk s) c) = 0 then (locks (lk s))(n := None) else locks (lk s))"
      "ctrs l = (ctrs (lk s))(c := (ctrs (lk s) c)\<lparr>held := False\<rparr>)" "next_ctr l = next_ctr (lk s)"
  shows "inv_table (s\<lparr>lk := l, client := (client s)(g := Idle)\<rparr>)" (is "inv_table ?s")
proof -
  have t: "inv_table s" and m: "inv_mutex s" and k: "inv_count s"
    using inv by (simp_all add: lock_inv_def)
  have c: "locks (lk s) n = Some c" using t g unfolding inv_table_def by (metis uses.simps(4))
  have zero: "waiters (ctrs (lk s) c) = 0 \<longleftrightarrow> (\<forall>h. \<not> waiting c (client s h))"
    using k finite_waiting [OF k, of c] by (auto simp: inv_count_def)
  have only: "h = g" if "client s h = Holding n c" for h
    using m that g unfolding inv_mutex_def by (metis owning.simps(2))
  have "locks l m = Some d" if u: "uses (client ?s h) = Some (m, d)" for h m d
  proof -
    have h: "h \<noteq> g" "uses (client s h) = Some (m, d)" using u by (cases "h = g", simp_all)+
    then have md: "locks (lk s) m = Some d" using t unfolding inv_table_def by blast
    show ?thesis
    proof (cases "m = n")
      case True
      with md c have "d = c" by simp
      with h True uses_cases [OF h(2)] only [of h] zero have "waiters (ctrs (lk s) c) \<noteq> 0" by auto
      with md show ?thesis using l(1) by simp
    qed (use md l(1) in simp)
  qed
  moreover have "\<exists>h. uses (client ?s h) = Some (m, d)" if u: "locks l m = Some d" for m d
  proof (cases "m = n")
    case True
    with u l(1) c have w: "waiters (ctrs (lk s) c) \<noteq> 0" "d = c" by (simp_all split: if_splits)
    with zero obtain h where h: "waiting c (client s h)" by blast
    then obtain m' where m': "uses (client s h) = Some (m', c)" using waiting_uses by blast
    with t c have "m' = n" unfolding inv_table_def by blast
    moreover have "h \<noteq> g" using h g by auto
    ultimately have "uses (client ?s h) = Some (m, d)" using m' w(2) True by simp
    then show ?thesis ..
  next
    case False
    then have "locks (lk s) m = Some d" using u l(1) by (simp split: if_splits)
    with t obtain h where h: "uses (client s h) = Some (m, d)" unfolding inv_table_def by blast
    with g False have "h \<noteq> g" by auto
    with h have "uses (client ?s h) = Some (m, d)" by simp
    then show ?thesis ..
  qed
  moreover have "d < next_ctr l \<and> done_ch (ctrs l d) \<noteq> None \<and> (\<forall>m'. locks l m' = Some d \<longrightarrow> m' = m)"
    if u: "locks l m = Some d" for m d
  proof -
    have sub: "locks l x = Some y \<Longrightarrow> locks (lk s) x = Some y" for x y using l(1) by (simp split: if_splits)
    with t u have "d < next_ctr (lk s)" "done_ch (ctrs (lk s) d) \<noteq> None" "\<forall>m'. locks l m' = Some d \<longrightarrow> m' = m"
      unfolding inv_table_def by blast+
    then show ?thesis using l(2,3) by (cases "d = c") simp_all
  qed
  moreover have lk: "lk ?s = l" by simp
  ultimately show ?thesis unfolding inv_table_def lk by blast
qed

lemma release_inv:
  assumes inv: "lock_inv s" and g: "client s g = Holding n c" and u: "locker_unlock (lk s) n = Ret (l, e)"
  shows "lock_inv (s\<lparr>lk := l, client := (client s)(g := Idle)\<rparr>)" (is "lock_inv ?s")
proof -
  obtain l' where l': "locker_unlock (lk s) n = Ret (l', None)"
    "locks l' = (if waiters (ctrs (lk s) c) = 0 then (locks (lk s))(n := None) else locks (lk s))"
    "ctrs l' = (ctrs (lk s))(c := (ctrs (lk s) c)\<lparr>held := False\<rparr>)" "next_ctr l' = next_ctr (lk s)"
    using unlock_held [OF inv g] by blast
  with u have l: "l = l'" by simp
  have m: "inv_mutex s" and k: "inv_count s" and nc: "\<not> crashed s" using inv by (simp_all add: lock_inv_def)
  have o: "owning d (client ?s h) \<longleftrightarrow> h \<noteq> g \<and> owning d (client s h)" for d h by (cases "h = g") simp_all
  have hd: "held (ctrs (lk ?s) d) \<longleftrightarrow> d \<noteq> c \<and> held (ctrs (lk s) d)" for d using l l'(3) by simp
  have "owning c (client s g)" "\<And>d. owning d (client s g) \<Longrightarrow> d = c" using g by simp_all
  then have "inv_mutex ?s" using m unfolding inv_mutex_def o hd by metis
  moreover have "{h. waiting d (client ?s h)} = {h. waiting d (client s h)}" for d using g by auto
  then have "inv_count ?s"
    using k l l'(3) finite_clients_update [of s g Idle] by (simp add: inv_count_def)
  ultimately show ?thesis
    using nc release_table [OF inv g l'(2-4)] l by (simp add: lock_inv_def)
qed

lemma lock_step_inv:
  assumes "lock_step s t" and "lock_inv s"
  shows "lock_inv t"
  using assms(1)
proof (cases rule: lock_step.cases)
  case (crash g n c)
  then show ?thesis using unlock_held [OF assms(2) crash(2)] by (metis outcome.distinct(1))
qed (use assms(2) enter_inv acquire_inv leave_inv release_inv in blast)+

lemma lock_reach_inv: "lock_reach s \<Longrightarrow> lock_inv s"
proof (induction rule: lock_reach.induct)
  case lock_start
  show ?case
    by (simp add: lock_inv_def inv_table_def inv_mutex_def inv_count_def lock_init_def newLocker_def
        new_lockCtr_def)
next
  case (lock_next s t)
  then show ?case by (blast intro: lock_step_inv)
qed

section \<open>Locks with a time limit\<close>

text \<open>
  \<open>lockKey\<close> starts a goroutine \<open>waitLockForTimeout\<close> for every lock it hands out: it fetches the
  name's notification channel, waits for that channel or the timer, and in the latter case calls
  \<open>unlock\<close>. The timer may fire at any moment.
\<close>

datatype watcher =
    NotStarted
  | Starting name
  | Watching name "chan_id option"
  | Notified
  | Fired

record timed_sys =
  sys :: lock_sys
  watch :: "nat \<Rightarrow> watcher"

definition timed_init :: timed_sys where
  "timed_init = \<lparr>sys = lock_init, watch = (\<lambda>_. NotStarted)\<rparr>"

inductive timed_step :: "timed_sys \<Rightarrow> timed_sys \<Rightarrow> bool" where
  by_client: "lock_step (sys s) t \<Longrightarrow> timed_step s (s\<lparr>sys := t\<rparr>)"
| start: "client (sys s) g = Holding n c \<Longrightarrow> watch s g = NotStarted \<Longrightarrow>
     timed_step s (s\<lparr>watch := (watch s)(g := Starting n)\<rparr>)"
| fetch: "watch s g = Starting n \<Longrightarrow>
     timed_step s (s\<lparr>watch := (watch s)(g := Watching n (unlockNotifier (lk (sys s)) n))\<rparr>)"
| notified: "watch s g = Watching n (Some ch) \<Longrightarrow> ch \<in> closed_ch (lk (sys s)) \<Longrightarrow>
     timed_step s (s\<lparr>watch := (watch s)(g := Notified)\<rparr>)"
| fire: "watch s g = Watching n ch \<Longrightarrow> locker_unlock (lk (sys s)) n = Ret (l, e) \<Longrightarrow>
     timed_step s (s\<lparr>sys := (sys s)\<lparr>lk := l\<rparr>, watch := (watch s)(g := Fired)\<rparr>)"
| fire_crash: "watch s g = Watching n ch \<Longrightarrow> locker_unlock (lk (sys s)) n = Panic \<Longrightarrow>
     timed_step s (s\<lparr>sys := (sys s)\<lparr>crashed := True\<rparr>\<rparr>)"

inductive timed_reach :: "timed_sys \<Rightarrow> bool" where
  timed_start: "timed_reach timed_init"
| timed_next: "timed_reach s \<Longrightarrow> timed_step s t \<Longrightarrow> timed_reach t"

text \<open>Runs as lists of actions, to compute reachable states.\<close>

datatype action = AEnter nat name | AAcquire nat | ALeave nat | ARelease nat | AStart nat | AFetch nat
  | ANotified nat | AFire nat

fun act :: "action \<Rightarrow> timed_sys \<Rightarrow> timed_sys option" where
  "act (AEnter g n) s =
     (if client (sys s) g = Idle then
        (let (l, c) = lock_enter (lk (sys s)) n in
         Some (s\<lparr>sys := (sys s)\<lparr>lk := l, client := (client (sys s))(g := Entered n c)\<rparr>\<rparr>))
      else None)"
| "act (AAcquire g) s =
     (case client (sys s) g of
        Entered n c \<Rightarrow>
          if held (ctrs (lk (sys s)) c) then None
          else Some (s\<lparr>sys := (sys s)\<lparr>lk := lock_acquire (lk (sys s)) c,
                                       client := (client (sys s))(g := Taken n c)\<rparr>\<rparr>)
      | _ \<Rightarrow> None)"
| "act (ALeave g) s =
     (case client (sys s) g of
        Taken n c \<Rightarrow> Some (s\<lparr>sys := (sys s)\<lparr>lk := lock_leave (lk (sys s)) c,
                                            client := (client (sys s))(g := Holding n c)\<rparr>\<rparr>)
      | _ \<Rightarrow> None)"
| "act (ARelease g) s =
     (case client (sys s) g of
        Holding n c \<Rightarrow>
          (case locker_unlock (lk (sys s)) n of
             Ret (l, e) \<Rightarrow> Some (s\<lparr>sys := (sys s)\<lparr>lk := l, client := (client (sys s))(g := Idle)\<rparr>\<rparr>)
           | Panic \<Rightarrow> None)
      | _ \<Rightarrow> None)"
| "act (AStart g) s =
     (case client (sys s) g of
        Holding n c \<Rightarrow> if watch s g = NotStarted then Some (s\<lparr>watch := (watch s)(g := Starting n)\<rparr>) else None
      | _ \<Rightarrow> None)"
| "act (AFetch g) s =
     (case watch s g of
        Starting n \<Rightarrow> Some (s\<lparr>watch := (watch s)(g := Watching n (unlockNotifier (lk (sys s)) n))\<rparr>)
      | _ \<Rightarrow> None)"
| "act (ANotified g) s =
     (case watch s g of
        Watching n (Some ch) \<Rightarrow>
          if ch \<in> closed_ch (lk (sys s)) then Some (s\<lparr>watch := (watch s)(g := Notified)\<rparr>) else None
      | _ \<Rightarrow> None)"
| "act (AFire g) s =
     (case watch s g of
        Watching n ch \<Rightarrow>
          (case locker_unlock (lk (sys s)) n of
             Ret (l, e) \<Rightarrow> Some (s\<lparr>sys := (sys s)\<lparr>lk := l\<rparr>, watch := (watch s)(g := Fired)\<rparr>)
           | Panic \<Rightarrow> None)
      | _ \<Rightarrow> None)"

lemma act_step: "act a s = Some t \<Longrightarrow> timed_step s t"
  by (cases a)
    (auto split: if_splits client.splits watcher.splits outcome.splits option.splits prod.splits
      intro: timed_step.intros lock_step.intros)

fun acts :: "action list \<Rightarrow> timed_sys \<Rightarrow> timed_sys option" where
  "acts [] s = Some s"
| "acts (a # as) s = (case act a s of None \<Rightarrow> None | Some t \<Rightarrow> acts as t)"

lemma acts_reach: "acts as s = Some t \<Longrightarrow> timed_reach s \<Longrightarrow> timed_reach t"
  by (induction as arbitrary: s) (simp, metis act_step acts.simps(2) option.case_eq_if option.collapse timed_next)

section \<open>Properties\<close>

text \<open>C6. Named locks exclude each other: in every interleaving of goroutines that release what
  they hold, two goroutines never hold the same name, no unlock fails or brings the runtime
  down, and a name is in the table exactly while some goroutine uses it.\<close>

theorem lock_exclusion:
  assumes "lock_reach s"
  shows "\<not> crashed s \<and>
    (\<forall>g h n c d. client s g = Holding n c \<longrightarrow> client s h = Holding n d \<longrightarrow> g = h) \<and>
    (\<forall>n. locker_check (lk s) n \<longleftrightarrow> (\<exists>g c. uses (client s g) = Some (n, c)))"
proof -
  have t: "inv_table s" and m: "inv_mutex s" and nc: "\<not> crashed s"
    using lock_reach_inv [OF assms] by (simp_all add: lock_inv_def)
  have "g = h" if "client s g = Holding n c" "client s h = Holding n d" for g h n c d
  proof -
    have "locks (lk s) n = Some c" "locks (lk s) n = Some d"
      using t that unfolding inv_table_def by (metis uses.simps(4))+
    then have "c = d" by simp
    with that have "owning c (client s g)" "owning c (client s h)" by simp_all
    with m show ?thesis unfolding inv_mutex_def by blast
  qed
  moreover have "locker_check (lk s) n \<longleftrightarrow> (\<exists>g c. uses (client s g) = Some (n, c))" for n
    using t unfolding inv_table_def locker_check_def by blast
  ultimately show ?thesis using nc by blast
qed

theorem lock_exclusion_witness:
  "\<exists>s. lock_reach s \<and> locker_check (lk s) [1] \<and> client s 0 = Entered [1] 0"
proof -
  let ?l = "fst (lock_enter newLocker [1])"
  let ?s = "lock_init\<lparr>lk := ?l, client := (client lock_init)(0 := Entered [1] 0)\<rparr>"
  have e: "lock_enter (lk lock_init) [1] = (?l, 0)"
    by (simp add: lock_enter_def lock_init_def newLocker_def Let_def)
  have r: "lock_reach ?s"
    by (rule lock_next [OF lock_start], rule enter [OF _ e]) (simp add: lock_init_def)
  have u: "client ?s 0 = Entered [1] 0" by simp
  then have "uses (client ?s 0) = Some ([1], 0)" by (simp only: uses.simps)
  with lock_exclusion [OF r] have "locker_check (lk ?s) [1]" by blast
  with r u show ?thesis by blast
qed

text \<open>C28. No goroutine is stuck in \<open>lock\<close>: when it waits for a counter's mutex, it can take it, or
  the goroutine that owns it can take its own next step.\<close>

theorem lock_progress:
  assumes "lock_reach s" and "client s g = Entered n c"
  shows "(\<exists>t. lock_step s t \<and> client t g = Taken n c) \<or>
    (\<exists>h t. owning c (client s h) \<and> lock_step s t \<and> client t h \<noteq> client s h)"
proof (cases "held (ctrs (lk s) c)")
  case False
  let ?t = "s\<lparr>lk := lock_acquire (lk s) c, client := (client s)(g := Taken n c)\<rparr>"
  have "lock_step s ?t" "client ?t g = Taken n c" using acquire [OF assms(2) False] by simp_all
  then show ?thesis by blast
next
  case True
  have inv: "lock_inv s" by (rule lock_reach_inv [OF assms(1)])
  then obtain h where h: "owning c (client s h)" using True by (auto simp: lock_inv_def inv_mutex_def)
  then consider m where "client s h = Taken m c" | m where "client s h = Holding m c"
    by (cases "(c, client s h)" rule: owning.cases) auto
  then have "\<exists>t. lock_step s t \<and> client t h \<noteq> client s h"
  proof cases
    case 1
    let ?t = "s\<lparr>lk := lock_leave (lk s) c, client := (client s)(h := Holding m c)\<rparr>"
    have "lock_step s ?t" "client ?t h \<noteq> client s h" using leave [OF 1] 1 by simp_all
    then show ?thesis by blast
  next
    case 2
    with unlock_held [OF inv] obtain l where "locker_unlock (lk s) m = Ret (l, None)" by metis
    from release [OF 2 this] 2
    have "lock_step s (s\<lparr>lk := l, client := (client s)(h := Idle)\<rparr>)"
      "client (s\<lparr>lk := l, client := (client s)(h := Idle)\<rparr>) h \<noteq> client s h" by simp_all
    then show ?thesis by blast
  qed
  with h show ?thesis by blast
qed

theorem lock_progress_witness:
  "\<exists>s t. lock_reach s \<and> client s 0 = Entered [1] 0 \<and> lock_step s t"
proof -
  let ?l = "fst (lock_enter newLocker [1])"
  let ?s = "lock_init\<lparr>lk := ?l, client := (client lock_init)(0 := Entered [1] 0)\<rparr>"
  have e: "lock_enter (lk lock_init) [1] = (?l, 0)"
    by (simp add: lock_enter_def lock_init_def newLocker_def Let_def)
  have r: "lock_reach ?s"
    by (rule lock_next [OF lock_start], rule enter [OF _ e]) (simp add: lock_init_def)
  have c: "client ?s 0 = Entered [1] 0" by simp
  from lock_progress [OF r c] r c show ?thesis by blast
qed

text \<open>C29. The time limit breaks the exclusion: a reachable state has two goroutines holding the
  same name. A waiter replaces the notification channel, so the first holder's release wakes the
  waiter's watcher instead of its own; its own watcher then fires and releases the lock of the
  second holder, whose watcher has already gone.\<close>

theorem timed_lock_shared:
  "\<exists>s c d. timed_reach s \<and> client (sys s) 2 = Holding [1] c \<and> client (sys s) 3 = Holding [1] d \<and>
     watch s 1 = Fired \<and> watch s 2 = Notified"
proof -
  define as where "as =
    [AEnter 1 [1], AAcquire 1, ALeave 1, AStart 1, AFetch 1, AEnter 2 [1], ARelease 1, AAcquire 2,
     ALeave 2, AStart 2, AFetch 2, ANotified 2, AFire 1, AEnter 3 [1], AAcquire 3, ALeave 3]"
  have "\<exists>s c d. acts as timed_init = Some s \<and> client (sys s) 2 = Holding [1] c \<and>
      client (sys s) 3 = Holding [1] d \<and> watch s 1 = Fired \<and> watch s 2 = Notified"
    by (simp add: as_def timed_init_def lock_init_def newLocker_def new_lockCtr_def lock_enter_def
        lock_acquire_def lock_leave_def locker_unlock_def unlockNotifier_def ctr_inc_def ctr_dec_def
        ctr_count_def Let_def)
  then show ?thesis using acts_reach [OF _ timed_start] by blast
qed

end
