(* ===== verification/Consistent.thy ===== *)
theory Consistent
  imports Prelude Complex_Main
begin

text \<open>
  \<open>vendor/github.com/buraksezer/consistent/consistent.go\<close>: the hash ring that places the partitions. Every member
  has \<open>ReplicationFactor\<close> slots on the ring; a partition belongs to the first member at or
  after the hash of its number that is not full yet. The members are the hosts of \<open>discovery.go\<close>.

  \<open>hash\<close> is the hasher of the configuration, \<open>iter\<close> the iteration order of a Go map with string keys. The
  loads, whole numbers kept as \<open>float64\<close>, are natural numbers, and the load factor is a rational whose product with
  a whole number is exact, as it is for the default 1.25.
\<close>

section \<open>Data\<close>

record host =
  hName :: bytes
  hBirthdate :: int

definition host_String :: "host \<Rightarrow> bytes" where "host_String m = hName m"

definition hostCmp :: "host \<Rightarrow> host \<Rightarrow> bool" where
  "hostCmp o1 o2 \<longleftrightarrow> hName o1 = hName o2 \<and> hBirthdate o1 = hBirthdate o2"

lemma hostCmp_eq: "hostCmp a b \<longleftrightarrow> a = b"
  by (cases a; cases b) (simp add: hostCmp_def)

record consistent =
  cs_partitionCount :: "64 word"
  cs_ReplicationFactor :: nat
  cs_Load :: rat
  cs_sortedSet :: "64 word list"
  cs_loads :: "(bytes, nat) fmap"
  cs_members :: "(bytes, host) fmap"
  cs_partitions :: "(64 word, host) fmap"
  cs_ring :: "(64 word, host) fmap"

text \<open>\<open>New\<close> without members.\<close>

definition consistent_New :: "64 word \<Rightarrow> nat \<Rightarrow> rat \<Rightarrow> consistent" where
  "consistent_New partitionCount rf ld =
     \<lparr>cs_partitionCount = partitionCount, cs_ReplicationFactor = rf, cs_Load = ld, cs_sortedSet = [],
      cs_loads = fmempty, cs_members = fmempty, cs_partitions = fmempty, cs_ring = fmempty\<rparr>"

section \<open>sort.Search\<close>

function search_loop :: "(nat \<Rightarrow> bool) \<Rightarrow> nat \<Rightarrow> nat \<Rightarrow> nat" where
  "search_loop f i j =
     (if i < j then let h = (i + j) div 2 in if \<not> f h then search_loop f (h + 1) j else search_loop f i h else i)"
  by auto

termination
  by (relation "measure (\<lambda>(f, i, j). j - i)") auto

declare search_loop.simps [simp del]

definition sort_Search :: "nat \<Rightarrow> (nat \<Rightarrow> bool) \<Rightarrow> nat" where
  "sort_Search n f = search_loop f 0 n"

text \<open>It finds the first index from which on a monotone predicate holds.\<close>

lemma search_loop_first:
  assumes "i \<le> j" and "\<forall>a b. a \<le> b \<and> b < n \<and> f a \<longrightarrow> f b" and "j \<le> n"
    and "\<forall>k < i. \<not> f k" and "\<forall>k. j \<le> k \<and> k < n \<longrightarrow> f k"
  shows "search_loop f i j \<le> n \<and> (\<forall>k < search_loop f i j. \<not> f k) \<and>
    (\<forall>k. search_loop f i j \<le> k \<and> k < n \<longrightarrow> f k)"
  using assms
proof (induction f i j rule: search_loop.induct)
  case (1 f i j)
  show ?case
  proof (cases "i < j")
    case False
    with "1.prems" show ?thesis by (simp add: search_loop.simps)
  next
    case True
    define h where "h = (i + j) div 2"
    have h: "i \<le> h" "h < j" using True by (simp_all add: h_def)
    note step = search_loop.simps [of f i j, unfolded Let_def, folded h_def]
    show ?thesis
    proof (cases "f h")
      case True
      have "\<forall>k. h \<le> k \<and> k < n \<longrightarrow> f k" using "1.prems"(2) True by blast
      from "1.IH"(2) [OF \<open>i < j\<close> h_def _ h(1) "1.prems"(2) _ "1.prems"(4) this] True h "1.prems"(3) \<open>i < j\<close>
      show ?thesis by (simp add: step)
    next
      case False
      have "\<not> f k" if "k < h + 1" for k
      proof
        assume "f k"
        moreover have "k \<le> h" "h < n" using that h "1.prems"(3) by simp_all
        ultimately show False using False "1.prems"(2) by blast
      qed
      with "1.IH"(1) [OF \<open>i < j\<close> h_def False _ "1.prems"(2,3) _ "1.prems"(5)] h False \<open>i < j\<close>
      show ?thesis by (simp add: step)
    qed
  qed
qed

lemma sort_Search_sorted:
  assumes "sorted xs"
  shows "sort_Search (length xs) (\<lambda>i. key \<le> xs ! i) = length (takeWhile (\<lambda>x. x < key) xs)"
proof -
  let ?f = "\<lambda>i. key \<le> xs ! i" and ?t = "length (takeWhile (\<lambda>x. x < key) xs)"
  define r where "r = sort_Search (length xs) ?f"
  have "?f b" if "a \<le> b" "b < length xs" "?f a" for a b
    using sorted_nth_mono [OF assms that(1,2)] that(3) by simp
  then have mono: "\<forall>a b. a \<le> b \<and> b < length xs \<and> ?f a \<longrightarrow> ?f b" by blast
  have "\<forall>k < 0. \<not> ?f k" "\<forall>k. length xs \<le> k \<and> k < length xs \<longrightarrow> ?f k" by auto
  from search_loop_first [OF le0 mono order_refl this]
  have r: "r \<le> length xs" "\<forall>k < r. \<not> ?f k" "\<forall>k. r \<le> k \<and> k < length xs \<longrightarrow> ?f k"
    unfolding r_def sort_Search_def by blast+
  have tl: "?t \<le> length xs" by (rule length_takeWhile_le)
  have low: "xs ! k < key" if "k < ?t" for k
  proof -
    have "xs ! k = takeWhile (\<lambda>x. x < key) xs ! k" using that by (simp add: takeWhile_nth)
    also have "\<dots> \<in> set (takeWhile (\<lambda>x. x < key) xs)" using that by (rule nth_mem)
    finally show ?thesis by (rule set_takeWhileD [THEN conjunct2])
  qed
  have high: "\<not> xs ! ?t < key" if "?t < length xs" using nth_length_takeWhile [OF that] .
  have "\<not> r < ?t"
  proof
    assume "r < ?t"
    then show False using r(3) low [of r] tl by fastforce
  qed
  moreover have "\<not> ?t < r"
  proof
    assume "?t < r"
    then show False using r(1,2) high by fastforce
  qed
  ultimately have "r = ?t" by simp
  then show ?thesis by (simp add: r_def)
qed

section \<open>Placing the partitions\<close>

text \<open>The division is that of \<open>uint64\<close>, and panics without members.\<close>

definition AverageLoad :: "consistent \<Rightarrow> int outcome" where
  "AverageLoad c =
     (if fcard (fmdom (cs_members c)) = 0 then Panic
      else Ret \<lceil>of_nat (unat (cs_partitionCount c) div fcard (fmdom (cs_members c))) * cs_Load c\<rceil>)"

definition load_of :: "(bytes, nat) fmap \<Rightarrow> bytes \<Rightarrow> nat" where
  "load_of loads name = (case fmlookup loads name of None \<Rightarrow> 0 | Some l \<Rightarrow> l)"

text \<open>The loop of \<open>distributeWithLoad\<close>, which looks at one slot less than there are before it gives up.\<close>

fun place :: "consistent \<Rightarrow> int \<Rightarrow> nat \<Rightarrow> nat \<Rightarrow> (bytes, nat) fmap \<Rightarrow> host outcome" where
  "place c avg 0 idx loads = Panic"
| "place c avg (Suc k) idx loads =
     (case fmlookup (cs_ring c) (cs_sortedSet c ! idx) of
        None \<Rightarrow> Panic
      | Some m \<Rightarrow>
          if int (load_of loads (host_String m)) + 1 \<le> avg then Ret m
          else place c avg k (if idx + 1 \<ge> length (cs_sortedSet c) then 0 else idx + 1) loads)"

definition distributeWithLoad ::
  "consistent \<Rightarrow> 64 word \<Rightarrow> nat \<Rightarrow> (64 word, host) fmap \<Rightarrow> (bytes, nat) fmap \<Rightarrow>
   ((64 word, host) fmap \<times> (bytes, nat) fmap) outcome" where
  "distributeWithLoad c pid idx partitions loads =
     bind_outcome (AverageLoad c) (\<lambda>avg.
     bind_outcome (place c avg (length (cs_sortedSet c) - 1) idx loads) (\<lambda>m.
     Ret (fmupd pid m partitions, fmupd (host_String m) (load_of loads (host_String m) + 1) loads)))"

text \<open>\<open>binary.LittleEndian.PutUint64\<close>\<close>

definition le_putUint64 :: "64 word \<Rightarrow> bytes" where "le_putUint64 x = rev (putUint64 x)"

definition start_slot :: "(bytes \<Rightarrow> 64 word) \<Rightarrow> consistent \<Rightarrow> 64 word \<Rightarrow> nat" where
  "start_slot hash c pid =
     (let key = hash (le_putUint64 pid);
          idx = sort_Search (length (cs_sortedSet c)) (\<lambda>i. cs_sortedSet c ! i \<ge> key)
      in if idx \<ge> length (cs_sortedSet c) then 0 else idx)"

fun distribute_slots ::
  "(bytes \<Rightarrow> 64 word) \<Rightarrow> consistent \<Rightarrow> 64 word list \<Rightarrow> (64 word, host) fmap \<Rightarrow> (bytes, nat) fmap \<Rightarrow>
   ((64 word, host) fmap \<times> (bytes, nat) fmap) outcome" where
  "distribute_slots hash c [] partitions loads = Ret (partitions, loads)"
| "distribute_slots hash c (pid # pids) partitions loads =
     bind_outcome (distributeWithLoad c pid (start_slot hash c pid) partitions loads) (\<lambda>(partitions, loads).
     distribute_slots hash c pids partitions loads)"

definition ring_parts :: "consistent \<Rightarrow> 64 word list" where
  "ring_parts c = map word_of_nat [0..<unat (cs_partitionCount c)]"

definition consistent_distribute :: "(bytes \<Rightarrow> 64 word) \<Rightarrow> consistent \<Rightarrow> consistent outcome" where
  "consistent_distribute hash c =
     bind_outcome (distribute_slots hash c (ring_parts c) fmempty fmempty) (\<lambda>(partitions, loads).
     Ret (c\<lparr>cs_partitions := partitions, cs_loads := loads\<rparr>))"

section \<open>Members\<close>

text \<open>\<open>fmt.Sprintf("%s%d", name, i)\<close>\<close>

definition slot_hash :: "(bytes \<Rightarrow> 64 word) \<Rightarrow> bytes \<Rightarrow> nat \<Rightarrow> 64 word" where
  "slot_hash hash name i = hash (name @ string_bytes (itoa (int i)))"

definition slots :: "(bytes \<Rightarrow> 64 word) \<Rightarrow> consistent \<Rightarrow> bytes \<Rightarrow> 64 word list" where
  "slots hash c name = map (slot_hash hash name) [0..<cs_ReplicationFactor c]"

definition consistent_add :: "(bytes \<Rightarrow> 64 word) \<Rightarrow> consistent \<Rightarrow> host \<Rightarrow> consistent" where
  "consistent_add hash c m =
     (let hs = slots hash c (host_String m) in
      c\<lparr>cs_ring := fold (\<lambda>h r. fmupd h m r) hs (cs_ring c), cs_sortedSet := sort (cs_sortedSet c @ hs),
        cs_members := fmupd (host_String m) m (cs_members c)\<rparr>)"

definition consistent_Add :: "(bytes \<Rightarrow> 64 word) \<Rightarrow> consistent \<Rightarrow> host \<Rightarrow> consistent outcome" where
  "consistent_Add hash c m =
     (if fmlookup (cs_members c) (host_String m) \<noteq> None then Ret c
      else consistent_distribute hash (consistent_add hash c m))"

text \<open>The loop of \<open>delSlice\<close> does not look at the element that moves into the place of a removed one.\<close>

fun delSlice :: "64 word \<Rightarrow> 64 word list \<Rightarrow> 64 word list" where
  "delSlice v [] = []"
| "delSlice v [x] = (if x = v then [] else [x])"
| "delSlice v (x # y # xs) = (if x = v then y # delSlice v xs else x # delSlice v (y # xs))"

definition consistent_Remove :: "(bytes \<Rightarrow> 64 word) \<Rightarrow> consistent \<Rightarrow> bytes \<Rightarrow> consistent outcome" where
  "consistent_Remove hash c name =
     (if fmlookup (cs_members c) name = None then Ret c
      else
        let hs = slots hash c name;
            c1 = c\<lparr>cs_ring := fold fmdrop hs (cs_ring c), cs_sortedSet := fold delSlice hs (cs_sortedSet c),
                   cs_members := fmdrop name (cs_members c)\<rparr>
        in if fmdom (cs_members c1) = {||} then Ret (c1\<lparr>cs_partitions := fmempty\<rparr>)
           else consistent_distribute hash c1)"

section \<open>Queries\<close>

definition GetMembers :: "(bytes fset \<Rightarrow> bytes list) \<Rightarrow> consistent \<Rightarrow> host list" where
  "GetMembers iter c = List.map_filter (fmlookup (cs_members c)) (iter (fmdom (cs_members c)))"

definition GetPartitionOwner :: "consistent \<Rightarrow> 64 word \<Rightarrow> host option" where
  "GetPartitionOwner c pid = fmlookup (cs_partitions c) pid"

text \<open>The last loop of \<open>getClosestN\<close>: the members after an index, around the ring of their hashes.\<close>

fun closest_from :: "64 word list \<Rightarrow> (64 word, host) fmap \<Rightarrow> nat \<Rightarrow> nat \<Rightarrow> host list outcome" where
  "closest_from keys kmems idx 0 = Ret []"
| "closest_from keys kmems idx (Suc k) =
     (let i = (if idx + 1 \<ge> length keys then 0 else idx + 1) in
      if i \<ge> length keys then Panic
      else case fmlookup kmems (keys ! i) of
        None \<Rightarrow> Panic
      | Some m \<Rightarrow> map_ret ((#) m) (closest_from keys kmems i k))"

definition GetClosestN ::
  "(bytes \<Rightarrow> 64 word) \<Rightarrow> (bytes fset \<Rightarrow> bytes list) \<Rightarrow> consistent \<Rightarrow> 64 word \<Rightarrow> int \<Rightarrow> (gerr + host list) outcome" where
  "GetClosestN hash iter c pid count =
     (if count > int (fcard (fmdom (cs_members c))) - 1 then Ret (Inl ErrInsufficientMemberCount)
      else
        let names = iter (fmdom (cs_members c));
            keys = sort (map hash names);
            kmems = fold (\<lambda>nm r. case fmlookup (cs_members c) nm of None \<Rightarrow> r | Some m \<Rightarrow> fmupd (hash nm) m r) names fmempty;
            find = (\<lambda>ownerKey. length (takeWhile (\<lambda>k. k \<noteq> ownerKey) keys))
        in if names = [] then map_ret Inr (closest_from keys kmems (find 0) (nat count))
           else case GetPartitionOwner c pid of
             None \<Rightarrow> Panic
           | Some owner \<Rightarrow>
               map_ret Inr (closest_from keys kmems
                 (find (if host_String owner \<in> set names then hash (host_String owner) else 0)) (nat count)))"

end
