(* ===== verification/Hash.thy ===== *)
theory Hash
  imports Prelude
begin

unbundle bit_operations_syntax

text \<open>
  \<open>hash.go\<close>: the default hasher, which is the 64-bit xxHash of
  \<open>vendor/github.com/cespare/xxhash\<close> (the portable version in \<open>xxhash_other.go\<close>), on 64-bit words that wrap.
\<close>

section \<open>xxHash\<close>

definition prime1 :: "64 word" where "prime1 = 11400714785074694791"
definition prime2 :: "64 word" where "prime2 = 14029467366897019727"
definition prime3 :: "64 word" where "prime3 = 1609587929392839161"
definition prime4 :: "64 word" where "prime4 = 9650029242287828579"
definition prime5 :: "64 word" where "prime5 = 2870177450012600261"

lemmas xx_primes = prime1_def prime2_def prime3_def prime4_def prime5_def

text \<open>\<open>binary.LittleEndian\<close>, and the rotations of \<open>math/bits\<close>.\<close>

definition u64 :: "bytes \<Rightarrow> 64 word" where "u64 b = getUint64 (rev b)"
definition u32 :: "bytes \<Rightarrow> 64 word" where "u32 b = word_of_nat (be_get (rev b))"

definition rol :: "nat \<Rightarrow> 64 word \<Rightarrow> 64 word" where
  "rol k x = push_bit k x OR drop_bit (64 - k) x"

definition xx_round :: "64 word \<Rightarrow> 64 word \<Rightarrow> 64 word" where
  "xx_round acc input = rol 31 (acc + input * prime2) * prime1"

definition mergeRound :: "64 word \<Rightarrow> 64 word \<Rightarrow> 64 word" where
  "mergeRound acc val = (acc XOR xx_round 0 val) * prime1 + prime4"

text \<open>The loop over blocks of 32 bytes: the four lanes and the bytes that are left.\<close>

function xx_blocks ::
  "bytes \<Rightarrow> 64 word \<Rightarrow> 64 word \<Rightarrow> 64 word \<Rightarrow> 64 word \<Rightarrow> 64 word \<times> 64 word \<times> 64 word \<times> 64 word \<times> bytes" where
  "xx_blocks b v1 v2 v3 v4 =
     (if length b \<ge> 32 then
        xx_blocks (drop 32 b) (xx_round v1 (u64 (take 8 b))) (xx_round v2 (u64 (take 8 (drop 8 b))))
          (xx_round v3 (u64 (take 8 (drop 16 b)))) (xx_round v4 (u64 (take 8 (drop 24 b))))
      else (v1, v2, v3, v4, b))"
  by auto

termination
  by (relation "measure (\<lambda>(b, _). length b)") auto

declare xx_blocks.simps [simp del]

text \<open>The loops over the rest: eight bytes at a time, then four, then one.\<close>

function xx_eights :: "bytes \<Rightarrow> 64 word \<Rightarrow> 64 word \<times> bytes" where
  "xx_eights b h =
     (if length b \<ge> 8 then xx_eights (drop 8 b) (rol 27 (h XOR xx_round 0 (u64 (take 8 b))) * prime1 + prime4)
      else (h, b))"
  by auto

termination
  by (relation "measure (\<lambda>(b, _). length b)") auto

declare xx_eights.simps [simp del]

definition xx_four :: "64 word \<times> bytes \<Rightarrow> 64 word \<times> bytes" where
  "xx_four = (\<lambda>(h, b).
     if length b \<ge> 4 then (rol 23 (h XOR u32 (take 4 b) * prime1) * prime2 + prime3, drop 4 b) else (h, b))"

fun xx_ones :: "64 word \<Rightarrow> bytes \<Rightarrow> 64 word" where
  "xx_ones h [] = h"
| "xx_ones h (x # b) = xx_ones (rol 11 (h XOR ucast x * prime5) * prime1) b"

definition xx_avalanche :: "64 word \<Rightarrow> 64 word" where
  "xx_avalanche h =
     (let h = h XOR drop_bit 33 h; h = h * prime2; h = h XOR drop_bit 29 h; h = h * prime3
      in h XOR drop_bit 32 h)"

definition xxhash_Sum64 :: "bytes \<Rightarrow> 64 word" where
  "xxhash_Sum64 b =
     (let (h, rest) =
        (if length b \<ge> 32 then
           (case xx_blocks b (prime1 + prime2) prime2 0 (- prime1) of
              (v1, v2, v3, v4, rest) \<Rightarrow>
                (mergeRound (mergeRound (mergeRound (mergeRound
                   (rol 1 v1 + rol 7 v2 + rol 12 v3 + rol 18 v4) v1) v2) v3) v4, rest))
         else (prime5, b));
          (h, rest) = xx_four (xx_eights rest (h + word_of_nat (length b)))
      in xx_avalanche (xx_ones h rest))"

section \<open>The default hasher\<close>

definition xxhasher_Sum64 :: "bytes \<Rightarrow> 64 word" where
  "xxhasher_Sum64 key = xxhash_Sum64 key"

definition NewDefaultHasher :: "bytes \<Rightarrow> 64 word" where
  "NewDefaultHasher = xxhasher_Sum64"

end
