(* ===== verification/Serializers.thy ===== *)
theory Serializers
  imports Prelude
begin

text \<open>
  \<open>serializers.go\<close>: the three serializers for the values that users store. The packages \<open>encoding/gob\<close>,
  \<open>encoding/json\<close> and \<open>msgpack\<close> are a record of functions. \<open>encoding/gob\<close> keeps a table of the concrete types that may be
  behind an interface; the table belongs to the process, and \<open>Marshal\<close> of the gob serializer adds the type
  of its argument to it.
\<close>

section \<open>Values and codecs\<close>

text \<open>The values a user stores: Go's \<open>int\<close>, \<open>nil\<close>, the empty struct, or a value of a named type.\<close>

datatype gval = VInt "64 word" | VNil | VStruct | VOther string bytes

text \<open>\<open>reflect.TypeOf\<close>, which has no answer for \<open>nil\<close>.\<close>

fun TypeOf :: "gval \<Rightarrow> string option" where
  "TypeOf (VInt i) = Some ''int''"
| "TypeOf VNil = None"
| "TypeOf VStruct = Some ''struct {}''"
| "TypeOf (VOther t b) = Some t"

text \<open>The names of the registered types.\<close>

type_synonym registry = "string list"

record codecs =
  gob_Encode :: "registry \<Rightarrow> gval \<Rightarrow> gerr + bytes"
  gob_Decode :: "registry \<Rightarrow> bytes \<Rightarrow> gerr + gval"
  json_Marshal :: "gval \<Rightarrow> gerr + bytes"
  json_Unmarshal :: "bytes \<Rightarrow> gerr + gval"
  msgpack_Marshal :: "gval \<Rightarrow> gerr + bytes"
  msgpack_Unmarshal :: "bytes \<Rightarrow> gerr + gval"

section \<open>The serializers\<close>

datatype serializer = gobSerializer | jsonSerializer | msgpackSerializer

definition NewGobSerializer :: serializer where "NewGobSerializer = gobSerializer"
definition NewJSONSerializer :: serializer where "NewJSONSerializer = jsonSerializer"
definition NewMsgpackSerializer :: serializer where "NewMsgpackSerializer = msgpackSerializer"

definition gob_Register :: "registry \<Rightarrow> string \<Rightarrow> registry" where
  "gob_Register reg t = List.insert t reg"

fun gob_Marshal :: "codecs \<Rightarrow> registry \<Rightarrow> gval \<Rightarrow> registry \<times> (gerr + bytes)" where
  "gob_Marshal C reg v =
     (let reg' = (case TypeOf v of None \<Rightarrow> reg | Some t \<Rightarrow> gob_Register reg t)
      in (reg', gob_Encode C reg' v))"

text \<open>The methods of the interface \<open>Serializer\<close>, with the table of the process.\<close>

fun Marshal :: "codecs \<Rightarrow> serializer \<Rightarrow> registry \<Rightarrow> gval \<Rightarrow> registry \<times> (gerr + bytes)" where
  "Marshal C gobSerializer reg v = gob_Marshal C reg v"
| "Marshal C jsonSerializer reg v = (reg, json_Marshal C v)"
| "Marshal C msgpackSerializer reg v = (reg, msgpack_Marshal C v)"

fun Unmarshal :: "codecs \<Rightarrow> serializer \<Rightarrow> registry \<Rightarrow> bytes \<Rightarrow> gerr + gval" where
  "Unmarshal C gobSerializer reg data = gob_Decode C reg data"
| "Unmarshal C jsonSerializer reg data = json_Unmarshal C data"
| "Unmarshal C msgpackSerializer reg data = msgpack_Unmarshal C data"

text \<open>A serializer by its name, as the configuration file and the command line give it.\<close>

definition serializer_named :: "string \<Rightarrow> gerr + serializer" where
  "serializer_named s =
     (if s = ''json'' then Inr NewJSONSerializer
      else if s = ''msgpack'' then Inr NewMsgpackSerializer
      else if s = ''gob'' then Inr NewGobSerializer
      else Inl (ErrOther (''invalid serializer: '' @ s)))"

section \<open>Facts\<close>

text \<open>Only the gob serializer changes the table, and no serializer forgets a type.\<close>

lemma Marshal_registry:
  "fst (Marshal C s reg v) =
     (case TypeOf v of Some t \<Rightarrow> if s = gobSerializer then List.insert t reg else reg | None \<Rightarrow> reg)"
  by (cases s) (simp_all add: gob_Register_def Let_def split: option.split)

lemma Marshal_keeps: "set reg \<subseteq> set (fst (Marshal C s reg v))"
  by (auto simp: Marshal_registry split: option.split)

end
