(* ===== verification/Node.thy ===== *)
theory Node
  imports Snapshot Protocol Locker Consistent Hash Serializers "HOL-Library.Signed_Division"
begin

text \<open>
  \<open>olric.go\<close>: the state of a node, its partitions and DMaps, the location of keys and the
  request to another node.

  The nodes of a cluster are a map from addresses to node states. An operation runs on the node
  \<open>me\<close> and threads the state of the whole cluster, because a request to another node runs a handler there
  before it returns; the argument \<open>rpc\<close> performs such a request. The mutex of a DMap, which is
  held during requests, is part of the state; the mutexes that guard single reads and writes
  are not, since the operations of a run are executed one after the other.

  A run returns, brings a process down, or never returns (\<open>Hang\<close>: an endless loop, or waiting
  for something that nothing in the run provides).
\<close>

section \<open>Runs\<close>

datatype 'a run = Done 'a | Crash | Hang

fun bind_run :: "'a run \<Rightarrow> ('a \<Rightarrow> 'b run) \<Rightarrow> 'b run" where
  "bind_run (Done x) f = f x"
| "bind_run Crash f = Crash"
| "bind_run Hang f = Hang"

fun of_outcome :: "'a outcome \<Rightarrow> 'a run" where
  "of_outcome (Ret x) = Done x"
| "of_outcome Panic = Crash"

fun of_partial :: "'a outcome option \<Rightarrow> 'a run" where
  "of_partial None = Hang"
| "of_partial (Some r) = of_outcome r"

lemma bind_run_Done_iff [simp]: "bind_run c f = Done y \<longleftrightarrow> (\<exists>x. c = Done x \<and> f x = Done y)"
  by (cases c) auto

lemma bind_run_assoc: "bind_run (bind_run c f) g = bind_run c (\<lambda>x. bind_run (f x) g)"
  by (cases c) auto

section \<open>Data\<close>

datatype op_mode = OpInMemory | OpInMemoryWithSnapshot

definition SyncBackupMode :: int where "SyncBackupMode = 0"
definition AsyncBackupMode :: int where "AsyncBackupMode = 1"
definition DefaultPartitionCount :: "64 word" where "DefaultPartitionCount = 271"
definition DefaultLoadFactor :: rat where "DefaultLoadFactor = 5 / 4"
definition DefaultMaxValueSize :: int where "DefaultMaxValueSize = 2 ^ 20"

text \<open>
  \<open>Config\<close>; the fields that only reach libraries (timeouts, TLS files, member list, Badger
  options) are left out, and \<open>LogOutput\<close> and \<open>Logger\<close> only say whether they are set. A hasher is its function.
\<close>

record config =
  cLogOutput :: bool
  cLogger :: bool
  cName :: bytes
  LoadFactor :: rat
  PartitionCount :: "64 word"
  BackupCount :: int
  BackupMode :: int
  OperationMode :: op_mode
  cMaxValueSize :: int
  cHasher :: "(bytes \<Rightarrow> hkey) option"
  cSerializer :: "serializer option"

text \<open>
  A \<open>dmap\<close>: whether its mutex is held, its locker and its log, which may be nil, and its
  storage. A partition's \<open>sync.Map\<close> of DMaps is a finite map.
\<close>

record dmap =
  d_mx :: bool
  d_locker :: "locker option"
  d_oplog :: "log_id option"
  d_str :: storage

record partition =
  p_count :: int
  p_id :: part_id
  p_backup :: bool
  p_m :: "(bytes, dmap) fmap"
  p_owners :: "host list"

text \<open>The bootstrap context: pending, cancelled by the bootstrap, or past its deadline.\<close>

datatype boot = Booting | Booted | BootExpired

text \<open>Goroutines that an operation has started and that have not run yet.\<close>

datatype task =
    PutBackupTask hkey bytes bytes bytes "64 word"
  | WatchLockTask part_id bytes bytes "64 word"
  | FsckTask
  | ListenEventsTask
  | UpdateRoutingTask
  | EvictKeysTask
  | DeleteStaleTask

text \<open>
  \<open>n_members\<close> is the answer of the member list, \<open>n_ring\<close> the consistent hash
  ring, \<open>n_now\<close> the cached clock in nanoseconds and \<open>n_max\<close> the process's \<open>MaxValueSize\<close>.
\<close>

record node =
  n_this :: host
  n_cfg :: config
  n_parts :: "part_id \<rightharpoonup> partition"
  n_backups :: "part_id \<rightharpoonup> partition"
  n_snap :: snapshot
  n_boot :: boot
  n_now :: "64 word"
  n_max :: int
  n_members :: "host list"
  n_ring :: consistent
  n_tasks :: "task list"

type_synonym addr = bytes
type_synonym cluster = "addr \<rightharpoonup> node"

text \<open>A user's \<open>DMap\<close>: the node and the name of the map. The methods take both.\<close>

record dmap_handle =
  h_name :: bytes
  h_db :: addr

definition NewDMap :: "addr \<Rightarrow> bytes \<Rightarrow> dmap_handle" where
  "NewDMap db name = \<lparr>h_name = name, h_db = db\<rparr>"

text \<open>A DMap on the move (\<open>fsck.go\<close>) and the routing table (\<open>routing.go\<close>).\<close>

record dmapbox =
  b_PartID :: part_id
  b_Name :: bytes
  b_Payload :: bytes

record route =
  r_Owners :: "host list"
  r_Backups :: "host list"

type_synonym routing = "(part_id, route) fmap"

text \<open>
  What the program gets from outside: memory mapping, the database, the hash function and the
  serializer of the configuration, msgpack, the iteration orders of maps, the error of dialling an address on
  which nobody listens, and \<open>sort.Slice\<close> by birth date.
\<close>

record world =
  w_os :: os
  w_env :: badger_env
  w_hash :: "bytes \<Rightarrow> hkey"
  w_marshal :: "gval \<Rightarrow> gerr + bytes"
  w_unmarshal :: "bytes \<Rightarrow> gerr + gval"
  w_box :: "dmapbox \<Rightarrow> gerr + bytes"
  w_unbox :: "bytes \<Rightarrow> gerr + dmapbox"
  w_export :: "transport \<Rightarrow> gerr + bytes"
  w_import :: "bytes \<Rightarrow> gerr + transport"
  w_rt :: "routing \<Rightarrow> gerr + bytes"
  w_unrt :: "bytes \<Rightarrow> gerr + routing"
  w_hiter :: "(hkey, nat) fmap \<Rightarrow> hkey list"
  w_siter :: "hkey fset \<Rightarrow> hkey list"
  w_diter :: "bytes fset \<Rightarrow> bytes list"
  w_piter :: "part_id fset \<Rightarrow> part_id list"
  w_dial :: "addr \<Rightarrow> gerr"
  w_sort :: "host list \<Rightarrow> host list"

text \<open>The world of a process with the hasher and the serializer of its configuration.\<close>

definition serializer_world :: "codecs \<Rightarrow> serializer \<Rightarrow> registry \<Rightarrow> world \<Rightarrow> world" where
  "serializer_world C s reg w =
     w\<lparr>w_marshal := (\<lambda>v. snd (Marshal C s reg v)), w_unmarshal := Unmarshal C s reg\<rparr>"

definition config_world :: "codecs \<Rightarrow> registry \<Rightarrow> config \<Rightarrow> world \<Rightarrow> world" where
  "config_world C reg c w =
     (serializer_world C (case cSerializer c of None \<Rightarrow> NewGobSerializer | Some s \<Rightarrow> s) reg w)
       \<lparr>w_hash := (case cHasher c of None \<Rightarrow> NewDefaultHasher | Some f \<Rightarrow> f)\<rparr>"

text \<open>
  An operation gives the new state of the cluster and an error or a result; \<open>bind_op\<close> is
  \<open>if err != nil { return err }\<close>.
\<close>

type_synonym 'a op = "(cluster \<times> (gerr + 'a)) run"
type_synonym rpc = "cluster \<Rightarrow> addr \<Rightarrow> message \<Rightarrow> message op"

definition ret :: "cluster \<Rightarrow> 'a \<Rightarrow> 'a op" where "ret cl x = Done (cl, Inr x)"
definition fail :: "cluster \<Rightarrow> gerr \<Rightarrow> 'a op" where "fail cl e = Done (cl, Inl e)"

definition bind_op :: "'a op \<Rightarrow> (cluster \<Rightarrow> 'a \<Rightarrow> 'b op) \<Rightarrow> 'b op" where
  "bind_op c f = bind_run c (\<lambda>(cl, r). case r of Inl e \<Rightarrow> fail cl e | Inr x \<Rightarrow> f cl x)"

definition err_op :: "cluster \<Rightarrow> gerr option \<Rightarrow> unit op" where
  "err_op cl e = (case e of None \<Rightarrow> ret cl () | Some e \<Rightarrow> fail cl e)"

section \<open>Access to the state\<close>

definition with_node :: "cluster \<Rightarrow> addr \<Rightarrow> (node \<Rightarrow> 'a run) \<Rightarrow> 'a run" where
  "with_node cl me f = (case cl me of None \<Rightarrow> Crash | Some n \<Rightarrow> f n)"

definition node_part :: "node \<Rightarrow> bool \<Rightarrow> part_id \<Rightarrow> partition option" where
  "node_part n bk pid = (if bk then n_backups n pid else n_parts n pid)"

definition set_part :: "node \<Rightarrow> bool \<Rightarrow> part_id \<Rightarrow> partition \<Rightarrow> node" where
  "set_part n bk pid p =
     (if bk then n\<lparr>n_backups := (n_backups n)(pid \<mapsto> p)\<rparr> else n\<lparr>n_parts := (n_parts n)(pid \<mapsto> p)\<rparr>)"

definition node_dmap :: "node \<Rightarrow> bool \<Rightarrow> part_id \<Rightarrow> bytes \<Rightarrow> dmap option" where
  "node_dmap n bk pid name =
     (case node_part n bk pid of None \<Rightarrow> None | Some p \<Rightarrow> fmlookup (p_m p) name)"

text \<open>Replacing a DMap object that is in its partition.\<close>

definition put_dmap :: "node \<Rightarrow> bool \<Rightarrow> part_id \<Rightarrow> bytes \<Rightarrow> dmap \<Rightarrow> node" where
  "put_dmap n bk pid name dm =
     (case node_part n bk pid of
        None \<Rightarrow> n
      | Some p \<Rightarrow> set_part n bk pid (p\<lparr>p_m := fmupd name dm (p_m p)\<rparr>))"

definition with_dmap ::
  "cluster \<Rightarrow> addr \<Rightarrow> bool \<Rightarrow> part_id \<Rightarrow> bytes \<Rightarrow> (node \<Rightarrow> dmap \<Rightarrow> 'a run) \<Rightarrow> 'a run" where
  "with_dmap cl me bk pid name f =
     with_node cl me (\<lambda>n. case node_dmap n bk pid name of None \<Rightarrow> Crash | Some dm \<Rightarrow> f n dm)"

text \<open>
  \<open>dm.Lock()\<close> and the deferred \<open>dm.Unlock()\<close> around a body. A held mutex belongs to a caller
  further up in the same run, so waiting for it never ends. The body may take the DMap out
  of its partition, and then there is nothing left to unlock.
\<close>

definition unlock_dmap :: "cluster \<Rightarrow> addr \<Rightarrow> bool \<Rightarrow> part_id \<Rightarrow> bytes \<Rightarrow> cluster" where
  "unlock_dmap cl me bk pid name =
     (case cl me of
        None \<Rightarrow> cl
      | Some n \<Rightarrow>
          (case node_dmap n bk pid name of
             None \<Rightarrow> cl
           | Some dm \<Rightarrow> cl(me \<mapsto> put_dmap n bk pid name (dm\<lparr>d_mx := False\<rparr>))))"

definition locked ::
  "cluster \<Rightarrow> addr \<Rightarrow> bool \<Rightarrow> part_id \<Rightarrow> bytes \<Rightarrow> (cluster \<Rightarrow> 'a op) \<Rightarrow> 'a op" where
  "locked cl me bk pid name body =
     with_dmap cl me bk pid name (\<lambda>n dm.
       if d_mx dm then Hang
       else bind_run (body (cl(me \<mapsto> put_dmap n bk pid name (dm\<lparr>d_mx := True\<rparr>)))) (\<lambda>(cl', r).
         Done (unlock_dmap cl' me bk pid name, r)))"

section \<open>Creating a node\<close>

definition new_partition :: "part_id \<Rightarrow> bool \<Rightarrow> partition" where
  "new_partition pid bk = \<lparr>p_count = 0, p_id = pid, p_backup = bk, p_m = fmempty, p_owners = []\<rparr>"

definition zero_config :: config where
  "zero_config = \<lparr>cLogOutput = False, cLogger = False, cName = [], LoadFactor = 0, PartitionCount = 0,
     BackupCount = 0, BackupMode = 0, OperationMode = OpInMemory, cMaxValueSize = 0, cHasher = None, cSerializer = None\<rparr>"

text \<open>
  \<open>New\<close>. The machine's host name and the opening of the snapshot can fail; the arguments say
  how. \<open>None\<close> is a nil configuration.
\<close>

definition olric_New :: "gerr + bytes \<Rightarrow> gerr + snapshot \<Rightarrow> config option \<Rightarrow> gerr + node" where
  "olric_New hostname snap c0 =
     (let c = (case c0 of None \<Rightarrow> zero_config | Some c \<Rightarrow> c) in
      if cLogOutput c \<and> cLogger c then Inl (ErrOther ''cannot specify both LogOutput and Logger'')
      else case (if cName c \<noteq> [] then Inr (cName c) else map_sum id (\<lambda>nm. nm @ string_bytes '':0'') hostname) of
        Inl e \<Rightarrow> Inl e
      | Inr nm \<Rightarrow>
          let c' = c\<lparr>cLogger := True, cName := nm,
                     cHasher := Some (case cHasher c of None \<Rightarrow> NewDefaultHasher | Some f \<Rightarrow> f),
                     cSerializer := Some (case cSerializer c of None \<Rightarrow> NewGobSerializer | Some s \<Rightarrow> s),
                     LoadFactor := (if LoadFactor c = 0 then DefaultLoadFactor else LoadFactor c),
                     PartitionCount := (if PartitionCount c = 0 then DefaultPartitionCount
                                        else PartitionCount c)\<rparr>;
              mk = (\<lambda>s. \<lparr>n_this = \<lparr>hName = [], hBirthdate = 0\<rparr>, n_cfg = c',
                n_parts = (\<lambda>i. if i < PartitionCount c' then Some (new_partition i False) else None),
                n_backups = (\<lambda>i. if i < PartitionCount c' then Some (new_partition i True) else None),
                n_snap = s, n_boot = Booting, n_now = 0,
                n_max = (if cMaxValueSize c' \<noteq> 0 then cMaxValueSize c' else DefaultMaxValueSize),
                n_members = [],
                n_ring = consistent_New (PartitionCount c') 20 (LoadFactor c'), n_tasks = []\<rparr>)
          in if OperationMode c' = OpInMemoryWithSnapshot then map_sum id mk snap
             else Inr (mk empty_snapshot))"

section \<open>Locating keys\<close>

definition getPartitionID :: "node \<Rightarrow> hkey \<Rightarrow> part_id" where
  "getPartitionID n h = h mod PartitionCount (n_cfg n)"

definition getPartitionOwners :: "node \<Rightarrow> hkey \<Rightarrow> host list option" where
  "getPartitionOwners n h = map_option p_owners (n_parts n (getPartitionID n h))"

definition getBackupPartitionOwners :: "node \<Rightarrow> hkey \<Rightarrow> host list option" where
  "getBackupPartitionOwners n h = map_option p_owners (n_backups n (getPartitionID n h))"

definition getHKey :: "world \<Rightarrow> bytes \<Rightarrow> bytes \<Rightarrow> hkey" where
  "getHKey w name key = w_hash w (name @ key)"

text \<open>Waiting for the bootstrap.\<close>

definition await_boot :: "cluster \<Rightarrow> node \<Rightarrow> unit op" where
  "await_boot cl n =
     (case n_boot n of Booting \<Rightarrow> Hang | Booted \<Rightarrow> ret cl () | BootExpired \<Rightarrow> fail cl ErrOperationTimeout)"

definition locateHKey :: "cluster \<Rightarrow> node \<Rightarrow> hkey \<Rightarrow> host op" where
  "locateHKey cl n h =
     bind_op (await_boot cl n) (\<lambda>cl _. case getPartitionOwners n h of
         None \<Rightarrow> Crash
       | Some os \<Rightarrow>
           if os = [] then fail cl (ErrOther (''no owner found for hkey: '' @ itoa (uint h)))
           else ret cl (last os))"

definition locateKey :: "world \<Rightarrow> cluster \<Rightarrow> node \<Rightarrow> bytes \<Rightarrow> bytes \<Rightarrow> (host \<times> hkey) op" where
  "locateKey w cl n name key =
     (let h = getHKey w name key in bind_op (locateHKey cl n h) (\<lambda>cl m. ret cl (m, h)))"

section \<open>DMaps\<close>

definition part_dkey :: "bool \<Rightarrow> bytes" where
  "part_dkey bk = (if bk then BackupDMapKey else PrimaryDMapKey)"

text \<open>\<open>createDMap\<close>; afterwards the DMap is in the partition.\<close>

definition createDMap :: "world \<Rightarrow> cluster \<Rightarrow> addr \<Rightarrow> bool \<Rightarrow> part_id \<Rightarrow> bytes \<Rightarrow> unit op" where
  "createDMap w cl me bk pid name =
     with_node cl me (\<lambda>n. case node_part n bk pid of
        None \<Rightarrow> Crash
      | Some p \<Rightarrow>
          if fmlookup (p_m p) name \<noteq> None then ret cl ()
          else (case storage_New (w_os w) 0 of
                  Inl e \<Rightarrow> fail cl e
                | Inr str \<Rightarrow>
                    let fresh = \<lparr>d_mx = False, d_locker = Some newLocker, d_oplog = None, d_str = str\<rparr>;
                        store = (\<lambda>n dm. ret (cl(me \<mapsto> set_part n bk pid
                          (p\<lparr>p_m := fmupd name dm (p_m p), p_count := p_count p + 1\<rparr>))) ())
                    in if OperationMode (n_cfg n) = OpInMemoryWithSnapshot then
                         (case RegisterDMap (w_env w) (part_dkey (p_backup p)) (p_id p) name (n_snap n) of
                            (snap, Inl e) \<Rightarrow> fail (cl(me \<mapsto> n\<lparr>n_snap := snap\<rparr>)) e
                          | (snap, Inr i) \<Rightarrow> store (n\<lparr>n_snap := snap\<rparr>) (fresh\<lparr>d_oplog := Some i\<rparr>))
                       else store n fresh))"

text \<open>
  \<open>getDMap\<close> (\<open>bk = False\<close>) and \<open>getBackupDMap\<close> (\<open>bk = True\<close>). The result is the partition; the DMap is
  the one it holds under the name.
\<close>

definition getDMap :: "world \<Rightarrow> cluster \<Rightarrow> addr \<Rightarrow> bool \<Rightarrow> bytes \<Rightarrow> hkey \<Rightarrow> part_id op" where
  "getDMap w cl me bk name h =
     with_node cl me (\<lambda>n.
       let pid = getPartitionID n h in
       (case node_part n bk pid of
          None \<Rightarrow> Crash
        | Some p \<Rightarrow>
            if fmlookup (p_m p) name \<noteq> None then ret cl pid
            else bind_op (createDMap w cl me bk pid name) (\<lambda>cl _. ret cl pid)))"

text \<open>\<open>restoreDMap\<close>, for a DMap that the loader has rebuilt.\<close>

definition restoreDMap ::
  "world \<Rightarrow> node \<Rightarrow> bytes \<Rightarrow> bool \<Rightarrow> part_id \<Rightarrow> bytes \<Rightarrow> storage \<Rightarrow> (node \<times> gerr option) run" where
  "restoreDMap w n dkey bk pid name str =
     (case node_part n bk pid of
        None \<Rightarrow> Crash
      | Some p \<Rightarrow>
          (case RegisterDMap (w_env w) dkey (p_id p) name (n_snap n) of
             (snap, Inl e) \<Rightarrow> Done (n\<lparr>n_snap := snap\<rparr>, Some e)
           | (snap, Inr i) \<Rightarrow>
               Done (set_part (n\<lparr>n_snap := snap\<rparr>) bk pid
                 (p\<lparr>p_m := fmupd name 
                      \<lparr>d_mx = False, d_locker = Some newLocker, d_oplog = Some i, d_str = str\<rparr> (p_m p),
                    p_count := p_count p + 1\<rparr>), None)))"

text \<open>The loop of \<open>restoreFromSnapshot\<close> over the loader's register, at most \<open>fuel\<close> DMaps.\<close>

fun restore_loop ::
  "world \<Rightarrow> (hkey fset \<Rightarrow> hkey list) \<Rightarrow> (on_disk_dmaps \<Rightarrow> part_id \<times> bytes) \<Rightarrow> nat \<Rightarrow> bytes \<Rightarrow>
   on_disk_dmaps \<Rightarrow> node \<Rightarrow> (node \<times> gerr option) run" where
  "restore_loop w siter pick 0 dkey D n = Hang"
| "restore_loop w siter pick (Suc fuel) dkey D n =
     bind_run (of_partial (loader_Next (w_env w) (w_os w) siter pick (sn_db (n_snap n)) D)) (\<lambda>r. case r of
         Inl e \<Rightarrow> Done (n, if e = ErrLoaderDone then None else Some e)
       | Inr (pid, name, str, D') \<Rightarrow>
           bind_run (restoreDMap w n dkey (dkey \<noteq> PrimaryDMapKey) pid name str) (\<lambda>(n', e). case e of
               Some e \<Rightarrow> Done (n', Some e)
             | None \<Rightarrow> restore_loop w siter pick fuel dkey D' n'))"

definition restoreFromSnapshot ::
  "world \<Rightarrow> (hkey fset \<Rightarrow> hkey list) \<Rightarrow> (on_disk_dmaps \<Rightarrow> part_id \<times> bytes) \<Rightarrow> bytes \<Rightarrow> node \<Rightarrow>
   (node \<times> gerr option) run" where
  "restoreFromSnapshot w siter pick dkey n =
     (case NewLoader (w_env w) dkey (sn_db (n_snap n)) of
        Inl e \<Rightarrow> Done (n, if e = ErrFirstRun then None else Some e)
      | Inr D \<Rightarrow> restore_loop w siter pick (Suc (fcard D)) dkey D n)"

text \<open>
  The fuel is enough: when the choice is a registered DMap, every round removes one, so
  a larger budget changes nothing.
\<close>

lemma restore_loop_fuel:
  assumes pick: "\<And>D. D \<noteq> {||} \<Longrightarrow> pick D |\<in>| D" and "fcard D < f" and "fcard D < g"
  shows "restore_loop w siter pick f dkey D n = restore_loop w siter pick g dkey D n"
  using assms(2,3)
proof (induction f arbitrary: g D n)
  case (Suc f)
  from Suc.prems(2) obtain g' where g: "g = Suc g'" by (cases g) auto
  show ?case
  proof (cases "D = {||}")
    case True
    then show ?thesis by (simp add: g loader_Next_def)
  next
    case False
    obtain p nm where p: "pick D = (p, nm)" by fastforce
    let ?D = "D |-| {|(p, nm)|}"
    have "fcard ?D < fcard D" using pick [OF False] p card_Diff1_less [of "fset D" "(p, nm)"] by (simp add: fcard.rep_eq)
    then have "restore_loop w siter pick f dkey ?D m = restore_loop w siter pick g' dkey ?D m" for m
      using Suc.prems g by (intro Suc.IH) simp_all
    then have ih: "restore_loop w siter pick f dkey ?D = restore_loop w siter pick g' dkey ?D" by (rule ext)
    show ?thesis
    proof (cases "load_dmap (w_env w) (w_os w) siter (sn_db (n_snap n)) p nm")
      case (Some r)
      then show ?thesis using False p ih by (cases r) (auto simp: g loader_Next_def split: sum.split)
    qed (use False p in \<open>simp add: g loader_Next_def\<close>)
  qed
qed simp

section \<open>Requests to other nodes\<close>

definition bytes_string :: "bytes \<Rightarrow> string" where
  "bytes_string bs = map (\<lambda>b. char_of (unat b)) bs"

text \<open>The error that a response stands for; \<open>errors.Wrap\<close> puts the message in front.\<close>

definition response_error :: "message \<Rightarrow> gerr option" where
  "response_error resp =
     (if Status resp = status_byte StatusOK then None
      else if Status resp = status_byte StatusInternalServerError then
        Some (ErrOther (bytes_string (Value resp) @ '': '' @ err_text ErrInternalServerError))
      else if Status resp = status_byte StatusNoSuchLock then Some ErrNoSuchLock
      else if Status resp = status_byte StatusKeyNotFound then Some ErrKeyNotFound
      else if Status resp = status_byte StatusPartNotEmpty then Some ErrPartNotEmpty
      else if Status resp = status_byte StatusBackupNotEmpty then Some ErrBackupNotEmpty
      else Some (ErrOther (''unknown status code: '' @ itoa (uint (Status resp)))))"

definition requestTo :: "rpc \<Rightarrow> cluster \<Rightarrow> host \<Rightarrow> opcode \<Rightarrow> message \<Rightarrow> message op" where
  "requestTo rpc cl to oc req =
     bind_op (rpc cl (hName to) (req\<lparr>Magic := MagicReq, Op := op_byte oc\<rparr>)) (\<lambda>cl resp.
       case response_error resp of Some e \<Rightarrow> fail cl e | None \<Rightarrow> ret cl resp)"

text \<open>The request with a DMap name, a key and a value, as most callers build it.\<close>

definition key_request :: "bytes \<Rightarrow> bytes \<Rightarrow> message" where
  "key_request name key = empty_message\<lparr>DMap := name, Key := key\<rparr>"

section \<open>Time\<close>

text \<open>Signed 64-bit numbers; Go's division truncates towards zero, the addition wraps.\<close>

definition to_millis :: "64 word \<Rightarrow> int" where
  "to_millis t = sint t sdiv 1000000"

definition getTTL :: "node \<Rightarrow> 64 word \<Rightarrow> 64 word" where
  "getTTL n timeout = word_of_int (to_millis (timeout + n_now n))"

definition isKeyExpired :: "node \<Rightarrow> 64 word \<Rightarrow> bool" where
  "isKeyExpired n ttl \<longleftrightarrow> ttl \<noteq> 0 \<and> to_millis (n_now n) \<ge> sint ttl"

text \<open>\<open>updateCurrentUnixNano\<close> until the shutdown: the times of the ticks.\<close>

fun updateCurrentUnixNano :: "node \<Rightarrow> 64 word list \<Rightarrow> node" where
  "updateCurrentUnixNano n [] = n"
| "updateCurrentUnixNano n (now # ticks) = updateCurrentUnixNano (n\<lparr>n_now := now\<rparr>) ticks"

end
