(* ===== verification/Discovery.thy ===== *)
theory Discovery
  imports Node
begin

text \<open>
  \<open>discovery.go\<close>: the members of the cluster in the order of their birth, the coordinator and
  the events of the member list; and from \<open>routing.go\<close> what the number of members means for
  backups. The member list itself is a library; \<open>n_members\<close> holds its answer.
\<close>

section \<open>Members\<close>

definition getMembers :: "world \<Rightarrow> node \<Rightarrow> host list" where
  "getMembers w n = w_sort w (n_members n)"

definition numMembers :: "node \<Rightarrow> int" where
  "numMembers n = int (length (n_members n))"

definition findMember :: "world \<Rightarrow> node \<Rightarrow> bytes \<Rightarrow> gerr + host" where
  "findMember w n name =
     (case find (\<lambda>m. hName m = name) (getMembers w n) of None \<Rightarrow> Inl ErrHostNotFound | Some m \<Rightarrow> Inr m)"

definition getCoordinator :: "world \<Rightarrow> node \<Rightarrow> host outcome" where
  "getCoordinator w n = (case getMembers w n of [] \<Rightarrow> Panic | m # _ \<Rightarrow> Ret m)"

definition isCoordinator :: "world \<Rightarrow> node \<Rightarrow> bool outcome" where
  "isCoordinator w n = map_ret (\<lambda>m. hName m = cName (n_cfg n)) (getCoordinator w n)"

section \<open>Events\<close>

datatype event_type = NodeJoin | NodeLeave | NodeUpdate

record node_event =
  e_Event :: event_type
  e_Node :: host

definition eventChanCapacity :: nat where "eventChanCapacity = 32"

text \<open>Sending on a buffered channel that nobody reads in the meantime.\<close>

definition chan_send :: "node_event list \<Rightarrow> node_event \<Rightarrow> node_event list run" where
  "chan_send ch e = (if length ch < eventChanCapacity then Done (ch @ [e]) else Hang)"

text \<open>
  \<open>handleEvent\<close>: the loop over the subscribers' channels. The assignment to \<open>event.Event\<close> in one
  round is still there in the next.
\<close>

fun handleEvent :: "bytes \<Rightarrow> node_event \<Rightarrow> node_event list list \<Rightarrow> node_event list list run" where
  "handleEvent this e [] = Done []"
| "handleEvent this e (ch # chs) =
     (if hName (e_Node e) = this then
        bind_run (handleEvent this e chs) (\<lambda>chs. Done (ch # chs))
      else if e_Event e \<noteq> NodeUpdate then
        bind_run (chan_send ch e) (\<lambda>ch.
        bind_run (handleEvent this e chs) (\<lambda>chs. Done (ch # chs)))
      else let e' = e\<lparr>e_Event := NodeLeave\<rparr> in
        bind_run (chan_send ch e') (\<lambda>ch.
        bind_run (chan_send ch (e'\<lparr>e_Event := NodeJoin\<rparr>)) (\<lambda>ch.
        bind_run (handleEvent this e' chs) (\<lambda>chs. Done (ch # chs)))))"

definition subscribeNodeEvents :: "node_event list list \<Rightarrow> node_event list list" where
  "subscribeNodeEvents subs = subs @ [[]]"

section \<open>The life of the discovery\<close>

text \<open>
  The metadata that a node tells the others is its birth date. \<open>enc\<close> and \<open>dec\<close> are msgpack. Metadata that
  cannot be decoded counts as the birth date 0.
\<close>

record delegate =
  dl_meta :: bytes

definition newDelegate :: "(int \<Rightarrow> gerr + bytes) \<Rightarrow> int \<Rightarrow> gerr + delegate" where
  "newDelegate enc birthdate = bind_sum (enc birthdate) (\<lambda>data. Inr \<lparr>dl_meta = data\<rparr>)"

definition NodeMeta :: "delegate \<Rightarrow> int \<Rightarrow> bytes" where
  "NodeMeta d limit = dl_meta d"

text \<open>The other methods of a delegate: no messages and no state are exchanged.\<close>

definition NotifyMsg :: "delegate \<Rightarrow> bytes \<Rightarrow> delegate" where "NotifyMsg d data = d"
definition GetBroadcasts :: "delegate \<Rightarrow> int \<Rightarrow> int \<Rightarrow> bytes list" where "GetBroadcasts d overhead limit = []"
definition LocalState :: "delegate \<Rightarrow> bool \<Rightarrow> bytes" where "LocalState d joins = []"
definition MergeRemoteState :: "delegate \<Rightarrow> bytes \<Rightarrow> bool \<Rightarrow> delegate" where "MergeRemoteState d buf joins = d"

definition DecodeMeta :: "(bytes \<Rightarrow> gerr + int) \<Rightarrow> bytes \<Rightarrow> int \<times> gerr option" where
  "DecodeMeta dec buf = (case dec buf of Inl e \<Rightarrow> (0, Some e) | Inr b \<Rightarrow> (b, None))"

definition list_members :: "(bytes \<Rightarrow> gerr + int) \<Rightarrow> (bytes \<times> bytes) list \<Rightarrow> host list" where
  "list_members dec nodes = map (\<lambda>(name, meta). \<lparr>hName = name, hBirthdate = fst (DecodeMeta dec meta)\<rparr>) nodes"

text \<open>The loop over the events is not started, running, or waiting for room in a subscriber's channel.\<close>

datatype event_loop = NotStarted | Looping | Stuck | Stopped

record discovery =
  di_Name :: bytes
  di_Birthdate :: int
  di_peers :: "bytes list"
  di_done :: bool
  di_loop :: event_loop
  di_subs :: "node_event list list"

text \<open>\<open>newDiscovery\<close>; \<open>create\<close> is the error of creating the member list.\<close>

definition newDiscovery ::
  "(int \<Rightarrow> gerr + bytes) \<Rightarrow> gerr option \<Rightarrow> int \<Rightarrow> bytes \<Rightarrow> bytes list \<Rightarrow> gerr + discovery" where
  "newDiscovery enc create birthdate name peers =
     bind_sum (newDelegate enc birthdate) (\<lambda>_.
       case create of
         Some e \<Rightarrow> Inl e
       | None \<Rightarrow> Inr \<lparr>di_Name = name, di_Birthdate = birthdate, di_peers = peers, di_done = False,
                       di_loop = NotStarted, di_subs = []\<rparr>)"

text \<open>\<open>join\<close> only logs what the member list says and starts the loop.\<close>

definition discovery_join :: "discovery \<Rightarrow> discovery" where
  "discovery_join d = d\<lparr>di_loop := Looping\<rparr>"

text \<open>\<open>eventLoop\<close> on the events that arrive before \<open>done\<close> is closed.\<close>

fun eventLoop :: "discovery \<Rightarrow> node_event list \<Rightarrow> discovery" where
  "eventLoop d [] = d"
| "eventLoop d (e # es) =
     (if di_loop d \<noteq> Looping then d
      else case handleEvent (di_Name d) e (di_subs d) of
        Done subs \<Rightarrow> eventLoop (d\<lparr>di_subs := subs\<rparr>) es
      | _ \<Rightarrow> d\<lparr>di_loop := Stuck\<rparr>)"

text \<open>\<open>shutdown\<close> waits for the loop, which never looks at \<open>done\<close> while it is stuck; \<open>down\<close> is the
  error of the member list.\<close>

definition discovery_shutdown :: "gerr option \<Rightarrow> discovery \<Rightarrow> (discovery \<times> gerr option) run" where
  "discovery_shutdown down d =
     (if di_done d then Done (d, None)
      else if di_loop d = Stuck then Hang
      else Done (d\<lparr>di_done := True, di_loop := (if di_loop d = Looping then Stopped else di_loop d)\<rparr>, down))"

lemma discovery_shutdown_twice:
  "discovery_shutdown down d = Done (d', e) \<Longrightarrow> discovery_shutdown down' d' = Done (d', None)"
  by (auto simp: discovery_shutdown_def split: if_splits)

section \<open>The ring\<close>

definition processNodeEvent :: "world \<Rightarrow> node \<Rightarrow> node_event \<Rightarrow> node outcome" where
  "processNodeEvent w n e =
     (let set = (\<lambda>c. n\<lparr>n_ring := c\<rparr>) in
      case e_Event e of
        NodeJoin \<Rightarrow> map_ret set (consistent_Add (w_hash w) (n_ring n) (e_Node e))
      | NodeLeave \<Rightarrow> map_ret set (consistent_Remove (w_hash w) (n_ring n) (hName (e_Node e)))
      | NodeUpdate \<Rightarrow> Ret n)"

section \<open>The number of backups\<close>

definition maxBackupCount :: int where "maxBackupCount = 3"

definition calcMaxBackupCount :: "int \<Rightarrow> int \<Rightarrow> int" where
  "calcMaxBackupCount backupCount memCount =
     (let b = (if backupCount > maxBackupCount then maxBackupCount else backupCount) in
      if memCount - 1 < b then memCount - 1 else b)"

end
