(* ===== verification/Dmap_Ops.thy ===== *)
theory Dmap_Ops
  imports Discovery
begin

text \<open>
  \<open>dmap_put.go\<close>, \<open>dmap_get.go\<close>, \<open>dmap_delete.go\<close>, \<open>dmap_destroy.go\<close>, \<open>dmap_lock.go\<close> and
  \<open>dmap_atomic.go\<close>: the operations of a DMap on the cluster and the handlers that other
  nodes and clients call.

  The requests of an \<open>errgroup\<close> run in the order of its list, and its error is the first one.
\<close>

section \<open>The storage and the log of a DMap\<close>

definition str_put :: "world \<Rightarrow> cluster \<Rightarrow> addr \<Rightarrow> bool \<Rightarrow> part_id \<Rightarrow> bytes \<Rightarrow> hkey \<Rightarrow> vdata \<Rightarrow> unit op" where
  "str_put w cl me bk pid name h v =
     with_dmap cl me bk pid name (\<lambda>n dm.
       bind_run (of_partial (storage_Put (w_os w) (d_str dm) h v)) (\<lambda>(s, e).
         err_op (cl(me \<mapsto> put_dmap n bk pid name (dm\<lparr>d_str := s\<rparr>))) e))"

definition str_delete :: "world \<Rightarrow> cluster \<Rightarrow> addr \<Rightarrow> bool \<Rightarrow> part_id \<Rightarrow> bytes \<Rightarrow> hkey \<Rightarrow> unit op" where
  "str_delete w cl me bk pid name h =
     with_dmap cl me bk pid name (\<lambda>n dm.
       bind_run (of_outcome (storage_Delete (w_os w) (d_str dm) h)) (\<lambda>(s, e).
         err_op (cl(me \<mapsto> put_dmap n bk pid name (dm\<lparr>d_str := s\<rparr>))) e))"

definition str_get :: "cluster \<Rightarrow> addr \<Rightarrow> bool \<Rightarrow> part_id \<Rightarrow> bytes \<Rightarrow> hkey \<Rightarrow> vdata op" where
  "str_get cl me bk pid name h =
     with_dmap cl me bk pid name (\<lambda>n dm.
       bind_run (of_outcome (storage_Get (d_str dm) h)) (\<lambda>r. Done (cl, r)))"

text \<open>\<open>if OperationMode == OpInMemoryWithSnapshot { dm.oplog.Put(hkey) }\<close>, and the same with \<open>Delete\<close>.\<close>

definition oplog_apply ::
  "(oplog \<Rightarrow> hkey \<Rightarrow> oplog) \<Rightarrow> cluster \<Rightarrow> addr \<Rightarrow> bool \<Rightarrow> part_id \<Rightarrow> bytes \<Rightarrow> hkey \<Rightarrow> unit op" where
  "oplog_apply f cl me bk pid name h =
     with_dmap cl me bk pid name (\<lambda>n dm.
       if OperationMode (n_cfg n) \<noteq> OpInMemoryWithSnapshot then ret cl ()
       else case d_oplog dm of
         None \<Rightarrow> Crash
       | Some i \<Rightarrow>
           let sn = n_snap n in
           ret (cl(me \<mapsto> n\<lparr>n_snap := sn\<lparr>logs := (logs sn)(i := f (logs sn i) h)\<rparr>\<rparr>)) ())"

text \<open>The response of a handler to the outcome of an operation without a value.\<close>

definition reply_unit :: "message \<Rightarrow> unit op \<Rightarrow> (cluster \<times> message) run" where
  "reply_unit req c = bind_run c (\<lambda>(cl, r). Done (cl, case r of
       Inl e \<Rightarrow> message_Error req StatusInternalServerError (err_text e)
     | Inr _ \<Rightarrow> message_Success req))"

text \<open>The value of a response; an empty one is read as a nil slice.\<close>

definition resp_value :: "message \<Rightarrow> bytes option" where
  "resp_value m = (if Value m = [] then None else Some (Value m))"

section \<open>Put\<close>

fun purge_loop :: "rpc \<Rightarrow> cluster \<Rightarrow> host \<Rightarrow> bytes \<Rightarrow> bytes \<Rightarrow> host list \<Rightarrow> unit op" where
  "purge_loop rpc cl this name key [] = ret cl ()"
| "purge_loop rpc cl this name key (ow # ows) =
     (if hostCmp ow this then purge_loop rpc cl this name key ows
      else bind_run (requestTo rpc cl ow OpDeletePrev (key_request name key)) (\<lambda>(cl, _).
        purge_loop rpc cl this name key ows))"

definition purgeOldVersions :: "rpc \<Rightarrow> cluster \<Rightarrow> addr \<Rightarrow> hkey \<Rightarrow> bytes \<Rightarrow> bytes \<Rightarrow> unit op" where
  "purgeOldVersions rpc cl me h name key =
     with_node cl me (\<lambda>n. case getPartitionOwners n h of
         None \<Rightarrow> Crash
       | Some owners \<Rightarrow>
           if owners = [] then Crash
           else purge_loop rpc cl (n_this n) name key (rev (butlast owners)))"

definition put_request :: "bytes \<Rightarrow> bytes \<Rightarrow> bytes \<Rightarrow> 64 word \<Rightarrow> message" where
  "put_request name key value timeout =
     (key_request name key)\<lparr>Value := value, Extra := (if timeout \<noteq> 0 then Some (PutExExtra timeout) else None)\<rparr>"

fun put_backups ::
  "rpc \<Rightarrow> cluster \<Rightarrow> message \<Rightarrow> host list \<Rightarrow> nat \<Rightarrow> gerr option \<Rightarrow> (cluster \<times> nat \<times> gerr option) run" where
  "put_backups rpc cl req [] succ werr = Done (cl, succ, werr)"
| "put_backups rpc cl req (b # bs) succ werr =
     bind_run (requestTo rpc cl b OpPutBackup req) (\<lambda>(cl, r). case r of
         Inl e \<Rightarrow> put_backups rpc cl req bs succ (if werr = None then Some e else werr)
       | Inr _ \<Rightarrow> put_backups rpc cl req bs (succ + 1) werr)"

definition putKeyValBackup ::
  "rpc \<Rightarrow> cluster \<Rightarrow> addr \<Rightarrow> hkey \<Rightarrow> bytes \<Rightarrow> bytes \<Rightarrow> bytes \<Rightarrow> 64 word \<Rightarrow> unit op" where
  "putKeyValBackup rpc cl me h name key value timeout =
     with_node cl me (\<lambda>n. case getBackupPartitionOwners n h of
         None \<Rightarrow> Crash
       | Some owners \<Rightarrow>
           let backupCount = calcMaxBackupCount (BackupCount (n_cfg n)) (numMembers n) in
           if int (length owners) > backupCount \<and> backupCount < 0 then Crash
           else let owners' = (if int (length owners) > backupCount
                               then drop (length owners - nat backupCount) owners else owners) in
             if owners' = [] then ret cl ()
             else bind_run (put_backups rpc cl (put_request name key value timeout) owners' 0 None)
               (\<lambda>(cl, succ, werr). if succ \<ge> 1 then ret cl () else err_op cl werr))"

definition add_task :: "cluster \<Rightarrow> addr \<Rightarrow> task \<Rightarrow> cluster" where
  "add_task cl me t = (case cl me of None \<Rightarrow> cl | Some n \<Rightarrow> cl(me \<mapsto> n\<lparr>n_tasks := n_tasks n @ [t]\<rparr>))"

text \<open>The backup step of \<open>putKeyVal\<close>, skipped, in the background, or waited for.\<close>

definition put_backup_step ::
  "rpc \<Rightarrow> cluster \<Rightarrow> addr \<Rightarrow> hkey \<Rightarrow> bytes \<Rightarrow> bytes \<Rightarrow> bytes \<Rightarrow> 64 word \<Rightarrow> unit op" where
  "put_backup_step rpc cl me h name key value timeout =
     with_node cl me (\<lambda>n.
       if BackupCount (n_cfg n) = 0 then ret cl ()
       else if BackupMode (n_cfg n) = AsyncBackupMode
       then ret (add_task cl me (PutBackupTask h name key value timeout)) ()
       else bind_run (putKeyValBackup rpc cl me h name key value timeout) (\<lambda>(cl, r). case r of
           Inl e \<Rightarrow> fail cl (ErrOther (''failed to create backup in sync mode: '' @ err_text e))
         | Inr _ \<Rightarrow> ret cl ()))"

definition putKeyVal ::
  "world \<Rightarrow> rpc \<Rightarrow> cluster \<Rightarrow> addr \<Rightarrow> hkey \<Rightarrow> bytes \<Rightarrow> bytes \<Rightarrow> bytes \<Rightarrow> 64 word \<Rightarrow> unit op" where
  "putKeyVal w rpc cl me h name key value timeout =
     bind_op (getDMap w cl me False name h) (\<lambda>cl pid.
     locked cl me False pid name (\<lambda>cl.
       bind_op (put_backup_step rpc cl me h name key value timeout) (\<lambda>cl _.
       with_node cl me (\<lambda>n.
       let ttl = (if timeout \<noteq> 0 then getTTL n timeout else 0) in
       bind_op (str_put w cl me False pid name h \<lparr>vkey = key, vttl = ttl, vvalue = value\<rparr>) (\<lambda>cl _.
       bind_op (oplog_apply OpLog_Put cl me False pid name h) (\<lambda>cl _.
       purgeOldVersions rpc cl me h name key))))))"

definition put :: "world \<Rightarrow> rpc \<Rightarrow> cluster \<Rightarrow> addr \<Rightarrow> bytes \<Rightarrow> bytes \<Rightarrow> bytes \<Rightarrow> 64 word \<Rightarrow> unit op" where
  "put w rpc cl me name key value timeout =
     with_node cl me (\<lambda>n.
       bind_op (locateKey w cl n name key) (\<lambda>cl (m, h).
         if \<not> hostCmp m (n_this n) then
           bind_op (requestTo rpc cl m (if timeout \<noteq> 0 then OpExPutEx else OpExPut)
                      (put_request name key value timeout)) (\<lambda>cl _. ret cl ())
         else putKeyVal w rpc cl me h name key value timeout))"

definition exPutOperation :: "world \<Rightarrow> rpc \<Rightarrow> cluster \<Rightarrow> addr \<Rightarrow> message \<Rightarrow> (cluster \<times> message) run" where
  "exPutOperation w rpc cl me req = reply_unit req (put w rpc cl me (DMap req) (Key req) (Value req) 0)"

text \<open>The type assertion on the extra panics when there is none or another one.\<close>

definition exPutExOperation :: "world \<Rightarrow> rpc \<Rightarrow> cluster \<Rightarrow> addr \<Rightarrow> message \<Rightarrow> (cluster \<times> message) run" where
  "exPutExOperation w rpc cl me req =
     (case Extra req of
        Some (PutExExtra ttl) \<Rightarrow> reply_unit req (put w rpc cl me (DMap req) (Key req) (Value req) ttl)
      | _ \<Rightarrow> Crash)"

definition putBackupOperation :: "world \<Rightarrow> cluster \<Rightarrow> addr \<Rightarrow> message \<Rightarrow> (cluster \<times> message) run" where
  "putBackupOperation w cl me req =
     (let h = getHKey w (DMap req) (Key req) in
      reply_unit req
        (bind_op (getDMap w cl me True (DMap req) h) (\<lambda>cl pid.
         with_node cl me (\<lambda>n.
         bind_run (case Extra req of
                     None \<Rightarrow> Done 0
                   | Some (PutExExtra ttl) \<Rightarrow> Done (if ttl \<noteq> 0 then getTTL n ttl else 0)
                   | _ \<Rightarrow> Crash) (\<lambda>ttl.
         bind_op (str_put w cl me True pid (DMap req) h \<lparr>vkey = Key req, vttl = ttl, vvalue = Value req\<rparr>)
           (\<lambda>cl _. oplog_apply OpLog_Put cl me True pid (DMap req) h))))))"

section \<open>Get\<close>

text \<open>Asking a list of nodes; \<open>None\<close> when all of them answer that there is no such key.\<close>

fun get_from ::
  "rpc \<Rightarrow> cluster \<Rightarrow> opcode \<Rightarrow> bytes \<Rightarrow> bytes \<Rightarrow> host list \<Rightarrow> bytes option option op" where
  "get_from rpc cl oc name key [] = ret cl None"
| "get_from rpc cl oc name key (ow # ows) =
     bind_run (requestTo rpc cl ow oc (key_request name key)) (\<lambda>(cl, r). case r of
         Inl e \<Rightarrow> if e = ErrKeyNotFound then get_from rpc cl oc name key ows else fail cl e
       | Inr resp \<Rightarrow> ret cl (Some (resp_value resp)))"

definition getKeyVal :: "world \<Rightarrow> rpc \<Rightarrow> cluster \<Rightarrow> addr \<Rightarrow> hkey \<Rightarrow> bytes \<Rightarrow> bytes \<Rightarrow> bytes option op" where
  "getKeyVal w rpc cl me h name key =
     bind_op (getDMap w cl me False name h) (\<lambda>cl pid.
     bind_run (str_get cl me False pid name h) (\<lambda>(cl, r).
     with_node cl me (\<lambda>n. case r of
         Inr v \<Rightarrow> if isKeyExpired n (vttl v) then fail cl ErrKeyNotFound else ret cl (Some (vvalue v))
       | Inl _ \<Rightarrow>
           (case (getPartitionOwners n h, getBackupPartitionOwners n h) of
              (Some owners, Some backups) \<Rightarrow>
                if owners = [] then Crash
                else
                  bind_op (get_from rpc cl OpGetPrev name key (rev (butlast owners))) (\<lambda>cl v. case v of
                      Some v \<Rightarrow> ret cl v
                    | None \<Rightarrow>
                        bind_op (get_from rpc cl OpGetBackup name key backups) (\<lambda>cl v. case v of
                            Some v \<Rightarrow> ret cl v
                          | None \<Rightarrow> fail cl ErrKeyNotFound))
            | _ \<Rightarrow> Crash))))"

definition get :: "world \<Rightarrow> rpc \<Rightarrow> cluster \<Rightarrow> addr \<Rightarrow> bytes \<Rightarrow> bytes \<Rightarrow> bytes option op" where
  "get w rpc cl me name key =
     with_node cl me (\<lambda>n.
       bind_op (locateKey w cl n name key) (\<lambda>cl (m, h).
         if \<not> hostCmp m (n_this n) then
           bind_op (requestTo rpc cl m OpExGet (key_request name key)) (\<lambda>cl resp. ret cl (resp_value resp))
         else getKeyVal w rpc cl me h name key))"

definition slice_bytes :: "bytes option \<Rightarrow> bytes" where
  "slice_bytes v = (case v of None \<Rightarrow> [] | Some bs \<Rightarrow> bs)"

text \<open>The response of a handler that distinguishes one error from the others.\<close>

definition reply_value :: "message \<Rightarrow> bytes option op \<Rightarrow> (cluster \<times> message) run" where
  "reply_value req c = bind_run c (\<lambda>(cl, r). Done (cl, case r of
       Inl e \<Rightarrow> if e = ErrKeyNotFound then message_Error req StatusKeyNotFound []
                else message_Error req StatusInternalServerError (err_text e)
     | Inr v \<Rightarrow> (message_Success req)\<lparr>Value := slice_bytes v\<rparr>))"

definition exGetOperation :: "world \<Rightarrow> rpc \<Rightarrow> cluster \<Rightarrow> addr \<Rightarrow> message \<Rightarrow> (cluster \<times> message) run" where
  "exGetOperation w rpc cl me req = reply_value req (get w rpc cl me (DMap req) (Key req))"

text \<open>Reading an entry that is not expired.\<close>

definition live_get :: "cluster \<Rightarrow> addr \<Rightarrow> bool \<Rightarrow> part_id \<Rightarrow> bytes \<Rightarrow> hkey \<Rightarrow> bytes option op" where
  "live_get cl me bk pid name h =
     bind_op (str_get cl me bk pid name h) (\<lambda>cl v.
     with_node cl me (\<lambda>n. if isKeyExpired n (vttl v) then fail cl ErrKeyNotFound else ret cl (Some (vvalue v))))"

definition getBackupOperation :: "world \<Rightarrow> cluster \<Rightarrow> addr \<Rightarrow> message \<Rightarrow> (cluster \<times> message) run" where
  "getBackupOperation w cl me req =
     (let h = getHKey w (DMap req) (Key req) in
      reply_value req
        (bind_op (getDMap w cl me True (DMap req) h) (\<lambda>cl pid. live_get cl me True pid (DMap req) h)))"

definition getPrevOperation :: "world \<Rightarrow> cluster \<Rightarrow> addr \<Rightarrow> message \<Rightarrow> (cluster \<times> message) run" where
  "getPrevOperation w cl me req =
     (let h = getHKey w (DMap req) (Key req) in
      with_node cl me (\<lambda>n.
        let pid = getPartitionID n h in
        (case n_parts n pid of
           None \<Rightarrow> Crash
         | Some p \<Rightarrow>
             if fmlookup (p_m p) (DMap req) = None
             then Done (cl, message_Error req StatusKeyNotFound [])
             else reply_value req (live_get cl me False pid (DMap req) h))))"

section \<open>Delete\<close>

fun delete_prev :: "rpc \<Rightarrow> cluster \<Rightarrow> bytes \<Rightarrow> bytes \<Rightarrow> host list \<Rightarrow> unit op" where
  "delete_prev rpc cl name key [] = ret cl ()"
| "delete_prev rpc cl name key (ow # ows) =
     bind_op (requestTo rpc cl ow OpDeletePrev (key_request name key)) (\<lambda>cl _.
       delete_prev rpc cl name key ows)"

text \<open>One request to each of a list of nodes; the first error is the error of the group.\<close>

fun request_all :: "rpc \<Rightarrow> cluster \<Rightarrow> opcode \<Rightarrow> message \<Rightarrow> host list \<Rightarrow> gerr option \<Rightarrow> unit op" where
  "request_all rpc cl oc req [] werr = err_op cl werr"
| "request_all rpc cl oc req (b # bs) werr =
     bind_run (requestTo rpc cl b oc req) (\<lambda>(cl, r).
       request_all rpc cl oc req bs
         (case (werr, r) of (None, Inl e) \<Rightarrow> Some e | _ \<Rightarrow> werr))"

definition deleteKeyValBackup :: "rpc \<Rightarrow> cluster \<Rightarrow> addr \<Rightarrow> hkey \<Rightarrow> bytes \<Rightarrow> bytes \<Rightarrow> unit op" where
  "deleteKeyValBackup rpc cl me h name key =
     with_node cl me (\<lambda>n. case getBackupPartitionOwners n h of
         None \<Rightarrow> Crash
       | Some backups \<Rightarrow> request_all rpc cl OpDeleteBackup (key_request name key) backups None)"

text \<open>\<open>delKeyVal\<close> on the DMap of a partition.\<close>

definition delKeyVal ::
  "world \<Rightarrow> rpc \<Rightarrow> cluster \<Rightarrow> addr \<Rightarrow> part_id \<Rightarrow> hkey \<Rightarrow> bytes \<Rightarrow> bytes \<Rightarrow> unit op" where
  "delKeyVal w rpc cl me pid h name key =
     with_node cl me (\<lambda>n. case getPartitionOwners n h of
         None \<Rightarrow> Crash
       | Some owners \<Rightarrow>
           if owners = [] then Crash
           else bind_op (delete_prev rpc cl name key (rev (butlast owners))) (\<lambda>cl _.
             bind_op (if BackupCount (n_cfg n) \<noteq> 0 then deleteKeyValBackup rpc cl me h name key
                      else ret cl ()) (\<lambda>cl _.
             bind_op (oplog_apply OpLog_Delete cl me False pid name h) (\<lambda>cl _.
             str_delete w cl me False pid name h))))"

definition deleteKey :: "world \<Rightarrow> rpc \<Rightarrow> cluster \<Rightarrow> addr \<Rightarrow> bytes \<Rightarrow> bytes \<Rightarrow> unit op" where
  "deleteKey w rpc cl me name key =
     with_node cl me (\<lambda>n.
       bind_op (locateKey w cl n name key) (\<lambda>cl (m, h).
         if \<not> hostCmp m (n_this n) then
           bind_op (requestTo rpc cl m OpExDelete (key_request name key)) (\<lambda>cl _. ret cl ())
         else
           bind_op (getDMap w cl me False name h) (\<lambda>cl pid.
           locked cl me False pid name (\<lambda>cl. delKeyVal w rpc cl me pid h name key))))"

definition exDeleteOperation :: "world \<Rightarrow> rpc \<Rightarrow> cluster \<Rightarrow> addr \<Rightarrow> message \<Rightarrow> (cluster \<times> message) run" where
  "exDeleteOperation w rpc cl me req = reply_unit req (deleteKey w rpc cl me (DMap req) (Key req))"

text \<open>\<open>deletePrevOperation\<close> and \<open>deleteBackupOperation\<close> differ in the kind of partition.\<close>

definition delete_copy :: "world \<Rightarrow> cluster \<Rightarrow> addr \<Rightarrow> bool \<Rightarrow> message \<Rightarrow> (cluster \<times> message) run" where
  "delete_copy w cl me bk req =
     (let h = getHKey w (DMap req) (Key req) in
      reply_unit req
        (bind_op (getDMap w cl me bk (DMap req) h) (\<lambda>cl pid.
         locked cl me bk pid (DMap req) (\<lambda>cl.
         bind_op (str_delete w cl me bk pid (DMap req) h) (\<lambda>cl _.
         oplog_apply OpLog_Delete cl me bk pid (DMap req) h)))))"

definition deletePrevOperation :: "world \<Rightarrow> cluster \<Rightarrow> addr \<Rightarrow> message \<Rightarrow> (cluster \<times> message) run" where
  "deletePrevOperation w cl me req = delete_copy w cl me False req"

definition deleteBackupOperation :: "world \<Rightarrow> cluster \<Rightarrow> addr \<Rightarrow> message \<Rightarrow> (cluster \<times> message) run" where
  "deleteBackupOperation w cl me req = delete_copy w cl me True req"

section \<open>Destroy\<close>

definition destroyDMap :: "world \<Rightarrow> rpc \<Rightarrow> cluster \<Rightarrow> addr \<Rightarrow> bytes \<Rightarrow> unit op" where
  "destroyDMap w rpc cl me name =
     with_node cl me (\<lambda>n.
       bind_op (await_boot cl n) (\<lambda>cl _.
         request_all rpc cl OpDestroyDMap (empty_message\<lparr>DMap := name\<rparr>) (getMembers w n) None))"

definition exDestroyOperation :: "world \<Rightarrow> rpc \<Rightarrow> cluster \<Rightarrow> addr \<Rightarrow> message \<Rightarrow> (cluster \<times> message) run" where
  "exDestroyOperation w rpc cl me req = reply_unit req (destroyDMap w rpc cl me (DMap req))"

text \<open>Destroying the DMap of one partition.\<close>

definition destroy_part :: "world \<Rightarrow> cluster \<Rightarrow> addr \<Rightarrow> bool \<Rightarrow> part_id \<Rightarrow> bytes \<Rightarrow> unit op" where
  "destroy_part w cl me bk pid name =
     with_node cl me (\<lambda>n. case node_part n bk pid of
         None \<Rightarrow> Crash
       | Some p \<Rightarrow>
           (case fmlookup (p_m p) name of
              None \<Rightarrow> ret cl ()
            | Some dm \<Rightarrow>
                (case storage_Close (w_os w) (d_str dm) of
                   (s, Some e) \<Rightarrow> fail (cl(me \<mapsto> put_dmap n bk pid name (dm\<lparr>d_str := s\<rparr>))) e
                 | (s, None) \<Rightarrow>
                     let n1 = put_dmap n bk pid name (dm\<lparr>d_str := s\<rparr>);
                         drop = (\<lambda>n'. ret (cl(me \<mapsto> set_part n' bk pid (p\<lparr>p_m := fmdrop name (p_m p)\<rparr>))) ()) in
                     if OperationMode (n_cfg n) = OpInMemoryWithSnapshot then
                       bind_run (of_outcome (DestroyDMap (w_env w) (w_siter w) (part_dkey (p_backup p))
                                   (p_id p) name (n_snap n1))) (\<lambda>(sn, e). case e of
                           Some e \<Rightarrow> fail (cl(me \<mapsto> n1\<lparr>n_snap := sn\<rparr>)) e
                         | None \<Rightarrow> drop (n1\<lparr>n_snap := sn\<rparr>))
                     else drop n1)))"

text \<open>\<open>for partID := uint64(0); partID < PartitionCount; partID++\<close>\<close>

definition part_ids :: "node \<Rightarrow> part_id list" where
  "part_ids n = map word_of_nat [0..<unat (PartitionCount (n_cfg n))]"

fun destroy_parts :: "world \<Rightarrow> cluster \<Rightarrow> addr \<Rightarrow> bool \<Rightarrow> bytes \<Rightarrow> part_id list \<Rightarrow> unit op" where
  "destroy_parts w cl me backups name [] = ret cl ()"
| "destroy_parts w cl me backups name (pid # pids) =
     bind_op (destroy_part w cl me False pid name) (\<lambda>cl _.
     bind_op (if backups then destroy_part w cl me True pid name else ret cl ()) (\<lambda>cl _.
     destroy_parts w cl me backups name pids))"

definition destroyDMapOperation :: "world \<Rightarrow> cluster \<Rightarrow> addr \<Rightarrow> message \<Rightarrow> (cluster \<times> message) run" where
  "destroyDMapOperation w cl me req =
     with_node cl me (\<lambda>n.
       reply_unit req (destroy_parts w cl me (BackupCount (n_cfg n) \<noteq> 0) (DMap req) (part_ids n)))"

end
