(* ===== verification/Dmap_Locks.thy ===== *)
theory Dmap_Locks
  imports Dmap_Ops
begin

text \<open>
  \<open>dmap_lock.go\<close> and \<open>dmap_atomic.go\<close>: locks on keys, and the read-modify-write operations built
  on them. Waiting for a lock that somebody else holds is \<open>Hang\<close>: it ends only when another
  goroutine releases the lock.
\<close>

section \<open>The locker of a DMap\<close>

definition with_locker :: "cluster \<Rightarrow> addr \<Rightarrow> part_id \<Rightarrow> bytes \<Rightarrow> (locker \<Rightarrow> 'a run) \<Rightarrow> 'a run" where
  "with_locker cl me pid name f =
     with_dmap cl me False pid name (\<lambda>n dm. case d_locker dm of None \<Rightarrow> Crash | Some l \<Rightarrow> f l)"

definition set_locker :: "cluster \<Rightarrow> addr \<Rightarrow> part_id \<Rightarrow> bytes \<Rightarrow> locker \<Rightarrow> cluster" where
  "set_locker cl me pid name l =
     (case cl me of
        None \<Rightarrow> cl
      | Some n \<Rightarrow>
          (case node_dmap n False pid name of
             None \<Rightarrow> cl
           | Some dm \<Rightarrow> cl(me \<mapsto> put_dmap n False pid name (dm\<lparr>d_locker := Some l\<rparr>))))"

text \<open>\<open>dm.locker.lock(key)\<close> and the goroutine that watches the timeout.\<close>

definition lock_and_watch :: "cluster \<Rightarrow> addr \<Rightarrow> part_id \<Rightarrow> bytes \<Rightarrow> bytes \<Rightarrow> 64 word \<Rightarrow> unit op" where
  "lock_and_watch cl me pid name key timeout =
     with_locker cl me pid name (\<lambda>l.
       let (l1, c) = lock_enter l key in
       if held (ctrs l1 c) then Hang
       else ret (add_task (set_locker cl me pid name (lock_leave (lock_acquire l1 c) c)) me
                   (WatchLockTask pid name key timeout)) ())"

definition dm_unlock :: "cluster \<Rightarrow> addr \<Rightarrow> part_id \<Rightarrow> bytes \<Rightarrow> bytes \<Rightarrow> unit op" where
  "dm_unlock cl me pid name key =
     with_locker cl me pid name (\<lambda>l.
       bind_run (of_outcome (locker_unlock l key)) (\<lambda>(l', e). err_op (set_locker cl me pid name l') e))"

section \<open>Locks on keys\<close>

text \<open>The owners in reverse order, without this node; \<open>None\<close> when none of them has the lock.\<close>

fun find_lock :: "rpc \<Rightarrow> cluster \<Rightarrow> host \<Rightarrow> bytes \<Rightarrow> bytes \<Rightarrow> host list \<Rightarrow> host op" where
  "find_lock rpc cl this name key [] = ret cl this"
| "find_lock rpc cl this name key (ow # ows) =
     (if hostCmp this ow then find_lock rpc cl this name key ows
      else bind_run (requestTo rpc cl ow OpFindLock (key_request name key)) (\<lambda>(cl, r). case r of
          Inr _ \<Rightarrow> ret cl ow
        | Inl e \<Rightarrow> if e = ErrNoSuchLock then find_lock rpc cl this name key ows else fail cl e))"

definition findLockKey :: "rpc \<Rightarrow> cluster \<Rightarrow> addr \<Rightarrow> hkey \<Rightarrow> bytes \<Rightarrow> bytes \<Rightarrow> host op" where
  "findLockKey rpc cl me h name key =
     with_node cl me (\<lambda>n. case getPartitionOwners n h of
         None \<Rightarrow> Crash
       | Some owners \<Rightarrow>
           if owners = [] then Crash
           else if length owners = 1 \<and> hostCmp (n_this n) (hd owners) then ret cl (n_this n)
           else find_lock rpc cl (n_this n) name key (rev owners))"

definition lock_request :: "bytes \<Rightarrow> bytes \<Rightarrow> 64 word \<Rightarrow> message" where
  "lock_request name key timeout = (key_request name key)\<lparr>Extra := Some (LockWithTimeoutExtra timeout)\<rparr>"

definition lockKey ::
  "world \<Rightarrow> rpc \<Rightarrow> cluster \<Rightarrow> addr \<Rightarrow> hkey \<Rightarrow> bytes \<Rightarrow> bytes \<Rightarrow> 64 word \<Rightarrow> unit op" where
  "lockKey w rpc cl me h name key timeout =
     bind_op (getDMap w cl me False name h) (\<lambda>cl pid.
     with_locker cl me pid name (\<lambda>l.
       if locker_check l key then lock_and_watch cl me pid name key timeout
       else bind_op (findLockKey rpc cl me h name key) (\<lambda>cl owner.
         with_node cl me (\<lambda>n.
         if \<not> hostCmp (n_this n) owner then
           bind_op (requestTo rpc cl owner OpLockPrev (lock_request name key timeout)) (\<lambda>cl _. ret cl ())
         else lock_and_watch cl me pid name key timeout))))"

definition lockWithTimeout ::
  "world \<Rightarrow> rpc \<Rightarrow> cluster \<Rightarrow> addr \<Rightarrow> bytes \<Rightarrow> bytes \<Rightarrow> 64 word \<Rightarrow> unit op" where
  "lockWithTimeout w rpc cl me name key timeout =
     with_node cl me (\<lambda>n.
       bind_op (locateKey w cl n name key) (\<lambda>cl (m, h).
         if \<not> hostCmp m (n_this n) then
           bind_op (requestTo rpc cl m OpExLockWithTimeout (lock_request name key timeout)) (\<lambda>cl _. ret cl ())
         else lockKey w rpc cl me h name key timeout))"

definition unlockKey :: "world \<Rightarrow> rpc \<Rightarrow> cluster \<Rightarrow> addr \<Rightarrow> hkey \<Rightarrow> bytes \<Rightarrow> bytes \<Rightarrow> unit op" where
  "unlockKey w rpc cl me h name key =
     bind_op (findLockKey rpc cl me h name key) (\<lambda>cl owner.
     with_node cl me (\<lambda>n.
       if \<not> hostCmp (n_this n) owner then
         bind_op (requestTo rpc cl owner OpUnlockPrev (key_request name key)) (\<lambda>cl _. ret cl ())
       else
         bind_op (getDMap w cl me False name h) (\<lambda>cl pid. dm_unlock cl me pid name key)))"

definition unlock :: "world \<Rightarrow> rpc \<Rightarrow> cluster \<Rightarrow> addr \<Rightarrow> bytes \<Rightarrow> bytes \<Rightarrow> unit op" where
  "unlock w rpc cl me name key =
     with_node cl me (\<lambda>n.
       bind_op (await_boot cl n) (\<lambda>cl _.
       bind_op (locateKey w cl n name key) (\<lambda>cl (m, h).
         if \<not> hostCmp m (n_this n) then
           bind_op (requestTo rpc cl m OpExUnlock (key_request name key)) (\<lambda>cl _. ret cl ())
         else unlockKey w rpc cl me h name key)))"

section \<open>Handlers\<close>

definition exLockWithTimeoutOperation ::
  "world \<Rightarrow> rpc \<Rightarrow> cluster \<Rightarrow> addr \<Rightarrow> message \<Rightarrow> (cluster \<times> message) run" where
  "exLockWithTimeoutOperation w rpc cl me req =
     (case Extra req of
        Some (LockWithTimeoutExtra ttl) \<Rightarrow>
          reply_unit req (lockWithTimeout w rpc cl me (DMap req) (Key req) ttl)
      | _ \<Rightarrow> Crash)"

text \<open>The response of a handler that reports a missing lock as such.\<close>

definition reply_lock :: "message \<Rightarrow> unit op \<Rightarrow> (cluster \<times> message) run" where
  "reply_lock req c = bind_run c (\<lambda>(cl, r). Done (cl, case r of
       Inl e \<Rightarrow> if e = ErrNoSuchLock then message_Error req StatusNoSuchLock []
                else message_Error req StatusInternalServerError (err_text e)
     | Inr _ \<Rightarrow> message_Success req))"

definition exUnlockOperation :: "world \<Rightarrow> rpc \<Rightarrow> cluster \<Rightarrow> addr \<Rightarrow> message \<Rightarrow> (cluster \<times> message) run" where
  "exUnlockOperation w rpc cl me req = reply_lock req (unlock w rpc cl me (DMap req) (Key req))"

definition findLockOperation :: "world \<Rightarrow> cluster \<Rightarrow> addr \<Rightarrow> message \<Rightarrow> (cluster \<times> message) run" where
  "findLockOperation w cl me req =
     (let h = getHKey w (DMap req) (Key req) in
      bind_run (getDMap w cl me False (DMap req) h) (\<lambda>(cl, r). case r of
          Inl e \<Rightarrow> Done (cl, message_Error req StatusInternalServerError (err_text e))
        | Inr pid \<Rightarrow>
            with_locker cl me pid (DMap req) (\<lambda>l. Done (cl,
              if locker_check l (Key req) then message_Success req
              else message_Error req StatusNoSuchLock []))))"

definition unlockPrevOperation :: "world \<Rightarrow> cluster \<Rightarrow> addr \<Rightarrow> message \<Rightarrow> (cluster \<times> message) run" where
  "unlockPrevOperation w cl me req =
     (let h = getHKey w (DMap req) (Key req) in
      reply_lock req
        (bind_op (getDMap w cl me False (DMap req) h) (\<lambda>cl pid. dm_unlock cl me pid (DMap req) (Key req))))"

text \<open>Here the lock is taken before the extra is looked at.\<close>

definition lockPrevOperation :: "world \<Rightarrow> cluster \<Rightarrow> addr \<Rightarrow> message \<Rightarrow> (cluster \<times> message) run" where
  "lockPrevOperation w cl me req =
     (let h = getHKey w (DMap req) (Key req) in
      reply_unit req
        (bind_op (getDMap w cl me False (DMap req) h) (\<lambda>cl pid.
          (case Extra req of
             Some (LockWithTimeoutExtra ttl) \<Rightarrow> lock_and_watch cl me pid (DMap req) (Key req) ttl
           | _ \<Rightarrow> bind_op (lock_and_watch cl me pid (DMap req) (Key req) 0) (\<lambda>_ _. Crash)))))"

section \<open>Atomic operations\<close>

definition minute :: "64 word" where "minute = 60000000000"

text \<open>
  The body of the atomic operations under the lock. The lock is released whatever the body
  returned, and the error of the release is only logged.
\<close>

definition with_key_lock ::
  "world \<Rightarrow> rpc \<Rightarrow> cluster \<Rightarrow> addr \<Rightarrow> bytes \<Rightarrow> bytes \<Rightarrow> (cluster \<Rightarrow> 'a op) \<Rightarrow> 'a op" where
  "with_key_lock w rpc cl me name key body =
     bind_op (lockWithTimeout w rpc cl me name key minute) (\<lambda>cl _.
     bind_run (body cl) (\<lambda>(cl, r).
     bind_run (unlock w rpc cl me name key) (\<lambda>(cl, _). Done (cl, r))))"

definition get_optional :: "world \<Rightarrow> rpc \<Rightarrow> cluster \<Rightarrow> addr \<Rightarrow> bytes \<Rightarrow> bytes \<Rightarrow> bytes option option op" where
  "get_optional w rpc cl me name key =
     bind_run (get w rpc cl me name key) (\<lambda>(cl, r). case r of
         Inl e \<Rightarrow> if e = ErrKeyNotFound then ret cl None else fail cl e
       | Inr v \<Rightarrow> ret cl (Some v))"

text \<open>The current number; \<open>reflect.TypeOf(nil).Name()\<close> panics.\<close>

definition current_int :: "world \<Rightarrow> cluster \<Rightarrow> bytes option option \<Rightarrow> 64 word op" where
  "current_int w cl raw =
     (case raw of
        None \<Rightarrow> ret cl 0
      | Some raw \<Rightarrow>
          (case w_unmarshal w (slice_bytes raw) of
             Inl e \<Rightarrow> fail cl e
           | Inr (VInt i) \<Rightarrow> ret cl i
           | Inr VNil \<Rightarrow> Crash
           | Inr VStruct \<Rightarrow> fail cl (ErrOther ''mismatched type: '')
           | Inr (VOther ty _) \<Rightarrow> fail cl (ErrOther (''mismatched type: '' @ ty))))"

definition atomicIncrDecr ::
  "world \<Rightarrow> rpc \<Rightarrow> cluster \<Rightarrow> addr \<Rightarrow> bytes \<Rightarrow> bytes \<Rightarrow> string \<Rightarrow> 64 word \<Rightarrow> 64 word op" where
  "atomicIncrDecr w rpc cl me name key opr delta =
     with_key_lock w rpc cl me name key (\<lambda>cl.
       bind_op (get_optional w rpc cl me name key) (\<lambda>cl raw.
       bind_op (current_int w cl raw) (\<lambda>cl curval.
       bind_op (if opr = ''incr'' then ret cl (curval + delta)
                else if opr = ''decr'' then ret cl (curval - delta)
                else fail cl (ErrOther ''invalid operation'')) (\<lambda>cl newval.
         (case w_marshal w (VInt newval) of
            Inl e \<Rightarrow> fail cl e
          | Inr nval \<Rightarrow> bind_op (put w rpc cl me name key nval 0) (\<lambda>cl _. ret cl newval))))))"

definition getPut :: "world \<Rightarrow> rpc \<Rightarrow> cluster \<Rightarrow> addr \<Rightarrow> bytes \<Rightarrow> bytes \<Rightarrow> bytes \<Rightarrow> bytes option op" where
  "getPut w rpc cl me name key value =
     with_key_lock w rpc cl me name key (\<lambda>cl.
       bind_op (get_optional w rpc cl me name key) (\<lambda>cl raw.
       bind_op (put w rpc cl me name key value 0) (\<lambda>cl _. ret cl (Option.bind raw id))))"

definition exIncrDecrOperation :: "world \<Rightarrow> rpc \<Rightarrow> cluster \<Rightarrow> addr \<Rightarrow> message \<Rightarrow> (cluster \<times> message) run" where
  "exIncrDecrOperation w rpc cl me req =
     (case w_unmarshal w (Value req) of
        Inl e \<Rightarrow> Done (cl, message_Error req StatusInternalServerError (err_text e))
      | Inr (VInt delta) \<Rightarrow>
          bind_run (atomicIncrDecr w rpc cl me (DMap req) (Key req)
                      (if Op req = op_byte OpExDecr then ''decr'' else ''incr'') delta) (\<lambda>(cl, r).
            Done (cl, case r of
              Inl e \<Rightarrow> message_Error req StatusInternalServerError (err_text e)
            | Inr newval \<Rightarrow>
                (case w_marshal w (VInt newval) of
                   Inl e \<Rightarrow> message_Error req StatusInternalServerError (err_text e)
                 | Inr data \<Rightarrow> (message_Success req)\<lparr>Value := data\<rparr>)))
      | Inr _ \<Rightarrow> Crash)"

definition exGetPutOperation :: "world \<Rightarrow> rpc \<Rightarrow> cluster \<Rightarrow> addr \<Rightarrow> message \<Rightarrow> (cluster \<times> message) run" where
  "exGetPutOperation w rpc cl me req =
     bind_run (getPut w rpc cl me (DMap req) (Key req) (Value req)) (\<lambda>(cl, r). Done (cl, case r of
         Inl e \<Rightarrow> message_Error req StatusInternalServerError (err_text e)
       | Inr v \<Rightarrow> (message_Success req)\<lparr>Value := slice_bytes v\<rparr>))"

section \<open>The methods of a DMap\<close>

definition unmarshalValue :: "world \<Rightarrow> bytes \<Rightarrow> gerr + gval" where
  "unmarshalValue w raw = map_sum id (\<lambda>v. if v = VStruct then VNil else v) (w_unmarshal w raw)"

definition DMap_PutEx :: "world \<Rightarrow> rpc \<Rightarrow> cluster \<Rightarrow> addr \<Rightarrow> bytes \<Rightarrow> bytes \<Rightarrow> gval \<Rightarrow> 64 word \<Rightarrow> unit op" where
  "DMap_PutEx w rpc cl me name key value timeout =
     (case w_marshal w value of Inl e \<Rightarrow> fail cl e | Inr val \<Rightarrow> put w rpc cl me name key val timeout)"

definition DMap_Put :: "world \<Rightarrow> rpc \<Rightarrow> cluster \<Rightarrow> addr \<Rightarrow> bytes \<Rightarrow> bytes \<Rightarrow> gval \<Rightarrow> unit op" where
  "DMap_Put w rpc cl me name key value = DMap_PutEx w rpc cl me name key value 0"

definition DMap_Get :: "world \<Rightarrow> rpc \<Rightarrow> cluster \<Rightarrow> addr \<Rightarrow> bytes \<Rightarrow> bytes \<Rightarrow> gval op" where
  "DMap_Get w rpc cl me name key =
     bind_op (get w rpc cl me name key) (\<lambda>cl raw. Done (cl, unmarshalValue w (slice_bytes raw)))"

definition DMap_GetPut :: "world \<Rightarrow> rpc \<Rightarrow> cluster \<Rightarrow> addr \<Rightarrow> bytes \<Rightarrow> bytes \<Rightarrow> gval \<Rightarrow> gval op" where
  "DMap_GetPut w rpc cl me name key value =
     (case w_marshal w (if value = VNil then VStruct else value) of
        Inl e \<Rightarrow> fail cl e
      | Inr val \<Rightarrow>
          bind_op (getPut w rpc cl me name key val) (\<lambda>cl raw. case raw of
              None \<Rightarrow> ret cl VNil
            | Some raw \<Rightarrow> Done (cl, w_unmarshal w raw)))"

definition DMap_Incr :: "world \<Rightarrow> rpc \<Rightarrow> cluster \<Rightarrow> addr \<Rightarrow> bytes \<Rightarrow> bytes \<Rightarrow> 64 word \<Rightarrow> 64 word op" where
  "DMap_Incr w rpc cl me name key delta = atomicIncrDecr w rpc cl me name key ''incr'' delta"

definition DMap_Decr :: "world \<Rightarrow> rpc \<Rightarrow> cluster \<Rightarrow> addr \<Rightarrow> bytes \<Rightarrow> bytes \<Rightarrow> 64 word \<Rightarrow> 64 word op" where
  "DMap_Decr w rpc cl me name key delta = atomicIncrDecr w rpc cl me name key ''decr'' delta"

definition DMap_Delete :: "world \<Rightarrow> rpc \<Rightarrow> cluster \<Rightarrow> addr \<Rightarrow> bytes \<Rightarrow> bytes \<Rightarrow> unit op" where
  "DMap_Delete w rpc cl me name key = deleteKey w rpc cl me name key"

definition DMap_Destroy :: "world \<Rightarrow> rpc \<Rightarrow> cluster \<Rightarrow> addr \<Rightarrow> bytes \<Rightarrow> unit op" where
  "DMap_Destroy w rpc cl me name = destroyDMap w rpc cl me name"

definition DMap_LockWithTimeout :: "world \<Rightarrow> rpc \<Rightarrow> cluster \<Rightarrow> addr \<Rightarrow> bytes \<Rightarrow> bytes \<Rightarrow> 64 word \<Rightarrow> unit op" where
  "DMap_LockWithTimeout w rpc cl me name key timeout = lockWithTimeout w rpc cl me name key timeout"

definition DMap_Unlock :: "world \<Rightarrow> rpc \<Rightarrow> cluster \<Rightarrow> addr \<Rightarrow> bytes \<Rightarrow> bytes \<Rightarrow> unit op" where
  "DMap_Unlock w rpc cl me name key = unlock w rpc cl me name key"

end
