(* ===== verification/Fsck.thy ===== *)
theory Fsck
  imports Dmap_Locks
begin

text \<open>
  \<open>fsck.go\<close>, \<open>dmap_eviction.go\<close> and the janitor of \<open>dmap_delete.go\<close>: moving DMaps to the nodes that
  own their partitions, evicting expired keys, removing empty DMaps.

  The goroutines of a function run one after the other, each after the loop that starts it.
  What they only log is dropped.
\<close>

section \<open>Moving a DMap\<close>

definition dmap_names :: "world \<Rightarrow> node \<Rightarrow> bool \<Rightarrow> part_id \<Rightarrow> bytes list" where
  "dmap_names w n bk pid = (case node_part n bk pid of None \<Rightarrow> [] | Some p \<Rightarrow> w_diter w (fmdom (p_m p)))"

text \<open>The part of \<open>moveDMap\<close> after the other node has taken the DMap.\<close>

definition drop_moved :: "world \<Rightarrow> cluster \<Rightarrow> addr \<Rightarrow> bool \<Rightarrow> part_id \<Rightarrow> bytes \<Rightarrow> unit op" where
  "drop_moved w cl me bk pid name =
     with_node cl me (\<lambda>n. case node_part n bk pid of
         None \<Rightarrow> Crash
       | Some p \<Rightarrow>
           let n1 = set_part n bk pid (p\<lparr>p_m := fmdrop name (p_m p), p_count := p_count p - 1\<rparr>) in
           if OperationMode (n_cfg n) = OpInMemoryWithSnapshot then
             bind_run (of_outcome (DestroyDMap (w_env w) (w_siter w) (part_dkey (p_backup p)) (p_id p) name
                         (n_snap n1))) (\<lambda>(sn, _). ret (cl(me \<mapsto> n1\<lparr>n_snap := sn\<rparr>)) ())
           else ret (cl(me \<mapsto> n1)) ())"

text \<open>
  \<open>moveDMap\<close>. A DMap that an earlier goroutine has moved away is a closed storage, whose
  unmapped memory cannot be exported.
\<close>

definition moveDMap :: "world \<Rightarrow> rpc \<Rightarrow> cluster \<Rightarrow> addr \<Rightarrow> bool \<Rightarrow> part_id \<Rightarrow> bytes \<Rightarrow> host \<Rightarrow> unit op" where
  "moveDMap w rpc cl me bk pid name owner =
     locked cl me bk pid name (\<lambda>cl.
     with_dmap cl me bk pid name (\<lambda>n dm. case node_part n bk pid of
         None \<Rightarrow> Crash
       | Some p \<Rightarrow>
           bind_run (if p_backup p then Done 0
                     else case d_locker dm of None \<Rightarrow> Crash | Some l \<Rightarrow> Done (locker_length l)) (\<lambda>locks.
           if locks \<noteq> 0 then ret cl ()
           else
             bind_run (of_outcome (storage_Export (w_export w) (d_str dm))) (\<lambda>r. case r of
                 Inl e \<Rightarrow> fail cl e
               | Inr payload \<Rightarrow>
                   (case w_box w \<lparr>b_PartID = p_id p, b_Name = name, b_Payload = payload\<rparr> of
                      Inl e \<Rightarrow> fail cl e
                    | Inr value \<Rightarrow>
                        bind_op (requestTo rpc cl owner (if p_backup p then OpBackupMoveDMap else OpMoveDMap)
                                   (empty_message\<lparr>Value := value\<rparr>)) (\<lambda>cl _.
                        drop_moved w cl me bk pid name))))))"

text \<open>Goroutines in a row; their errors are only logged.\<close>

fun move_all :: "world \<Rightarrow> rpc \<Rightarrow> cluster \<Rightarrow> addr \<Rightarrow> bool \<Rightarrow> part_id \<Rightarrow> (bytes \<times> host) list \<Rightarrow> cluster run" where
  "move_all w rpc cl me bk pid [] = Done cl"
| "move_all w rpc cl me bk pid ((name, to) # jobs) =
     bind_run (moveDMap w rpc cl me bk pid name to) (\<lambda>(cl, _). move_all w rpc cl me bk pid jobs)"

definition moveDMaps :: "world \<Rightarrow> rpc \<Rightarrow> cluster \<Rightarrow> addr \<Rightarrow> part_id \<Rightarrow> host \<Rightarrow> cluster run" where
  "moveDMaps w rpc cl me pid owner =
     with_node cl me (\<lambda>n. move_all w rpc cl me False pid (map (\<lambda>name. (name, owner)) (dmap_names w n False pid)))"

definition moveBackupDMaps :: "world \<Rightarrow> rpc \<Rightarrow> cluster \<Rightarrow> addr \<Rightarrow> part_id \<Rightarrow> host list \<Rightarrow> cluster run" where
  "moveBackupDMaps w rpc cl me pid backups =
     with_node cl me (\<lambda>n. move_all w rpc cl me True pid
       (concat (map (\<lambda>b. map (\<lambda>name. (name, b)) (dmap_names w n True pid)) backups)))"

section \<open>Taking a DMap\<close>

text \<open>The callback of the range in \<open>mergeDMaps\<close>: the storage so far and \<open>merr\<close>.\<close>

definition merge_step ::
  "os \<Rightarrow> (storage \<times> gerr option) run \<Rightarrow> hkey \<Rightarrow> vdata option \<Rightarrow> (storage \<times> gerr option) run \<times> bool" where
  "merge_step os st h v =
     (case st of
        Done (s, merr) \<Rightarrow>
          (case storage_Check s h of
             Panic \<Rightarrow> (Crash, False)
           | Ret True \<Rightarrow> (st, True)
           | Ret False \<Rightarrow>
               (case v of
                  None \<Rightarrow> (Crash, False)
                | Some v \<Rightarrow>
                    (case of_partial (storage_Put os s h v) of
                       Done (s', e) \<Rightarrow> (Done (s', e), e = None)
                     | r \<Rightarrow> (r, False))))
      | _ \<Rightarrow> (st, False))"

definition mergeDMaps :: "world \<Rightarrow> cluster \<Rightarrow> addr \<Rightarrow> bool \<Rightarrow> dmapbox \<Rightarrow> unit op" where
  "mergeDMaps w cl me bk box =
     (let pid = b_PartID box; name = b_Name box in
      bind_run (of_outcome (storage_Import (w_import w) (w_os w) (b_Payload box))) (\<lambda>r. case r of
          Inl e \<Rightarrow> fail cl e
        | Inr str \<Rightarrow>
            with_node cl me (\<lambda>n. case node_part n bk pid of
                None \<Rightarrow> Crash
              | Some p \<Rightarrow>
                  (case fmlookup (p_m p) name of
                     None \<Rightarrow>
                       let dm = \<lparr>d_mx = False, d_locker = (if p_backup p then None else Some newLocker),
                                 d_oplog = None, d_str = str\<rparr> in
                       ret (cl(me \<mapsto> set_part n bk pid (p\<lparr>p_m := fmupd name dm (p_m p)\<rparr>))) ()
                   | Some _ \<Rightarrow>
                       locked cl me bk pid name (\<lambda>cl.
                       with_dmap cl me bk pid name (\<lambda>n dm.
                         bind_run (of_outcome (storage_Range (w_hiter w) str (merge_step (w_os w))
                                     (Done (d_str dm, None)))) (\<lambda>st.
                         bind_run st (\<lambda>(s, merr).
                         err_op (cl(me \<mapsto> put_dmap n bk pid name (dm\<lparr>d_str := s\<rparr>))) merr))))))))"

definition move_operation :: "world \<Rightarrow> cluster \<Rightarrow> addr \<Rightarrow> bool \<Rightarrow> message \<Rightarrow> (cluster \<times> message) run" where
  "move_operation w cl me bk req =
     (case w_unbox w (Value req) of
        Inl e \<Rightarrow> Done (cl, message_Error req StatusInternalServerError (err_text e))
      | Inr box \<Rightarrow>
          with_node cl me (\<lambda>n. case node_part n bk (b_PartID box) of
              None \<Rightarrow> Crash
            | Some p \<Rightarrow>
                if p_owners p = [] then Crash else reply_unit req (mergeDMaps w cl me bk box)))"

definition moveDMapOperation :: "world \<Rightarrow> cluster \<Rightarrow> addr \<Rightarrow> message \<Rightarrow> (cluster \<times> message) run" where
  "moveDMapOperation w cl me req = move_operation w cl me False req"

definition moveBackupDMapOperation :: "world \<Rightarrow> cluster \<Rightarrow> addr \<Rightarrow> message \<Rightarrow> (cluster \<times> message) run" where
  "moveBackupDMapOperation w cl me req = move_operation w cl me True req"

section \<open>The check of all partitions\<close>

fun fsck_primary :: "world \<Rightarrow> rpc \<Rightarrow> cluster \<Rightarrow> addr \<Rightarrow> part_id list \<Rightarrow> cluster run" where
  "fsck_primary w rpc cl me [] = Done cl"
| "fsck_primary w rpc cl me (pid # pids) =
     bind_run (with_node cl me (\<lambda>n. case n_parts n pid of
         None \<Rightarrow> Crash
       | Some p \<Rightarrow>
           if p_count p = 0 then Done cl
           else if p_owners p = [] then Crash
           else if \<exists>m \<in> set (butlast (p_owners p)). hostCmp m (n_this n)
           then moveDMaps w rpc cl me pid (last (p_owners p))
           else Done cl)) (\<lambda>cl. fsck_primary w rpc cl me pids)"

fun fsck_backup :: "world \<Rightarrow> rpc \<Rightarrow> cluster \<Rightarrow> addr \<Rightarrow> int \<Rightarrow> part_id list \<Rightarrow> cluster run" where
  "fsck_backup w rpc cl me backupCount [] = Done cl"
| "fsck_backup w rpc cl me backupCount (pid # pids) =
     bind_run (with_node cl me (\<lambda>n. case n_backups n pid of
         None \<Rightarrow> Crash
       | Some p \<Rightarrow>
           if p_count p = 0 then Done cl
           else if int (length (p_owners p)) \<le> backupCount then Done cl
           else if backupCount < 0 then Crash
           else let k = length (p_owners p) - nat backupCount in
             if \<exists>m \<in> set (take k (p_owners p)). hostCmp m (n_this n)
             then moveBackupDMaps w rpc cl me pid (drop k (p_owners p))
             else Done cl)) (\<lambda>cl. fsck_backup w rpc cl me backupCount pids)"

definition fsck :: "world \<Rightarrow> rpc \<Rightarrow> cluster \<Rightarrow> addr \<Rightarrow> cluster run" where
  "fsck w rpc cl me =
     with_node cl me (\<lambda>n.
       bind_run (fsck_primary w rpc cl me (part_ids n)) (\<lambda>cl.
       with_node cl me (\<lambda>n.
         fsck_backup w rpc cl me (calcMaxBackupCount (BackupCount (n_cfg n)) (numMembers n)) (part_ids n))))"

section \<open>Eviction\<close>

definition maxKcount :: nat where "maxKcount = 20"

text \<open>
  The range over the keys of table \<open>i\<close> while its entries are being deleted; a key that is gone
  is not visited. The counters are the visited and the deleted keys.
\<close>

fun evict_keys ::
  "world \<Rightarrow> rpc \<Rightarrow> cluster \<Rightarrow> addr \<Rightarrow> part_id \<Rightarrow> bytes \<Rightarrow> nat \<Rightarrow> hkey list \<Rightarrow> nat \<Rightarrow> nat \<Rightarrow>
   (cluster \<times> nat \<times> nat) run" where
  "evict_keys w rpc cl me pid name i [] kcount dcount = Done (cl, kcount, dcount)"
| "evict_keys w rpc cl me pid name i (h # hs) kcount dcount =
     with_dmap cl me False pid name (\<lambda>n dm.
       if i \<ge> length (tables (d_str dm)) then Crash
       else if h |\<notin>| fmdom (hkeys (tables (d_str dm) ! i)) then evict_keys w rpc cl me pid name i hs kcount dcount
       else if kcount + 1 \<ge> maxKcount then Done (cl, kcount + 1, dcount)
       else bind_run (of_outcome (table_get (tables (d_str dm) ! i) h)) (\<lambda>v. case v of
           None \<Rightarrow> Crash
         | Some v \<Rightarrow>
             if isKeyExpired n (vttl v) then
               bind_run (delKeyVal w rpc cl me pid h name (vkey v)) (\<lambda>(cl, r).
                 evict_keys w rpc cl me pid name i hs (kcount + 1)
                   (case r of Inl _ \<Rightarrow> dcount | Inr _ \<Rightarrow> dcount + 1))
             else evict_keys w rpc cl me pid name i hs (kcount + 1) dcount))"

fun evict_tables ::
  "world \<Rightarrow> rpc \<Rightarrow> cluster \<Rightarrow> addr \<Rightarrow> part_id \<Rightarrow> bytes \<Rightarrow> nat list \<Rightarrow> nat \<Rightarrow> nat \<Rightarrow>
   (cluster \<times> nat) run" where
  "evict_tables w rpc cl me pid name [] kcount dcount = Done (cl, dcount)"
| "evict_tables w rpc cl me pid name (i # is) kcount dcount =
     with_dmap cl me False pid name (\<lambda>n dm.
       bind_run (evict_keys w rpc cl me pid name i (w_hiter w (hkeys (tables (d_str dm) ! i))) kcount dcount)
         (\<lambda>(cl, kcount, dcount). evict_tables w rpc cl me pid name is kcount dcount))"

text \<open>One call of the janitor: whether a quarter of the sample was expired.\<close>

definition evict_round :: "world \<Rightarrow> rpc \<Rightarrow> cluster \<Rightarrow> addr \<Rightarrow> part_id \<Rightarrow> bytes \<Rightarrow> (cluster \<times> bool) run" where
  "evict_round w rpc cl me pid name =
     with_dmap cl me False pid name (\<lambda>n dm.
       if tables (d_str dm) = [] then Crash
       else bind_run (evict_tables w rpc cl me pid name (rev [0..<length (tables (d_str dm))]) 0 0)
         (\<lambda>(cl, dcount). Done (cl, dcount \<ge> maxKcount div 4)))"

partial_function (option) evict_loop ::
  "world \<Rightarrow> rpc \<Rightarrow> cluster \<Rightarrow> addr \<Rightarrow> part_id \<Rightarrow> bytes \<Rightarrow> cluster run option" where
  "evict_loop w rpc cl me pid name =
     (case evict_round w rpc cl me pid name of
        Done (cl', again) \<Rightarrow> if again then evict_loop w rpc cl' me pid name else Some (Done cl')
      | Crash \<Rightarrow> Some Crash
      | Hang \<Rightarrow> Some Hang)"

definition scanDMapForEviction :: "world \<Rightarrow> rpc \<Rightarrow> cluster \<Rightarrow> addr \<Rightarrow> part_id \<Rightarrow> bytes \<Rightarrow> unit op" where
  "scanDMapForEviction w rpc cl me pid name =
     locked cl me False pid name (\<lambda>cl.
       bind_run (case evict_loop w rpc cl me pid name of None \<Rightarrow> Hang | Some r \<Rightarrow> r) (\<lambda>cl. ret cl ()))"

text \<open>
  \<open>evictKeys\<close> for the partition that \<open>rand.Intn\<close> picked. The counter of the limit of 20 DMaps is
  a fresh variable in every call of the function that is ranged over, so there is no limit.
\<close>

fun evict_dmaps :: "world \<Rightarrow> rpc \<Rightarrow> cluster \<Rightarrow> addr \<Rightarrow> part_id \<Rightarrow> bytes list \<Rightarrow> cluster run" where
  "evict_dmaps w rpc cl me pid [] = Done cl"
| "evict_dmaps w rpc cl me pid (name # names) =
     bind_run (scanDMapForEviction w rpc cl me pid name) (\<lambda>(cl, _). evict_dmaps w rpc cl me pid names)"

definition evictKeys :: "world \<Rightarrow> rpc \<Rightarrow> cluster \<Rightarrow> addr \<Rightarrow> part_id \<Rightarrow> cluster run" where
  "evictKeys w rpc cl me pid =
     with_node cl me (\<lambda>n. if n_parts n pid = None then Crash
       else evict_dmaps w rpc cl me pid (dmap_names w n False pid))"

section \<open>Empty DMaps\<close>

definition delete_stale :: "world \<Rightarrow> cluster \<Rightarrow> addr \<Rightarrow> bool \<Rightarrow> part_id \<Rightarrow> bytes \<Rightarrow> unit op" where
  "delete_stale w cl me bk pid name =
     locked cl me bk pid name (\<lambda>cl.
     with_dmap cl me bk pid name (\<lambda>n dm. case node_part n bk pid of
         None \<Rightarrow> Crash
       | Some p \<Rightarrow>
           if storage_Len (d_str dm) \<noteq> 0 then ret cl ()
           else (case storage_Close (w_os w) (d_str dm) of
               (s, Some e) \<Rightarrow> fail (cl(me \<mapsto> put_dmap n bk pid name (dm\<lparr>d_str := s\<rparr>))) e
             | (s, None) \<Rightarrow>
                 let n1 = put_dmap n bk pid name (dm\<lparr>d_str := s\<rparr>);
                     drop = (\<lambda>n'. ret (cl(me \<mapsto> set_part n' bk pid
                       (p\<lparr>p_m := fmdrop name (p_m p), p_count := p_count p - 1\<rparr>))) ()) in
                 if OperationMode (n_cfg n) = OpInMemoryWithSnapshot then
                   bind_run (of_outcome (UnregisterDMap (w_env w) (part_dkey (p_backup p)) (p_id p) name
                               (n_snap n1))) (\<lambda>(sn, e). case e of
                       Some e \<Rightarrow> fail (cl(me \<mapsto> n1\<lparr>n_snap := sn\<rparr>)) e
                     | None \<Rightarrow> drop (n1\<lparr>n_snap := sn\<rparr>))
                 else drop n1)))"

fun stale_dmaps :: "world \<Rightarrow> cluster \<Rightarrow> addr \<Rightarrow> bool \<Rightarrow> part_id \<Rightarrow> bytes list \<Rightarrow> cluster run" where
  "stale_dmaps w cl me bk pid [] = Done cl"
| "stale_dmaps w cl me bk pid (name # names) =
     bind_run (delete_stale w cl me bk pid name) (\<lambda>(cl, _). stale_dmaps w cl me bk pid names)"

fun stale_parts :: "world \<Rightarrow> cluster \<Rightarrow> addr \<Rightarrow> part_id list \<Rightarrow> cluster run" where
  "stale_parts w cl me [] = Done cl"
| "stale_parts w cl me (pid # pids) =
     with_node cl me (\<lambda>n.
     if n_parts n pid = None \<or> n_backups n pid = None then Crash
     else bind_run (stale_dmaps w cl me False pid (dmap_names w n False pid)) (\<lambda>cl.
       with_node cl me (\<lambda>n.
       bind_run (stale_dmaps w cl me True pid (dmap_names w n True pid)) (\<lambda>cl.
       stale_parts w cl me pids))))"

definition deleteStaleDMaps :: "world \<Rightarrow> cluster \<Rightarrow> addr \<Rightarrow> cluster run" where
  "deleteStaleDMaps w cl me = with_node cl me (\<lambda>n. stale_parts w cl me (part_ids n))"

text \<open>The background loops until the shutdown: the partitions that the evictions pick, and the number of ticks.\<close>

fun evictKeysAtBackground :: "world \<Rightarrow> rpc \<Rightarrow> cluster \<Rightarrow> addr \<Rightarrow> part_id list \<Rightarrow> cluster run" where
  "evictKeysAtBackground w rpc cl me [] = Done cl"
| "evictKeysAtBackground w rpc cl me (pid # pids) =
     bind_run (evictKeys w rpc cl me pid) (\<lambda>cl. evictKeysAtBackground w rpc cl me pids)"

fun deleteStaleDMapsAtBackground :: "world \<Rightarrow> cluster \<Rightarrow> addr \<Rightarrow> nat \<Rightarrow> cluster run" where
  "deleteStaleDMapsAtBackground w cl me 0 = Done cl"
| "deleteStaleDMapsAtBackground w cl me (Suc ticks) =
     bind_run (deleteStaleDMaps w cl me) (\<lambda>cl. deleteStaleDMapsAtBackground w cl me ticks)"

end
