(* ===== verification/Routing.thy ===== *)
theory Routing
  imports Fsck
begin

text \<open>
  \<open>routing.go\<close>: the coordinator computes the owners of every partition and sends the table to
  the members; and the start and the end of a node in \<open>olric.go\<close>.
\<close>

section \<open>The owners of a partition\<close>

text \<open>The loop that moves a host to the end of a list of owners or appends it.\<close>

fun move_to_end :: "host \<Rightarrow> host list \<Rightarrow> host list" where
  "move_to_end m [] = [m]"
| "move_to_end m (x # xs) = (if hostCmp x m then xs @ [m] else x # move_to_end m xs)"

text \<open>Pruning the nodes that are dead or have been restarted.\<close>

fun prune_dead :: "world \<Rightarrow> node \<Rightarrow> host list \<Rightarrow> host list" where
  "prune_dead w n [] = []"
| "prune_dead w n (m # ms) =
     (case findMember w n (hName m) of
        Inl _ \<Rightarrow> prune_dead w n ms
      | Inr cur \<Rightarrow> if hostCmp m cur then cur # prune_dead w n ms else prune_dead w n ms)"

text \<open>Pruning the nodes that say that they hold nothing of the partition.\<close>

fun prune_empty ::
  "rpc \<Rightarrow> cluster \<Rightarrow> addr \<Rightarrow> bool \<Rightarrow> part_id \<Rightarrow> host list \<Rightarrow> (cluster \<times> host list) run" where
  "prune_empty rpc cl me bk pid [] = Done (cl, [])"
| "prune_empty rpc cl me bk pid (m # ms) =
     with_node cl me (\<lambda>n.
     bind_run (if hostCmp (n_this n) m then
                 (case node_part n bk pid of None \<Rightarrow> Crash | Some p \<Rightarrow> Done (cl, p_count p \<noteq> 0))
               else
                 bind_run (requestTo rpc cl m (if bk then OpIsBackupEmpty else OpIsPartEmpty)
                             (empty_message\<lparr>Extra := Some (IsPartEmptyExtra pid)\<rparr>))
                   (\<lambda>(cl, r). Done (cl, case r of Inl _ \<Rightarrow> True | Inr _ \<Rightarrow> False))) (\<lambda>(cl, keep).
     bind_run (prune_empty rpc cl me bk pid ms) (\<lambda>(cl, ms').
     Done (cl, if keep then m # ms' else ms'))))"

definition set_owners :: "cluster \<Rightarrow> addr \<Rightarrow> bool \<Rightarrow> part_id \<Rightarrow> host list \<Rightarrow> cluster" where
  "set_owners cl me bk pid os =
     (case cl me of
        None \<Rightarrow> cl
      | Some n \<Rightarrow>
          (case node_part n bk pid of
             None \<Rightarrow> cl
           | Some p \<Rightarrow> cl(me \<mapsto> set_part n bk pid (p\<lparr>p_owners := os\<rparr>))))"

definition get_route :: "routing \<Rightarrow> part_id \<Rightarrow> route" where
  "get_route rt pid = (case fmlookup rt pid of None \<Rightarrow> \<lparr>r_Owners = [], r_Backups = []\<rparr> | Some r \<Rightarrow> r)"

definition distributePrimaryCopies ::
  "world \<Rightarrow> rpc \<Rightarrow> cluster \<Rightarrow> addr \<Rightarrow> part_id \<Rightarrow> routing \<Rightarrow> (cluster \<times> routing) run" where
  "distributePrimaryCopies w rpc cl me pid rt =
     with_node cl me (\<lambda>n. case (GetPartitionOwner (n_ring n) pid, n_parts n pid) of
         (Some owner, Some p) \<Rightarrow>
           let data = get_route rt pid;
               store = (\<lambda>cl os. Done (set_owners cl me False pid os, fmupd pid (data\<lparr>r_Owners := os\<rparr>) rt)) in
           if p_owners p = [] then store cl [owner]
           else let tmp = prune_dead w n (move_to_end owner (p_owners p)) in
             if tmp = [] then Crash
             else bind_run (prune_empty rpc cl me False pid (butlast tmp)) (\<lambda>(cl, os). store cl (os @ [last tmp]))
       | _ \<Rightarrow> Crash)"

definition distributeBackups ::
  "world \<Rightarrow> rpc \<Rightarrow> cluster \<Rightarrow> addr \<Rightarrow> part_id \<Rightarrow> int \<Rightarrow> routing \<Rightarrow> (cluster \<times> routing) run" where
  "distributeBackups w rpc cl me pid backupCount rt =
     with_node cl me (\<lambda>n.
     bind_run (of_outcome (GetClosestN (w_hash w) (w_diter w) (n_ring n) pid backupCount)) (\<lambda>r. case r of
         Inl _ \<Rightarrow> Done (cl, rt)
       | Inr backups \<Rightarrow>
           (case n_backups n pid of
              None \<Rightarrow> Crash
            | Some p \<Rightarrow>
                let data = get_route rt pid;
                    store = (\<lambda>cl os. Done (set_owners cl me True pid os, fmupd pid (data\<lparr>r_Backups := os\<rparr>) rt)) in
                if p_owners p = [] then store cl backups
                else let tmp = prune_dead w n (fold move_to_end backups (p_owners p)) in
                  if backupCount < 0 \<or> int (length tmp) < backupCount then Crash
                  else let k = length tmp - nat backupCount in
                    bind_run (prune_empty rpc cl me True pid (take k tmp)) (\<lambda>(cl, os).
                      store cl (os @ drop k tmp)))))"

fun distribute_loop ::
  "world \<Rightarrow> rpc \<Rightarrow> cluster \<Rightarrow> addr \<Rightarrow> int \<Rightarrow> bool \<Rightarrow> part_id list \<Rightarrow> routing \<Rightarrow> (cluster \<times> routing) run" where
  "distribute_loop w rpc cl me backupCount backups [] rt = Done (cl, rt)"
| "distribute_loop w rpc cl me backupCount backups (pid # pids) rt =
     bind_run (distributePrimaryCopies w rpc cl me pid rt) (\<lambda>(cl, rt).
     bind_run (if backups then distributeBackups w rpc cl me pid backupCount rt else Done (cl, rt)) (\<lambda>(cl, rt).
     distribute_loop w rpc cl me backupCount backups pids rt))"

definition distributePartitions :: "world \<Rightarrow> rpc \<Rightarrow> cluster \<Rightarrow> addr \<Rightarrow> (cluster \<times> routing) run" where
  "distributePartitions w rpc cl me =
     with_node cl me (\<lambda>n.
       let backupCount = calcMaxBackupCount (BackupCount (n_cfg n)) (int (length (GetMembers (w_diter w) (n_ring n)))) in
       distribute_loop w rpc cl me backupCount (BackupCount (n_cfg n) \<noteq> 0 \<and> backupCount \<noteq> 0) (part_ids n) fmempty)"

section \<open>Publishing the table\<close>

definition updateRoutingOnCluster :: "world \<Rightarrow> rpc \<Rightarrow> cluster \<Rightarrow> addr \<Rightarrow> routing \<Rightarrow> unit op" where
  "updateRoutingOnCluster w rpc cl me rt =
     with_node cl me (\<lambda>n. case w_rt w rt of
         Inl _ \<Rightarrow> ret cl ()
       | Inr data \<Rightarrow>
           request_all rpc cl OpUpdateRouting (empty_message\<lparr>Value := data\<rparr>)
             (filter (\<lambda>m. \<not> hostCmp m (n_this n)) (GetMembers (w_diter w) (n_ring n))) None)"

definition updateRouting :: "world \<Rightarrow> rpc \<Rightarrow> cluster \<Rightarrow> addr \<Rightarrow> cluster run" where
  "updateRouting w rpc cl me =
     with_node cl me (\<lambda>n.
       bind_run (of_outcome (isCoordinator w n)) (\<lambda>coordinator.
       if \<not> coordinator then Done cl
       else
         bind_run (distributePartitions w rpc cl me) (\<lambda>(cl, rt).
         bind_run (updateRoutingOnCluster w rpc cl me rt) (\<lambda>(cl, _).
         fsck w rpc cl me))))"

text \<open>An event of the member list.\<close>

definition memberlist_event :: "world \<Rightarrow> rpc \<Rightarrow> cluster \<Rightarrow> addr \<Rightarrow> node_event \<Rightarrow> cluster run" where
  "memberlist_event w rpc cl me e =
     with_node cl me (\<lambda>n.
       bind_run (of_outcome (processNodeEvent w n e)) (\<lambda>n. updateRouting w rpc (cl(me \<mapsto> n)) me))"

text \<open>The background loops until the shutdown: the events that arrive, and the number of ticks.\<close>

fun listenMemberlistEvents :: "world \<Rightarrow> rpc \<Rightarrow> cluster \<Rightarrow> addr \<Rightarrow> node_event list \<Rightarrow> cluster run" where
  "listenMemberlistEvents w rpc cl me [] = Done cl"
| "listenMemberlistEvents w rpc cl me (e # es) =
     bind_run (memberlist_event w rpc cl me e) (\<lambda>cl. listenMemberlistEvents w rpc cl me es)"

fun updateRoutingPeriodically :: "world \<Rightarrow> rpc \<Rightarrow> cluster \<Rightarrow> addr \<Rightarrow> nat \<Rightarrow> cluster run" where
  "updateRoutingPeriodically w rpc cl me 0 = Done cl"
| "updateRoutingPeriodically w rpc cl me (Suc ticks) =
     bind_run (updateRouting w rpc cl me) (\<lambda>cl. updateRoutingPeriodically w rpc cl me ticks)"

text \<open>\<open>bcancel\<close>: a context keeps its first error, so a deadline that has passed stays.\<close>

definition bcancel :: "node \<Rightarrow> node" where
  "bcancel n = n\<lparr>n_boot := (if n_boot n = Booting then Booted else n_boot n)\<rparr>"

text \<open>The loop of \<open>updateRoutingOperation\<close>.\<close>

fun install_routes :: "routing \<Rightarrow> part_id list \<Rightarrow> node \<Rightarrow> node run" where
  "install_routes rt [] n = Done n"
| "install_routes rt (pid # pids) n =
     (case (n_parts n pid, n_backups n pid) of
        (Some p, Some b) \<Rightarrow>
          install_routes rt pids
            (n\<lparr>n_parts := (n_parts n)(pid \<mapsto> p\<lparr>p_owners := r_Owners (get_route rt pid)\<rparr>),
               n_backups := (n_backups n)(pid \<mapsto> b\<lparr>p_owners := r_Backups (get_route rt pid)\<rparr>)\<rparr>)
      | _ \<Rightarrow> Crash)"

definition updateRoutingOperation :: "world \<Rightarrow> cluster \<Rightarrow> addr \<Rightarrow> message \<Rightarrow> (cluster \<times> message) run" where
  "updateRoutingOperation w cl me req =
     (case w_unrt w (Value req) of
        Inl e \<Rightarrow> Done (cl, message_Error req StatusInternalServerError (err_text e))
      | Inr rt \<Rightarrow>
          with_node cl me (\<lambda>n.
            bind_run (install_routes rt (w_piter w (fmdom rt)) n) (\<lambda>n.
            Done (add_task (cl(me \<mapsto> bcancel n)) me FsckTask, message_Success req))))"

text \<open>\<open>isPartEmptyOperation\<close> and \<open>isBackupEmptyOperation\<close>.\<close>

definition is_empty_operation ::
  "cluster \<Rightarrow> addr \<Rightarrow> bool \<Rightarrow> status \<Rightarrow> message \<Rightarrow> (cluster \<times> message) run" where
  "is_empty_operation cl me bk st req =
     (case Extra req of
        Some (IsPartEmptyExtra pid) \<Rightarrow>
          with_node cl me (\<lambda>n. case node_part n bk pid of
              None \<Rightarrow> Crash
            | Some p \<Rightarrow>
                Done (cl, if p_count p = 0 then message_Success req else message_Error req st []))
      | _ \<Rightarrow> Crash)"

definition isPartEmptyOperation :: "cluster \<Rightarrow> addr \<Rightarrow> message \<Rightarrow> (cluster \<times> message) run" where
  "isPartEmptyOperation cl me req = is_empty_operation cl me False StatusPartNotEmpty req"

definition isBackupEmptyOperation :: "cluster \<Rightarrow> addr \<Rightarrow> message \<Rightarrow> (cluster \<times> message) run" where
  "isBackupEmptyOperation cl me req = is_empty_operation cl me True StatusBackupNotEmpty req"

section \<open>Start and shutdown\<close>

text \<open>
  \<open>startDiscovery\<close> after the member list has been created and joined; \<open>shut\<close> is the error of
  its shutdown. At the end the goroutine that listens to its events is started.
\<close>

definition startDiscovery :: "world \<Rightarrow> rpc \<Rightarrow> gerr option \<Rightarrow> cluster \<Rightarrow> addr \<Rightarrow> unit op" where
  "startDiscovery w rpc shut cl me =
     with_node cl me (\<lambda>n. case findMember w n (cName (n_cfg n)) of
         Inl e \<Rightarrow> fail cl (case shut of Some e' \<Rightarrow> e' | None \<Rightarrow> e)
       | Inr this \<Rightarrow>
           bind_run (of_outcome (consistent_Add (w_hash w) (n_ring n) this)) (\<lambda>c.
           let n1 = n\<lparr>n_this := this, n_ring := c\<rparr>; cl1 = cl(me \<mapsto> n1) in
           bind_run (of_outcome (isCoordinator w n1)) (\<lambda>coordinator.
           if coordinator then
             bind_run (distributePartitions w rpc cl1 me) (\<lambda>(cl2, _).
             with_node cl2 me (\<lambda>n2. ret (add_task (cl2(me \<mapsto> bcancel n2)) me ListenEventsTask) ()))
           else ret (add_task cl1 me ListenEventsTask) ())))"

text \<open>
  \<open>Start\<close>: the snapshot is loaded, the server listens, the node joins, the background loops are started. The state is
  the one in which \<open>Start\<close> begins to wait for the server, and \<open>served\<close> what the server returns in the end, which \<open>Start\<close>
  returns too. \<open>listen\<close> is the error that \<open>errCh\<close> holds when \<open>Start\<close> looks; the server closes \<open>StartCh\<close> before its error is
  sent, so \<open>listen\<close> can be \<open>None\<close> although listening failed.
\<close>

definition olric_Start ::
  "world \<Rightarrow> (on_disk_dmaps \<Rightarrow> part_id \<times> bytes) \<Rightarrow> rpc \<Rightarrow> gerr option \<Rightarrow> gerr option \<Rightarrow> gerr option \<Rightarrow> cluster \<Rightarrow> addr \<Rightarrow> unit op" where
  "olric_Start w pick rpc listen served shut cl me =
     bind_op (with_node cl me (\<lambda>n.
       if OperationMode (n_cfg n) = OpInMemoryWithSnapshot then
         bind_run (restoreFromSnapshot w (w_siter w) pick PrimaryDMapKey n) (\<lambda>(n, e). case e of
             Some e \<Rightarrow> fail (cl(me \<mapsto> n)) e
           | None \<Rightarrow>
               bind_run (restoreFromSnapshot w (w_siter w) pick BackupDMapKey n) (\<lambda>(n, e).
               err_op (cl(me \<mapsto> n)) e))
       else ret cl ())) (\<lambda>cl _. case listen of
           Some e \<Rightarrow> fail cl e
         | None \<Rightarrow>
             bind_op (startDiscovery w rpc shut cl me) (\<lambda>cl _.
               err_op (fold (\<lambda>t cl. add_task cl me t) [UpdateRoutingTask, EvictKeysTask, DeleteStaleTask] cl) served))"

text \<open>The loop of \<open>Shutdown\<close> over the DMaps of a partition, with the errors so far.\<close>

fun purge_dmaps :: "os \<Rightarrow> (bytes, dmap) fmap \<Rightarrow> bytes list \<Rightarrow> gerr list \<Rightarrow> gerr list" where
  "purge_dmaps os m [] errs = errs"
| "purge_dmaps os m (name # names) errs =
     purge_dmaps os m names
       (case fmlookup m name of
          None \<Rightarrow> errs
        | Some dm \<Rightarrow> (case snd (storage_Close os (d_str dm)) of None \<Rightarrow> errs | Some e \<Rightarrow> errs @ [e]))"

text \<open>\<open>Shutdown\<close> with the errors of the server, the member list and the snapshot.\<close>

definition olric_Shutdown :: "world \<Rightarrow> gerr list \<Rightarrow> node \<Rightarrow> node \<times> gerr list" where
  "olric_Shutdown w errs n =
     (let purge = (\<lambda>parts. fold (\<lambda>pid errs. case parts pid of
                       None \<Rightarrow> errs
                     | Some p \<Rightarrow> purge_dmaps (w_os w) (p_m p) (w_diter w (fmdom (p_m p))) errs) (part_ids n))
      in (n\<lparr>n_parts := Map.empty, n_backups := Map.empty\<rparr>, purge (n_backups n) (purge (n_parts n) errs)))"

end
