(* ===== verification/Cluster.thy ===== *)
theory Cluster
  imports Routing
begin

text \<open>
  \<open>internal/transport\<close>: the server reads requests from a connection, runs the registered
  handler and writes the response; the client writes a request and reads the response. With
  them, \<open>wire_rpc\<close> closes the operations of a node over the whole cluster, through the bytes
  on the wire.

  Every request has a connection of its own here; a connection of the pool that carries several
  requests is \<open>handleConn\<close>.
\<close>

section \<open>The server\<close>

text \<open>The handlers of the operations, and their registration in \<open>registerOperations\<close>.\<close>

type_synonym operation = "world \<Rightarrow> rpc \<Rightarrow> cluster \<Rightarrow> addr \<Rightarrow> message \<Rightarrow> (cluster \<times> message) run"
type_synonym operations = "opcode \<rightharpoonup> operation"

definition RegisterOperation :: "opcode \<Rightarrow> operation \<Rightarrow> operations \<Rightarrow> operations" where
  "RegisterOperation op e m = m(op \<mapsto> e)"

definition registerOperations :: operations where
  "registerOperations = fold (\<lambda>(op, e). RegisterOperation op e)
     [(OpExPut, exPutOperation),
      (OpExPutEx, exPutExOperation),
      (OpPutBackup, (\<lambda>w rpc. putBackupOperation w)),
      (OpExGet, exGetOperation),
      (OpGetPrev, (\<lambda>w rpc. getPrevOperation w)),
      (OpGetBackup, (\<lambda>w rpc. getBackupOperation w)),
      (OpExDelete, exDeleteOperation),
      (OpDeleteBackup, (\<lambda>w rpc. deleteBackupOperation w)),
      (OpDeletePrev, (\<lambda>w rpc. deletePrevOperation w)),
      (OpExLockWithTimeout, exLockWithTimeoutOperation),
      (OpExUnlock, exUnlockOperation),
      (OpFindLock, (\<lambda>w rpc. findLockOperation w)),
      (OpLockPrev, (\<lambda>w rpc. lockPrevOperation w)),
      (OpUnlockPrev, (\<lambda>w rpc. unlockPrevOperation w)),
      (OpExDestroy, exDestroyOperation),
      (OpDestroyDMap, (\<lambda>w rpc. destroyDMapOperation w)),
      (OpExIncr, exIncrDecrOperation),
      (OpExDecr, exIncrDecrOperation),
      (OpExGetPut, exGetPutOperation),
      (OpUpdateRouting, (\<lambda>w rpc. updateRoutingOperation w)),
      (OpMoveDMap, (\<lambda>w rpc. moveDMapOperation w)),
      (OpBackupMoveDMap, (\<lambda>w rpc. moveBackupDMapOperation w)),
      (OpIsPartEmpty, (\<lambda>w rpc. isPartEmptyOperation)),
      (OpIsBackupEmpty, (\<lambda>w rpc. isBackupEmptyOperation))]
     Map.empty"

text \<open>Running the handler of an operation; there is one for every code.\<close>

definition dispatch :: "world \<Rightarrow> rpc \<Rightarrow> cluster \<Rightarrow> addr \<Rightarrow> message \<Rightarrow> opcode \<Rightarrow> (cluster \<times> message) run" where
  "dispatch w rpc cl me req oc = (case registerOperations oc of None \<Rightarrow> Crash | Some opr \<Rightarrow> opr w rpc cl me req)"

lemma dispatch_simps [simp]:
  "dispatch w rpc cl me req OpExPut = exPutOperation w rpc cl me req"
  "dispatch w rpc cl me req OpExPutEx = exPutExOperation w rpc cl me req"
  "dispatch w rpc cl me req OpPutBackup = putBackupOperation w cl me req"
  "dispatch w rpc cl me req OpExGet = exGetOperation w rpc cl me req"
  "dispatch w rpc cl me req OpGetPrev = getPrevOperation w cl me req"
  "dispatch w rpc cl me req OpGetBackup = getBackupOperation w cl me req"
  "dispatch w rpc cl me req OpExDelete = exDeleteOperation w rpc cl me req"
  "dispatch w rpc cl me req OpDeleteBackup = deleteBackupOperation w cl me req"
  "dispatch w rpc cl me req OpDeletePrev = deletePrevOperation w cl me req"
  "dispatch w rpc cl me req OpExLockWithTimeout = exLockWithTimeoutOperation w rpc cl me req"
  "dispatch w rpc cl me req OpExUnlock = exUnlockOperation w rpc cl me req"
  "dispatch w rpc cl me req OpFindLock = findLockOperation w cl me req"
  "dispatch w rpc cl me req OpLockPrev = lockPrevOperation w cl me req"
  "dispatch w rpc cl me req OpUnlockPrev = unlockPrevOperation w cl me req"
  "dispatch w rpc cl me req OpExDestroy = exDestroyOperation w rpc cl me req"
  "dispatch w rpc cl me req OpDestroyDMap = destroyDMapOperation w cl me req"
  "dispatch w rpc cl me req OpExIncr = exIncrDecrOperation w rpc cl me req"
  "dispatch w rpc cl me req OpExDecr = exIncrDecrOperation w rpc cl me req"
  "dispatch w rpc cl me req OpExGetPut = exGetPutOperation w rpc cl me req"
  "dispatch w rpc cl me req OpUpdateRouting = updateRoutingOperation w cl me req"
  "dispatch w rpc cl me req OpMoveDMap = moveDMapOperation w cl me req"
  "dispatch w rpc cl me req OpBackupMoveDMap = moveBackupDMapOperation w cl me req"
  "dispatch w rpc cl me req OpIsPartEmpty = isPartEmptyOperation cl me req"
  "dispatch w rpc cl me req OpIsBackupEmpty = isBackupEmptyOperation cl me req"
  by (simp_all add: dispatch_def registerOperations_def RegisterOperation_def)

text \<open>
  \<open>waitForRequest\<close> and one round of the loop in \<open>handleConn\<close>: the rest of the connection and the
  reply, which is \<open>Ends\<close> when the loop ends. An error of \<open>errors.WithMessage\<close> has the message
  in front of its cause.
\<close>

datatype reply = Ends | Refusal bytes | Answer message bytes

definition error_reply :: "message \<Rightarrow> string \<Rightarrow> bytes" where
  "error_reply req txt = message_bytes (message_Error req StatusInternalServerError txt)"

definition serve_request :: "world \<Rightarrow> rpc \<Rightarrow> cluster \<Rightarrow> addr \<Rightarrow> conn \<Rightarrow> (cluster \<times> conn \<times> reply) run" where
  "serve_request w rpc cl me c =
     with_node cl me (\<lambda>n.
     bind_run (of_outcome (message_Read (n_max n) empty_message c)) (\<lambda>(req, c, e). case e of
         Some e \<Rightarrow>
           Done (cl, c,
             if e = ErrEOF \<or> e = ErrConnClosed then Ends
             else Refusal (error_reply req (''failed to read request: '' @ err_text e)))
       | None \<Rightarrow>
           (case op_of (Op req) of
              None \<Rightarrow> Done (cl, c, Refusal (error_reply req (''unknown operation: '' @ itoa (uint (Op req)))))
            | Some oc \<Rightarrow>
                bind_run (dispatch w rpc cl me req oc) (\<lambda>(cl, resp). Done (cl, c, Answer req (message_bytes resp))))))"

text \<open>
  Writing the reply, where \<open>wr\<close> gives the error of a write: the bytes that were written, and None when
  the connection is given up. A response that cannot be written is followed by an attempt to
  report that.
\<close>

definition write_reply :: "(bytes \<Rightarrow> gerr option) \<Rightarrow> reply \<Rightarrow> bytes option" where
  "write_reply wr r = (case r of
       Ends \<Rightarrow> None
     | Refusal bs \<Rightarrow> if wr bs = None then Some bs else None
     | Answer req bs \<Rightarrow>
         (case wr bs of
            None \<Rightarrow> Some bs
          | Some e \<Rightarrow>
              if e = ErrEOF \<or> e = ErrConnClosed then None
              else let bs' = error_reply req (''failed to write response: '' @ err_text e)
                   in if wr bs' = None then Some bs' else None))"

text \<open>\<open>handleConn\<close>: the replies written to a connection until it ends.\<close>

partial_function (option) handleConn ::
  "world \<Rightarrow> rpc \<Rightarrow> cluster \<Rightarrow> addr \<Rightarrow> (bytes \<Rightarrow> gerr option) \<Rightarrow> conn \<Rightarrow> bytes list \<Rightarrow> (cluster \<times> bytes list) run option" where
  "handleConn w rpc cl me wr c out =
     (case serve_request w rpc cl me c of
        Crash \<Rightarrow> Some Crash
      | Hang \<Rightarrow> Some Hang
      | Done (cl', c', r) \<Rightarrow>
          (case write_reply wr r of
             None \<Rightarrow> Some (Done (cl', out))
           | Some bs \<Rightarrow> handleConn w rpc cl' me wr c' (out @ [bs])))"

section \<open>The client\<close>

text \<open>\<open>Client.RequestTo\<close> on the bytes of the response, with the caller's size limit.\<close>

definition read_response :: "cluster \<Rightarrow> addr \<Rightarrow> bytes option \<Rightarrow> message op" where
  "read_response cl me out =
     with_node cl me (\<lambda>n.
     bind_run (of_outcome (message_Read (n_max n) empty_message \<lparr>avail = slice_bytes out, rerr = ErrEOF\<rparr>))
       (\<lambda>(resp, _, e). case e of Some e \<Rightarrow> fail cl e | None \<Rightarrow> ret cl resp))"

text \<open>
  A request of node \<open>me\<close>, with at most \<open>k\<close> requests nested in each other: a chain of requests that
  is still open then is one more node waiting for an answer.
\<close>

fun wire_rpc :: "nat \<Rightarrow> world \<Rightarrow> addr \<Rightarrow> rpc" where
  "wire_rpc 0 w me cl to req = Hang"
| "wire_rpc (Suc k) w me cl to req =
     (if cl to = None then fail cl (w_dial w to)
      else bind_run (serve_request w (wire_rpc k w to) cl to \<lparr>avail = message_bytes req, rerr = ErrEOF\<rparr>)
        (\<lambda>(cl, _, r). read_response cl me (write_reply (\<lambda>_. None) r)))"

end
