(* ===== verification/Dmap_Facts.thy ===== *)
theory Dmap_Facts
  imports Dmap_Locks
begin

text \<open>
  What the operations of \<open>Dmap_Ops\<close> and \<open>Dmap_Locks\<close> do on the node that owns a key.
  A node is seen as the entries of its DMaps; everything else it holds is its frame.
\<close>

section \<open>Nodes as maps of entries\<close>

definition node_entry :: "node \<Rightarrow> bool \<Rightarrow> bytes \<Rightarrow> hkey \<Rightarrow> vdata option" where
  "node_entry n bk name h =
     (case node_dmap n bk (getPartitionID n h) name of None \<Rightarrow> None | Some dm \<Rightarrow> storage_abs (d_str dm) h)"

definition set_entry ::
  "(bool \<Rightarrow> bytes \<Rightarrow> hkey \<Rightarrow> vdata option) \<Rightarrow> bool \<Rightarrow> bytes \<Rightarrow> hkey \<Rightarrow> vdata option \<Rightarrow>
   bool \<Rightarrow> bytes \<Rightarrow> hkey \<Rightarrow> vdata option" where
  "set_entry E bk name h x = E(bk := (E bk)(name := (E bk name)(h := x)))"

text \<open>What a put with a time limit stores; the limit 0 is none.\<close>

definition put_data :: "node \<Rightarrow> bytes \<Rightarrow> bytes \<Rightarrow> 64 word \<Rightarrow> vdata" where
  "put_data n key value t = \<lparr>vkey = key, vttl = if t \<noteq> 0 then getTTL n t else 0, vvalue = value\<rparr>"

text \<open>The value that a get sees, and what it returns for it.\<close>

definition live_value :: "node \<Rightarrow> bool \<Rightarrow> bytes \<Rightarrow> hkey \<Rightarrow> bytes option" where
  "live_value n bk name h =
     (case node_entry n bk name h of
        None \<Rightarrow> None
      | Some v \<Rightarrow> if isKeyExpired n (vttl v) then None else Some (vvalue v))"

definition get_result :: "cluster \<Rightarrow> bytes option \<Rightarrow> bytes option op" where
  "get_result cl r = (case r of None \<Rightarrow> fail cl ErrKeyNotFound | Some v \<Rightarrow> ret cl (Some v))"

text \<open>At most one table of the storage holds the key.\<close>

definition node_sole :: "node \<Rightarrow> bool \<Rightarrow> bytes \<Rightarrow> hkey \<Rightarrow> bool" where
  "node_sole n bk name h \<longleftrightarrow>
     (\<forall>dm. node_dmap n bk (getPartitionID n h) name = Some dm \<longrightarrow> sole (d_str dm) h)"

text \<open>The partitions exist, the storages are well formed, no mutex is held.\<close>

definition wf_node :: "node \<Rightarrow> bool" where
  "wf_node n \<longleftrightarrow>
     (\<forall>bk pid. pid < PartitionCount (n_cfg n) \<longrightarrow> node_part n bk pid \<noteq> None) \<and> PartitionCount (n_cfg n) \<noteq> 0 \<and>
     (\<forall>bk pid name dm. node_dmap n bk pid name = Some dm \<longrightarrow> storage_inv (d_str dm) \<and> \<not> d_mx dm)"

definition frame :: "node \<Rightarrow> node \<Rightarrow> bool" where
  "frame n n' \<longleftrightarrow>
     n' = n\<lparr>n_parts := n_parts n', n_backups := n_backups n'\<rparr> \<and>
     (\<forall>bk pid. map_option p_owners (node_part n' bk pid) = map_option p_owners (node_part n bk pid))"

lemma frame_refl [simp]: "frame n n"
  by (simp add: frame_def)

lemma frameD:
  assumes "frame n n'"
  shows "n_this n' = n_this n" "n_cfg n' = n_cfg n" "n_boot n' = n_boot n" "n_now n' = n_now n"
    "n_max n' = n_max n" "n_members n' = n_members n" "n_ring n' = n_ring n" "n_snap n' = n_snap n"
    "n_tasks n' = n_tasks n"
proof -
  from assms have e: "n' = n\<lparr>n_parts := n_parts n', n_backups := n_backups n'\<rparr>" unfolding frame_def ..
  show "n_this n' = n_this n" "n_cfg n' = n_cfg n" "n_boot n' = n_boot n" "n_now n' = n_now n"
    "n_max n' = n_max n" "n_members n' = n_members n" "n_ring n' = n_ring n" "n_snap n' = n_snap n"
    "n_tasks n' = n_tasks n"
    by (subst e, simp)+
qed

lemma frame_owners:
  assumes "frame n n'"
  shows "getPartitionID n' h = getPartitionID n h" "getPartitionOwners n' h = getPartitionOwners n h"
    "getBackupPartitionOwners n' h = getBackupPartitionOwners n h"
proof -
  show id: "getPartitionID n' h = getPartitionID n h"
    using frameD(2) [OF assms] by (simp add: getPartitionID_def)
  have "map_option p_owners (node_part n' bk pid) = map_option p_owners (node_part n bk pid)" for bk pid
    using assms unfolding frame_def by blast
  from this [of False] this [of True] id
  show "getPartitionOwners n' h = getPartitionOwners n h"
    "getBackupPartitionOwners n' h = getBackupPartitionOwners n h"
    by (simp_all add: getPartitionOwners_def getBackupPartitionOwners_def node_part_def)
qed

lemma frame_trans [trans]:
  assumes "frame n1 n2" and "frame n2 n3"
  shows "frame n1 n3"
proof -
  have "n3 = n1\<lparr>n_parts := n_parts n3, n_backups := n_backups n3\<rparr>"
    using frameD [OF assms(1)] frameD [OF assms(2)] by (intro node.equality) simp_all
  then show ?thesis using assms by (simp add: frame_def)
qed

section \<open>Replacing a partition or a DMap\<close>

lemma node_part_set_part [simp]:
  "node_part (set_part n bk pid p) bk' pid' = (if bk' = bk \<and> pid' = pid then Some p else node_part n bk' pid')"
  by (auto simp: node_part_def set_part_def)

lemma set_part_sel [simp]:
  "n_this (set_part n bk pid p) = n_this n" "n_cfg (set_part n bk pid p) = n_cfg n"
  "n_boot (set_part n bk pid p) = n_boot n" "n_now (set_part n bk pid p) = n_now n"
  "n_max (set_part n bk pid p) = n_max n" "n_members (set_part n bk pid p) = n_members n"
  "n_ring (set_part n bk pid p) = n_ring n" "n_snap (set_part n bk pid p) = n_snap n"
  "n_tasks (set_part n bk pid p) = n_tasks n"
  "getPartitionID (set_part n bk pid p) h = getPartitionID n h"
  by (simp_all add: set_part_def getPartitionID_def)

lemma node_dmap_set_part [simp]:
  "node_dmap (set_part n bk pid p) bk' pid' name =
     (if bk' = bk \<and> pid' = pid then fmlookup (p_m p) name else node_dmap n bk' pid' name)"
  by (simp add: node_dmap_def)

lemma set_part_set_part [simp]: "set_part (set_part n bk pid p) bk pid q = set_part n bk pid q"
  by (simp add: set_part_def)

lemma frame_set_part:
  assumes "node_part n bk pid = Some p" and "p_owners q = p_owners p"
  shows "frame n (set_part n bk pid q)"
  using assms by (auto simp: frame_def set_part_def node_part_def)

lemma node_dmapE:
  assumes "node_dmap n bk pid name = Some dm"
  obtains p where "node_part n bk pid = Some p" "fmlookup (p_m p) name = Some dm"
  using assms by (auto simp: node_dmap_def split: option.splits)

lemma put_dmap_eq:
  "node_part n bk pid = Some p \<Longrightarrow>
   put_dmap n bk pid name dm = set_part n bk pid (p\<lparr>p_m := fmupd name dm (p_m p)\<rparr>)"
  by (simp add: put_dmap_def)

lemma put_dmap_put_dmap [simp]: "put_dmap (put_dmap n bk pid name dm) bk pid name dm' = put_dmap n bk pid name dm'"
proof (cases "node_part n bk pid")
  case None
  then show ?thesis by (simp add: put_dmap_def)
next
  case (Some p)
  have "fmupd name dm' (fmupd name dm (p_m p)) = fmupd name dm' (p_m p)"
    by (rule fmap_ext) simp
  with Some show ?thesis by (simp add: put_dmap_eq)
qed

lemma put_dmap_same: "node_dmap n bk pid name = Some dm \<Longrightarrow> put_dmap n bk pid name dm = n"
proof (erule node_dmapE)
  fix p
  assume p: "node_part n bk pid = Some p" "fmlookup (p_m p) name = Some dm"
  then have "fmupd name dm (p_m p) = p_m p" by (intro fmap_ext) auto
  with p(1) show "put_dmap n bk pid name dm = n"
    by (cases bk) (auto simp: put_dmap_eq set_part_def node_part_def fun_upd_idem)
qed

lemma node_dmap_put_dmap [simp]:
  assumes "node_dmap n bk pid name = Some dm0"
  shows "node_dmap (put_dmap n bk pid name dm) bk' pid' name' =
    (if bk' = bk \<and> pid' = pid \<and> name' = name then Some dm else node_dmap n bk' pid' name')"
  using assms by (elim node_dmapE) (auto simp: put_dmap_eq node_dmap_def)

lemma node_part_put_dmap:
  "node_part (put_dmap n bk pid name dm) bk' pid' = None \<longleftrightarrow> node_part n bk' pid' = None"
  by (simp add: put_dmap_def split: option.splits)

lemma frame_put_dmap: "frame n (put_dmap n bk pid name dm)"
  by (cases "node_part n bk pid") (auto simp: put_dmap_def intro: frame_set_part)

lemmas put_dmap_sel [simp] = frameD [OF frame_put_dmap] frame_owners [OF frame_put_dmap]

lemma frame_time: "frame n n' \<Longrightarrow> getTTL n' t = getTTL n t" "frame n n' \<Longrightarrow> isKeyExpired n' t = isKeyExpired n t"
  using frameD(4) by (simp_all add: getTTL_def isKeyExpired_def)

lemmas put_dmap_time [simp] = frame_time [OF frame_put_dmap]

section \<open>Steps\<close>

named_theorems op_simps \<open>symbolic execution of operations\<close>

lemma bind_op_ret [op_simps]:
  "bind_op (ret cl x) f = f cl x" "bind_op (fail cl e) g = fail cl e"
  "bind_run (ret cl x) k = k (cl, Inr x)" "bind_run (fail cl e) k = k (cl, Inl e)"
  "err_op cl None = ret cl ()" "err_op cl (Some e) = fail cl e"
  by (simp_all add: bind_op_def ret_def fail_def err_op_def)

lemmas fold_ret [op_simps] = ret_def [symmetric] fail_def [symmetric]

lemma with_node_Some [op_simps]: "cl me = Some n \<Longrightarrow> with_node cl me f = f n"
  by (simp add: with_node_def)

lemma with_dmap_Some [op_simps]:
  "cl me = Some n \<Longrightarrow> node_dmap n bk pid name = Some dm \<Longrightarrow> with_dmap cl me bk pid name f = f n dm"
  by (simp add: with_dmap_def with_node_def)

lemma locked_eq [op_simps]:
  "cl me = Some n \<Longrightarrow> node_dmap n bk pid name = Some dm \<Longrightarrow> \<not> d_mx dm \<Longrightarrow>
   locked cl me bk pid name body =
     bind_run (body (cl(me \<mapsto> put_dmap n bk pid name (dm\<lparr>d_mx := True\<rparr>)))) (\<lambda>(cl', r).
       Done (unlock_dmap cl' me bk pid name, r))"
  by (simp add: locked_def with_dmap_Some)

lemma unlock_put_dmap [op_simps]:
  "cl me = Some (put_dmap n bk pid name dm') \<Longrightarrow> node_dmap n bk pid name = Some dm \<Longrightarrow>
   unlock_dmap cl me bk pid name = cl(me \<mapsto> put_dmap n bk pid name (dm'\<lparr>d_mx := False\<rparr>))"
  by (simp add: unlock_dmap_def)

lemma d_mx_idle [op_simps]:
  "\<not> d_mx dm \<Longrightarrow> dm\<lparr>d_str := s, d_mx := False\<rparr> = dm\<lparr>d_str := s\<rparr>" "\<not> d_mx dm \<Longrightarrow> dm\<lparr>d_mx := False\<rparr> = dm"
  by (cases dm, simp)+

section \<open>Storing an entry\<close>

lemma put_dmap_store:
  assumes dm: "node_dmap n bk pid name = Some dm" and wf: "wf_node n" and pid: "pid = getPartitionID n h"
    and s: "storage_inv s" "storage_abs s = (storage_abs (d_str dm))(h := x)"
  shows "wf_node (put_dmap n bk pid name (dm\<lparr>d_str := s\<rparr>))"
    and "node_entry (put_dmap n bk pid name (dm\<lparr>d_str := s\<rparr>)) =
      set_entry (node_entry n) bk name h x"
proof -
  let ?n = "put_dmap n bk pid name (dm\<lparr>d_str := s\<rparr>)"
  have "\<not> d_mx dm" using wf dm unfolding wf_node_def by blast
  with wf s(1) dm show "wf_node ?n"
    unfolding wf_node_def by (auto simp: node_part_put_dmap split: if_splits)
  show "node_entry ?n = set_entry (node_entry n) bk name h x"
    using dm s(2) pid by (intro ext) (auto simp: node_entry_def set_entry_def)
qed

text \<open>\<open>getDMap\<close> on a node that keeps its data in memory only.\<close>

definition ensure_dmap :: "storage \<Rightarrow> node \<Rightarrow> bool \<Rightarrow> part_id \<Rightarrow> bytes \<Rightarrow> node" where
  "ensure_dmap str n bk pid name =
     (case node_part n bk pid of
        None \<Rightarrow> n
      | Some p \<Rightarrow>
          if fmlookup (p_m p) name \<noteq> None then n
          else set_part n bk pid (p\<lparr>p_m := fmupd name
                 \<lparr>d_mx = False, d_locker = Some newLocker, d_oplog = None, d_str = str\<rparr> (p_m p),
                 p_count := p_count p + 1\<rparr>))"

lemma frame_ensure: "frame n (ensure_dmap str n bk pid name)"
  by (auto simp: ensure_dmap_def split: option.splits intro: frame_set_part)

lemma ensure_present: "node_dmap n bk pid name \<noteq> None \<Longrightarrow> ensure_dmap str n bk pid name = n"
  by (auto simp: ensure_dmap_def node_dmap_def split: option.splits)

lemma ensure_node_dmap:
  assumes "node_part n bk pid \<noteq> None"
  obtains dm where "node_dmap (ensure_dmap str n bk pid name) bk pid name = Some dm"
    "d_str dm = (case node_dmap n bk pid name of None \<Rightarrow> str | Some dm0 \<Rightarrow> d_str dm0)"
    "d_locker dm = (case node_dmap n bk pid name of None \<Rightarrow> Some newLocker | Some dm0 \<Rightarrow> d_locker dm0)"
proof -
  obtain p where "node_part n bk pid = Some p" using assms by auto
  then have "\<exists>dm. node_dmap (ensure_dmap str n bk pid name) bk pid name = Some dm \<and>
      d_str dm = (case node_dmap n bk pid name of None \<Rightarrow> str | Some dm0 \<Rightarrow> d_str dm0) \<and>
      d_locker dm = (case node_dmap n bk pid name of None \<Rightarrow> Some newLocker | Some dm0 \<Rightarrow> d_locker dm0)"
    by (cases "fmlookup (p_m p) name") (simp_all add: ensure_dmap_def node_dmap_def)
  with that show ?thesis by blast
qed

lemma ensure_wf:
  assumes wf: "wf_node n" and str: "storage_inv str" "storage_abs str = Map.empty"
  shows "wf_node (ensure_dmap str n bk pid name)"
    and "node_entry (ensure_dmap str n bk pid name) = node_entry n"
proof -
  show "wf_node (ensure_dmap str n bk pid name)"
  proof (cases "node_part n bk pid")
    case None
    with wf show ?thesis by (simp add: ensure_dmap_def)
  next
    case (Some p)
    have dm: "node_dmap n bk pid nm = fmlookup (p_m p) nm" for nm using Some by (simp add: node_dmap_def)
    have "storage_inv (d_str d) \<and> \<not> d_mx d" if "fmlookup (p_m p) nm = Some d" for nm d
      using wf that dm unfolding wf_node_def by metis
    with wf str(1) Some show ?thesis unfolding wf_node_def ensure_dmap_def by (auto split: if_splits)
  qed
  show "node_entry (ensure_dmap str n bk pid name) = node_entry n"
    using str(2) by (intro ext) (auto simp: node_entry_def ensure_dmap_def node_dmap_def split: option.splits)
qed

lemma storage_New_ok:
  assumes "\<forall>k. mmap_ok os k"
  obtains str where "storage_New os 0 = Inr str" "storage_inv str" "storage_abs str = Map.empty" "\<And>h. sole str h"
proof -
  from assms obtain t where t: "newTable os 0 = Inr t" by (rule newTable_ok)
  let ?s = "\<lparr>tables = [t], merging = False, closed = False\<rparr>"
  have "storage_New os 0 = Inr ?s" "storage_inv ?s" "storage_abs ?s = Map.empty"
    using t newTable_Inr(1,2) [OF t] by (simp_all add: storage_New_def storage_inv_def storage_abs_def)
  moreover have "sole ?s h" for h using newTable_Inr(3) [OF t] by (simp add: sole_def tables_with_def)
  ultimately show ?thesis by (rule that)
qed

lemma getDMap_mem:
  assumes "cl me = Some n" and "OperationMode (n_cfg n) = OpInMemory" and "wf_node n"
    and "storage_New (w_os w) 0 = Inr str"
  shows "getDMap w cl me bk name h =
    ret (cl(me \<mapsto> ensure_dmap str n bk (getPartitionID n h) name)) (getPartitionID n h)"
proof -
  have "getPartitionID n h < PartitionCount (n_cfg n)"
    using assms(3) by (simp add: wf_node_def getPartitionID_def word_mod_less_divisor word_gt_0)
  then obtain p where "node_part n bk (getPartitionID n h) = Some p"
    using assms(3) unfolding wf_node_def by blast
  with assms show ?thesis
    by (simp add: getDMap_def createDMap_def with_node_Some ensure_dmap_def bind_op_ret Let_def fun_upd_idem)
qed

lemma wf_partition:
  assumes "wf_node n"
  obtains p where "node_part n bk (getPartitionID n h) = Some p"
proof -
  have "getPartitionID n h < PartitionCount (n_cfg n)"
    using assms by (simp add: wf_node_def getPartitionID_def word_mod_less_divisor word_gt_0)
  then show ?thesis using assms that unfolding wf_node_def by blast
qed

section \<open>The owner of a key\<close>

text \<open>
  A node that keeps its data in memory without backups, can always map memory, and is the only
  owner of the key's partition.
\<close>

definition sole_owner :: "world \<Rightarrow> node \<Rightarrow> hkey \<Rightarrow> host \<Rightarrow> bool" where
  "sole_owner w n h ow \<longleftrightarrow>
     wf_node n \<and> OperationMode (n_cfg n) = OpInMemory \<and> BackupCount (n_cfg n) = 0 \<and>
     (\<forall>k. mmap_ok (w_os w) k) \<and> getPartitionOwners n h = Some [ow] \<and> getBackupPartitionOwners n h = Some []"

lemma sole_owner_frame: "sole_owner w n h ow \<Longrightarrow> frame n n' \<Longrightarrow> wf_node n' \<Longrightarrow> sole_owner w n' h ow"
  using frameD(2) [of n n'] frame_owners [of n n'] by (simp add: sole_owner_def)

lemma sole_ownerE:
  assumes "sole_owner w n h ow" and "cl me = Some n"
  obtains n1 dm where "getDMap w cl me bk name h = ret (cl(me \<mapsto> n1)) (getPartitionID n h)"
    "node_dmap n1 bk (getPartitionID n h) name = Some dm" "sole_owner w n1 h ow" "frame n n1"
    "node_entry n1 = node_entry n" "storage_abs (d_str dm) h = node_entry n bk name h"
    "storage_inv (d_str dm)" "\<not> d_mx dm" "node_sole n bk name h \<Longrightarrow> sole (d_str dm) h"
    "d_locker dm = (case node_dmap n bk (getPartitionID n h) name of None \<Rightarrow> Some newLocker | Some d \<Rightarrow> d_locker d)"
proof -
  from assms(1) have wf: "wf_node n" and mem: "OperationMode (n_cfg n) = OpInMemory"
    and mm: "\<forall>k. mmap_ok (w_os w) k" by (simp_all add: sole_owner_def)
  from mm obtain str where str: "storage_New (w_os w) 0 = Inr str" "storage_inv str" "storage_abs str = Map.empty"
    and new: "\<And>h. sole str h" by (rule storage_New_ok) blast
  let ?n = "ensure_dmap str n bk (getPartitionID n h) name"
  from wf obtain p where "node_part n bk (getPartitionID n h) = Some p" by (rule wf_partition)
  then obtain dm where dm: "node_dmap ?n bk (getPartitionID n h) name = Some dm"
    and d_str: "d_str dm = (case node_dmap n bk (getPartitionID n h) name of None \<Rightarrow> str | Some d \<Rightarrow> d_str d)"
    and lk: "d_locker dm = (case node_dmap n bk (getPartitionID n h) name of None \<Rightarrow> Some newLocker | Some d \<Rightarrow> d_locker d)"
    by (metis ensure_node_dmap option.distinct(1))
  have wf': "wf_node ?n" and e: "node_entry ?n = node_entry n" by (rule ensure_wf [OF wf str(2,3)])+
  have id: "getPartitionID ?n h = getPartitionID n h" by (rule frame_owners(1) [OF frame_ensure])
  have "node_sole n bk name h \<Longrightarrow> sole (d_str dm) h"
    using new d_str by (auto simp: node_sole_def split: option.splits)
  moreover have "storage_abs (d_str dm) h = node_entry ?n bk name h" using dm id by (simp add: node_entry_def)
  moreover have "storage_inv (d_str dm)" "\<not> d_mx dm" using wf' dm unfolding wf_node_def by blast+
  moreover have "sole_owner w ?n h ow" by (rule sole_owner_frame [OF assms(1) frame_ensure wf'])
  moreover have "getDMap w cl me bk name h = ret (cl(me \<mapsto> ?n)) (getPartitionID n h)"
    using assms(2) mem wf str(1) by (rule getDMap_mem)
  ultimately show ?thesis using that dm frame_ensure e lk by metis
qed

lemma purge_sole:
  assumes "cl me = Some n" and "getPartitionOwners n h = Some [ow]"
  shows "purgeOldVersions rpc cl me h name key = ret cl ()"
  using assms by (simp add: purgeOldVersions_def with_node_Some)

lemma oplog_mem:
  assumes "cl me = Some n" and "OperationMode (n_cfg n) = OpInMemory" and "node_dmap n bk pid name = Some dm"
  shows "oplog_apply f cl me bk pid name h = ret cl ()"
  using assms by (simp add: oplog_apply_def with_dmap_Some)

lemma putKeyVal_owner:
  assumes own: "sole_owner w n h ow" and cl: "cl me = Some n" and key: "length key < maxKeyLen"
    and small: "length key + length value + 13 < minimumSize"
  shows "\<exists>n'. putKeyVal w rpc cl me h name key value timeout = ret (cl(me \<mapsto> n')) () \<and>
    sole_owner w n' h ow \<and> frame n n' \<and>
    node_entry n' = set_entry (node_entry n) False name h (Some (put_data n key value timeout))"
proof -
  let ?v = "put_data n key value timeout"
  let ?pid = "getPartitionID n h"
  from own cl obtain n1 dm where get: "getDMap w cl me False name h = ret (cl(me \<mapsto> n1)) ?pid"
    and dm: "node_dmap n1 False ?pid name = Some dm" and own1: "sole_owner w n1 h ow" and fr: "frame n n1"
    and e: "node_entry n1 = node_entry n" and inv: "storage_inv (d_str dm)" and mx: "\<not> d_mx dm"
    by (rule sole_ownerE)
  from own1 have wf1: "wf_node n1" and mem: "OperationMode (n_cfg n1) = OpInMemory"
    and nb: "BackupCount (n_cfg n1) = 0" and mm: "\<forall>k. mmap_ok (w_os w) k"
    and ow: "getPartitionOwners n1 h = Some [ow]" by (simp_all add: sole_owner_def)
  from storage_Put_small [OF inv mm, of ?v h] key small obtain s where
    s: "storage_Put (w_os w) (d_str dm) h ?v = Some (Ret (s, None))" "storage_inv s"
      "storage_abs s = (storage_abs (d_str dm))(h \<mapsto> ?v)" by (auto simp: entry_size_def put_data_def)
  let ?put = "put_dmap n1 False ?pid name"
  have "putKeyVal w rpc cl me h name key value timeout =
      ret (cl(me \<mapsto> ?put (dm\<lparr>d_str := s\<rparr>))) ()"
    using dm mx mem nb ow s(1)
    by (cases "timeout = 0")
      (simp_all add: putKeyVal_def get op_simps put_backup_step_def str_put_def oplog_mem purge_sole Let_def
        frame_time [OF fr] put_data_def)
  moreover have "?pid = getPartitionID n1 h" using frame_owners(1) [OF fr] by simp
  note put_dmap_store [OF dm wf1 this s(2,3)]
  moreover have "frame n (?put (dm\<lparr>d_str := s\<rparr>))" using fr frame_put_dmap by (rule frame_trans)
  ultimately show ?thesis using own sole_owner_frame e by (metis (no_types, lifting))
qed

lemma getKeyVal_owner:
  assumes own: "sole_owner w n h ow" and cl: "cl me = Some n"
  shows "\<exists>n'. getKeyVal w rpc cl me h name key = get_result (cl(me \<mapsto> n')) (live_value n False name h) \<and>
    sole_owner w n' h ow \<and> frame n n' \<and> node_entry n' = node_entry n"
proof -
  from own cl obtain n1 dm where get: "getDMap w cl me False name h = ret (cl(me \<mapsto> n1)) (getPartitionID n h)"
    and dm: "node_dmap n1 False (getPartitionID n h) name = Some dm" and own1: "sole_owner w n1 h ow"
    and fr: "frame n n1" and e: "node_entry n1 = node_entry n"
    and abs: "storage_abs (d_str dm) h = node_entry n False name h"
    and inv: "storage_inv (d_str dm)" by (rule sole_ownerE)
  have "getPartitionOwners n1 h = Some [ow]" "getBackupPartitionOwners n1 h = Some []"
    using own1 by (simp_all add: sole_owner_def)
  then have "getKeyVal w rpc cl me h name key = get_result (cl(me \<mapsto> n1)) (live_value n False name h)"
    using dm inv abs frame_time(2) [OF fr]
    by (cases "node_entry n False name h")
      (simp_all add: getKeyVal_def get op_simps str_get_def storage_Get_eq get_result_def live_value_def)
  with own1 fr e show ?thesis by blast
qed

lemma storage_Delete_sole:
  assumes inv: "storage_inv s" and mm: "\<forall>k. mmap_ok os k" and sole: "sole s h"
  shows "\<exists>s'. storage_Delete os s h = Ret (s', None) \<and> storage_inv s' \<and> storage_abs s' = (storage_abs s)(h := None)"
proof -
  from storage_Delete_returns [OF inv] obtain s' e where del: "storage_Delete os s h = Ret (s', e)" by blast
  obtain ts where ts: "delete_scan (rev (tables s)) h = Ret ts"
    using inv by (rule storage_Delete_scan)
  have "e = None"
    using del ts inv mm by (auto simp: storage_Delete_def storage_inv_def Let_def newTable_def malloc_def
        split: if_splits sum.splits)
  moreover have "prev_version (rev (tables s)) h = None"
    using sole inv by (intro prev_version_sole) (simp_all add: sole_def storage_inv_def)
  ultimately show ?thesis using storage_Delete_correct [OF inv del] del by simp
qed

lemma delKeyVal_owner:
  assumes own: "sole_owner w n h ow" and cl: "cl me = Some n" and sole: "node_sole n False name h"
  shows "\<exists>n'. bind_op (getDMap w cl me False name h) (\<lambda>cl pid.
        locked cl me False pid name (\<lambda>cl. delKeyVal w rpc cl me pid h name key)) = ret (cl(me \<mapsto> n')) () \<and>
    sole_owner w n' h ow \<and> frame n n' \<and> node_entry n' = set_entry (node_entry n) False name h None"
proof -
  let ?pid = "getPartitionID n h"
  from own cl obtain n1 dm where get: "getDMap w cl me False name h = ret (cl(me \<mapsto> n1)) ?pid"
    and dm: "node_dmap n1 False ?pid name = Some dm" and own1: "sole_owner w n1 h ow" and fr: "frame n n1"
    and e: "node_entry n1 = node_entry n" and inv: "storage_inv (d_str dm)" and mx: "\<not> d_mx dm"
    and sole': "node_sole n False name h \<Longrightarrow> sole (d_str dm) h"
    by (rule sole_ownerE [where bk = False and name = name]) blast
  from own1 have wf1: "wf_node n1" and mem: "OperationMode (n_cfg n1) = OpInMemory"
    and nb: "BackupCount (n_cfg n1) = 0" and mm: "\<forall>k. mmap_ok (w_os w) k"
    and ow: "getPartitionOwners n1 h = Some [ow]" by (simp_all add: sole_owner_def)
  from storage_Delete_sole [OF inv mm sole' [OF sole]] obtain s where
    s: "storage_Delete (w_os w) (d_str dm) h = Ret (s, None)" "storage_inv s"
      "storage_abs s = (storage_abs (d_str dm))(h := None)" by blast
  let ?put = "put_dmap n1 False ?pid name"
  have "bind_op (getDMap w cl me False name h) (\<lambda>cl pid.
        locked cl me False pid name (\<lambda>cl. delKeyVal w rpc cl me pid h name key)) =
      ret (cl(me \<mapsto> ?put (dm\<lparr>d_str := s\<rparr>))) ()"
    using dm mx mem nb ow s(1) by (simp add: delKeyVal_def get op_simps str_delete_def oplog_mem)
  moreover have "?pid = getPartitionID n1 h" using frame_owners(1) [OF fr] by simp
  note put_dmap_store [OF dm wf1 this s(2,3)]
  moreover have "frame n (?put (dm\<lparr>d_str := s\<rparr>))" using fr frame_put_dmap by (rule frame_trans)
  ultimately show ?thesis using own sole_owner_frame e by (metis (no_types, lifting))
qed

section \<open>Time limits\<close>

lemma sint_plus_nonneg:
  fixes a b :: "64 word"
  assumes "0 \<le> sint a" and "0 \<le> sint b"
  shows "sint (a + b) = (if sint a + sint b < 2 ^ 63 then sint a + sint b else sint a + sint b - 2 ^ 64)"
proof -
  have l: "sint a < 2 ^ 63" "sint b < 2 ^ 63" using sint_lt [of a] sint_lt [of b] by simp_all
  have "sint (a + b) = (sint a + sint b + 2 ^ 63) mod 2 ^ 64 - 2 ^ 63"
    by (simp add: sint_word_ariths signed_take_bit_eq_take_bit_shift take_bit_eq_mod)
  also have "\<dots> = (if sint a + sint b < 2 ^ 63 then sint a + sint b else sint a + sint b - 2 ^ 64)"
  proof (cases "sint a + sint b < 2 ^ 63")
    case True
    with assms have "(sint a + sint b + 2 ^ 63) mod 2 ^ 64 = sint a + sint b + 2 ^ 63"
      by (intro mod_pos_pos_trivial) simp_all
    with True show ?thesis by simp
  next
    case False
    have "(sint a + sint b + 2 ^ 63) mod 2 ^ 64 = (sint a + sint b + 2 ^ 63 - 2 ^ 64) mod 2 ^ 64"
      by (rule minus_mod_self2 [symmetric])
    also have "\<dots> = sint a + sint b + 2 ^ 63 - 2 ^ 64"
      using False l by (intro mod_pos_pos_trivial) simp_all
    finally show ?thesis using False by simp
  qed
  finally show ?thesis .
qed

lemma sint_word_of_int_small:
  assumes "- (2 ^ 63) \<le> i" and "i < 2 ^ 63"
  shows "sint (word_of_int i :: 64 word) = i"
  using assms by (simp add: signed_take_bit_int_eq_self sint_sbintrunc')

lemma to_millis_small:
  assumes "x = to_millis t"
  shows "sint (word_of_int x :: 64 word) = x"
proof -
  have "\<bar>sint t\<bar> \<le> 2 ^ 63" using sint_ge [of t] sint_lt [of t] by simp
  then have "\<bar>sint t\<bar> div 1000000 \<le> 2 ^ 63 div 1000000" by (rule zdiv_mono1) simp
  moreover have "0 \<le> \<bar>sint t\<bar> div 1000000" by simp
  moreover have "x = sgn (sint t) * (\<bar>sint t\<bar> div 1000000)"
    using assms by (simp add: to_millis_def signed_divide_int_def)
  ultimately show ?thesis by (intro sint_word_of_int_small) (auto simp: sgn_if)
qed

lemma isKeyExpired_getTTL:
  "isKeyExpired n' (getTTL n t) \<longleftrightarrow> to_millis (t + n_now n) \<noteq> 0 \<and> to_millis (t + n_now n) \<le> to_millis (n_now n')"
proof -
  have "sint (getTTL n t) = to_millis (t + n_now n)"
    unfolding getTTL_def by (rule to_millis_small) (rule refl)
  moreover from this have "getTTL n t = 0 \<longleftrightarrow> to_millis (t + n_now n) = 0" by (metis signed_eq_0_iff)
  ultimately show ?thesis by (auto simp: isKeyExpired_def)
qed

section \<open>Concrete nodes\<close>

text \<open>Two hosts and a node with one partition, in a world where nothing fails.\<close>

definition w_mem :: world where
  "w_mem =
     \<lparr>w_os = os_ok, w_env = env_mem, w_hash = (\<lambda>bs. word_of_nat (length bs)),
      w_marshal = (\<lambda>v. case v of VInt i \<Rightarrow> Inr (putUint64 i) | _ \<Rightarrow> Inl (ErrOther ''type'')),
      w_unmarshal = (\<lambda>bs. if length bs = 8 then Inr (VInt (getUint64 bs)) else Inl ErrEOF),
      w_box = (\<lambda>b. Inr (putUint64 (b_PartID b) @ b_Name b)),
      w_unbox = (\<lambda>bs. Inr \<lparr>b_PartID = getUint64 (take 8 bs), b_Name = drop 8 bs, b_Payload = []\<rparr>),
      w_export = (\<lambda>_. Inr []), w_import = (\<lambda>_. Inr (exported (table_of 7 entry_a))),
      w_rt = (\<lambda>_. Inr []), w_unrt = (\<lambda>_. Inr fmempty),
      w_hiter = iter_sorted, w_siter = sorted_list_of_fset,
      w_diter = (\<lambda>S. filter (\<lambda>x. x |\<in>| S) [[100]]), w_piter = sorted_list_of_fset,
      w_dial = (\<lambda>_. ErrOther ''connection refused''), w_sort = sort_key hBirthdate\<rparr>"

definition host_a :: host where "host_a = \<lparr>hName = [97], hBirthdate = 1\<rparr>"
definition host_b :: host where "host_b = \<lparr>hName = [98], hBirthdate = 2\<rparr>"

definition sample_node :: "host \<Rightarrow> host list \<Rightarrow> node" where
  "sample_node m owners =
     \<lparr>n_this = m, n_cfg = zero_config\<lparr>PartitionCount := 1, cName := hName m\<rparr>,
      n_parts = (\<lambda>i. if i = 0 then Some ((new_partition 0 False)\<lparr>p_owners := owners\<rparr>) else None),
      n_backups = (\<lambda>i. if i = 0 then Some (new_partition 0 True) else None),
      n_snap = empty_snapshot, n_boot = Booted, n_now = 0, n_max = DefaultMaxValueSize,
      n_members = [host_a, host_b], n_ring = consistent_New 1 20 (5 / 4), n_tasks = []\<rparr>"

lemma sample_node_sel [simp]:
  "n_this (sample_node m os) = m" "n_boot (sample_node m os) = Booted" "n_max (sample_node m os) = DefaultMaxValueSize"
  "n_cfg (sample_node m os) = zero_config\<lparr>PartitionCount := 1, cName := hName m\<rparr>" "n_now (sample_node m os) = 0"
  "n_members (sample_node m os) = [host_a, host_b]" "n_ring (sample_node m os) = consistent_New 1 20 (5 / 4)"
  "n_tasks (sample_node m os) = []" "n_snap (sample_node m os) = empty_snapshot"
  "n_parts (sample_node m os) = (\<lambda>i. if i = 0 then Some ((new_partition 0 False)\<lparr>p_owners := os\<rparr>) else None)"
  "n_backups (sample_node m os) = (\<lambda>i. if i = 0 then Some (new_partition 0 True) else None)"
  by (simp_all add: sample_node_def)

lemma word_lt_1 [simp]: "(x :: 64 word) < 1 \<longleftrightarrow> x = 0"
  by (simp add: word_less_nat_alt unsigned_eq_0_iff)

lemma sample_node_part [simp]: "getPartitionID (sample_node m os) h = 0"
  by (simp add: getPartitionID_def)

lemma sample_node_dmap [simp]: "node_dmap (sample_node m os) bk pid name = None"
  by (simp add: node_dmap_def node_part_def new_partition_def)

lemma sample_node_wf [simp]: "wf_node (sample_node m os)"
  unfolding wf_node_def by (auto simp: node_part_def)

lemma sample_node_owner: "sole_owner w_mem (sample_node m [ow]) h ow"
  by (simp add: sole_owner_def getPartitionOwners_def getBackupPartitionOwners_def new_partition_def
      zero_config_def w_mem_def)

section \<open>Properties\<close>

text \<open>
  A node is created with the clock at 0, and the first tick comes later: a time limit that is given before has
  passed at the tick.
\<close>

lemma new_node_clock: "olric_New hostname snap c = Inr n \<Longrightarrow> n_now n = 0"
  by (cases "OperationMode (case c of None \<Rightarrow> zero_config | Some c \<Rightarrow> c)"; cases snap)
    (auto simp: olric_New_def Let_def split: if_splits sum.splits)

lemma to_millis_nonneg: "0 \<le> sint t \<Longrightarrow> to_millis t = sint t div 1000000"
  by (cases "sint t = 0") (simp_all add: to_millis_def signed_divide_int_def sgn_if)

lemma early_limit:
  assumes "olric_New hostname snap c = Inr n" and "1000000 \<le> sint timeout" and "sint timeout \<le> sint now"
  shows "isKeyExpired (updateCurrentUnixNano n [now]) (getTTL n timeout)"
proof -
  have "sint timeout div 1000000 \<le> sint now div 1000000" using assms(3) by (rule zdiv_mono1) simp
  moreover have "0 < sint timeout div 1000000" using assms(2) by (simp add: pos_imp_zdiv_pos_iff)
  ultimately show ?thesis
    using assms(2,3) by (simp add: isKeyExpired_getTTL new_node_clock [OF assms(1)] to_millis_nonneg)
qed

text \<open>C2. When a key with a time limit expires: with the clock at \<open>n_now n\<close> at the put and a limit of
  \<open>t\<close> nanoseconds, a reader whose clock shows \<open>now'\<close> finds it expired exactly from the millisecond in
  which the sum falls, and never if that is the first millisecond of 1970. A limit so long that
  the sum leaves the signed 64 bits makes the key expire at once.\<close>

theorem ttl_window:
  assumes "0 \<le> sint (n_now n)" and "sint (n_now n) < 2 ^ 62" and "0 < sint t" and "0 \<le> sint now'"
  shows "isKeyExpired (n'\<lparr>n_now := now'\<rparr>) (getTTL n t) \<longleftrightarrow>
    (if sint (n_now n) + sint t < 2 ^ 63
     then 0 < (sint (n_now n) + sint t) div 1000000 \<and>
       (sint (n_now n) + sint t) div 1000000 \<le> sint now' div 1000000
     else True)"
proof -
  have now: "to_millis now' = sint now' div 1000000" using assms(4) by (rule to_millis_nonneg)
  have sum: "sint (t + n_now n) = (if sint (n_now n) + sint t < 2 ^ 63 then sint (n_now n) + sint t
      else sint (n_now n) + sint t - 2 ^ 64)"
    using sint_plus_nonneg [of t "n_now n"] assms(1,3) by (simp add: add.commute)
  show ?thesis
  proof (cases "sint (n_now n) + sint t < 2 ^ 63")
    case True
    then have "to_millis (t + n_now n) = (sint (n_now n) + sint t) div 1000000"
      using sum assms(1,3) by (simp add: to_millis_def signed_divide_int_def sgn_if)
    moreover have "0 \<le> (sint (n_now n) + sint t) div 1000000" using assms(1,3) by simp
    ultimately show ?thesis using True now by (auto simp: isKeyExpired_getTTL)
  next
    case False
    then have "sint (t + n_now n) \<le> - (2 ^ 62)" using sum assms(2) sint_lt [of t] by simp
    then have "to_millis (t + n_now n) < 0"
      by (simp add: to_millis_def signed_divide_int_def sgn_if pos_imp_zdiv_pos_iff)
    moreover have "0 \<le> sint now' div 1000000" using assms(4) by simp
    ultimately show ?thesis using False now by (simp add: isKeyExpired_getTTL)
  qed
qed

theorem ttl_window_witness:
  "\<not> isKeyExpired ((sample_node host_a [])\<lparr>n_now := 4999999\<rparr>) (getTTL ((sample_node host_a [])\<lparr>n_now := 2000000\<rparr>) 3000000) \<and>
   isKeyExpired ((sample_node host_a [])\<lparr>n_now := 5000000\<rparr>) (getTTL ((sample_node host_a [])\<lparr>n_now := 2000000\<rparr>) 3000000) \<and>
   isKeyExpired ((sample_node host_a [])\<lparr>n_now := 2000000\<rparr>)
     (getTTL ((sample_node host_a [])\<lparr>n_now := 2000000\<rparr>) 9223372036854775807)"
  using ttl_window [of "(sample_node host_a [])\<lparr>n_now := 2000000\<rparr>" 3000000 4999999 "sample_node host_a []"]
    ttl_window [of "(sample_node host_a [])\<lparr>n_now := 2000000\<rparr>" 3000000 5000000 "sample_node host_a []"]
    ttl_window [of "(sample_node host_a [])\<lparr>n_now := 2000000\<rparr>" 9223372036854775807 2000000 "sample_node host_a []"]
  by simp

end
