(* ===== verification/Cluster_Facts.thy ===== *)
theory Cluster_Facts
  imports Cluster Dmap_Facts
begin

text \<open>
  The cluster as one map: requests through the wire, and operations issued at any node on keys
  that any node owns.
\<close>

section \<open>Delivery\<close>

text \<open>What an operation relies on when it sends a request: the handler of the other node runs on it.\<close>

locale delivery =
  fixes w :: world and me :: addr and rpc :: rpc and nested :: "addr \<Rightarrow> rpc"
  assumes deliver: "\<lbrakk>cl to = Some n; wire_ok (n_max n) req; extra_ok req; Op req = op_byte oc;
      dispatch w (nested to) cl to (set_lengths req) oc = Done (cl', resp);
      cl' me = Some n'; wire_ok (n_max n') resp; extra_ok resp\<rbrakk> \<Longrightarrow> rpc cl to req = ret cl' (set_lengths resp)"
    and refuse: "cl to = None \<Longrightarrow> rpc cl to req = fail cl (w_dial w to)"
begin

lemma requestTo_delivered:
  assumes "cl (hName m) = Some n" and "wire_ok (n_max n) (req\<lparr>Magic := MagicReq, Op := op_byte oc\<rparr>)"
    and "extra_ok (req\<lparr>Magic := MagicReq, Op := op_byte oc\<rparr>)"
    and "dispatch w (nested (hName m)) cl (hName m) (set_lengths (req\<lparr>Magic := MagicReq, Op := op_byte oc\<rparr>)) oc =
      Done (cl', resp)"
    and "cl' me = Some n'" and "wire_ok (n_max n') resp" and "extra_ok resp"
  shows "requestTo rpc cl m oc req =
    (case response_error resp of Some e \<Rightarrow> fail cl' e | None \<Rightarrow> ret cl' (set_lengths resp))"
proof -
  have "rpc cl (hName m) (req\<lparr>Magic := MagicReq, Op := op_byte oc\<rparr>) = ret cl' (set_lengths resp)"
    using assms by (intro deliver) simp_all
  moreover have "response_error (set_lengths resp) = response_error resp" by (simp add: response_error_def)
  ultimately show ?thesis by (simp add: requestTo_def op_simps)
qed

end

lemma wire_rpc_deliver:
  assumes "cl to = Some n" and "wire_ok (n_max n) req" and "extra_ok req" and "Op req = op_byte oc"
    and "dispatch w (wire_rpc k w to) cl to (set_lengths req) oc = Done (cl', resp)"
    and "cl' me = Some n'" and "wire_ok (n_max n') resp" and "extra_ok resp"
  shows "wire_rpc (Suc k) w me cl to req = ret cl' (set_lengths resp)"
  using assms message_Read_ok [of "n_max n" req "[]" ErrEOF] message_Read_ok [of "n_max n'" resp "[]" ErrEOF]
  by (simp add: serve_request_def write_reply_def read_response_def slice_bytes_def op_simps)

interpretation wire: delivery w me "wire_rpc (Suc k) w me" "\<lambda>to. wire_rpc k w to" for w me k
proof
  fix cl to n req oc cl' resp n'
  assume "cl to = Some n" "wire_ok (n_max n) req" "extra_ok req" "Op req = op_byte oc"
    "dispatch w (wire_rpc k w to) cl to (set_lengths req) oc = Done (cl', resp)"
    "cl' me = Some n'" "wire_ok (n_max n') resp" "extra_ok resp"
  then show "wire_rpc (Suc k) w me cl to req = ret cl' (set_lengths resp)" by (rule wire_rpc_deliver)
qed simp

section \<open>A cluster with one owner per partition\<close>

text \<open>
  All nodes are up, agree on the owner \<open>route h\<close> of every key, keep their data in memory without
  backups and accept values of the default size.
\<close>

definition cluster_node :: "world \<Rightarrow> (hkey \<Rightarrow> host) \<Rightarrow> addr \<Rightarrow> node \<Rightarrow> bool" where
  "cluster_node w route x n \<longleftrightarrow>
     hName (n_this n) = x \<and> n_boot n = Booted \<and> DefaultMaxValueSize \<le> n_max n \<and>
     (\<forall>h. sole_owner w n h (route h))"

definition cluster_ok :: "world \<Rightarrow> (hkey \<Rightarrow> host) \<Rightarrow> cluster \<Rightarrow> bool" where
  "cluster_ok w route cl \<longleftrightarrow>
     (\<forall>x n. cl x = Some n \<longrightarrow> cluster_node w route x n) \<and>
     (\<forall>h. \<exists>n. cl (hName (route h)) = Some n \<and> n_this n = route h)"

definition cl_entry :: "(hkey \<Rightarrow> host) \<Rightarrow> cluster \<Rightarrow> bytes \<Rightarrow> hkey \<Rightarrow> vdata option" where
  "cl_entry route cl name h =
     (case cl (hName (route h)) of None \<Rightarrow> None | Some n \<Rightarrow> node_entry n False name h)"

lemma cluster_okE:
  assumes "cluster_ok w route cl"
  obtains n where "cl (hName (route h)) = Some n" "n_this n = route h" "n_boot n = Booted"
    "DefaultMaxValueSize \<le> n_max n" "sole_owner w n h (route h)" "cl_entry route cl name h = node_entry n False name h"
proof -
  from assms obtain n where n: "cl (hName (route h)) = Some n" "n_this n = route h"
    unfolding cluster_ok_def by blast
  with assms have "cluster_node w route (hName (route h)) n" unfolding cluster_ok_def by blast
  with n that show ?thesis by (simp add: cluster_node_def cl_entry_def)
qed

lemma cluster_ok_node:
  assumes ok: "cluster_ok w route cl" and n: "cl x = Some n" and n': "cluster_node w route x n'" "n_this n' = n_this n"
  shows "cluster_ok w route (cl(x \<mapsto> n'))"
proof -
  have "\<exists>m. (cl(x \<mapsto> n')) (hName (route h)) = Some m \<and> n_this m = route h" for h
  proof -
    from ok obtain m where "cl (hName (route h)) = Some m" "n_this m = route h" unfolding cluster_ok_def by blast
    with n n'(2) show ?thesis by (cases "x = hName (route h)") simp_all
  qed
  with ok n'(1) show ?thesis unfolding cluster_ok_def by simp
qed

lemma cluster_ok_update:
  assumes ok: "cluster_ok w route cl" and n: "cl x = Some n" and fr: "frame n n'" and wf: "wf_node n'"
  shows "cluster_ok w route (cl(x \<mapsto> n'))"
proof -
  have "cluster_node w route x n" using ok n unfolding cluster_ok_def by blast
  then have "cluster_node w route x n'"
    using frameD [OF fr] sole_owner_frame [OF _ fr wf] by (simp add: cluster_node_def)
  with ok n show ?thesis using frameD(1) [OF fr] by (rule cluster_ok_node)
qed

lemma locate_ok:
  assumes "n_boot n = Booted" and "getPartitionOwners n (getHKey w name key) = Some [ow]"
  shows "locateKey w cl n name key = ret cl (ow, getHKey w name key)"
  using assms by (simp add: locateKey_def locateHKey_def await_boot_def op_simps Let_def)

lemma hostCmp_refl [simp]: "hostCmp m m" by (simp add: hostCmp_def)

lemma sole_ownerD: "sole_owner w n h ow \<Longrightarrow> getPartitionOwners n h = Some [ow]" "sole_owner w n h ow \<Longrightarrow> wf_node n"
  by (simp_all add: sole_owner_def)

text \<open>Requests and responses of put and get are within the limits of the wire.\<close>

definition small_item :: "bytes \<Rightarrow> bytes \<Rightarrow> bytes \<Rightarrow> bool" where
  "small_item name key value \<longleftrightarrow>
     length name < 2 ^ 16 \<and> length key < maxKeyLen \<and> length key + length value + 13 < minimumSize"

lemma put_request_wire:
  assumes "small_item name key value" and "DefaultMaxValueSize \<le> maxv"
  shows "wire_ok maxv ((put_request name key value t)\<lparr>Magic := MagicReq, Op := x\<rparr>)"
  using assms by (auto simp: wire_ok_def put_request_def key_request_def empty_message_def small_item_def
      DefaultMaxValueSize_def minimumSize_def maxKeyLen_def)

lemma key_request_wire:
  assumes "length name < 2 ^ 16" and "length key < maxKeyLen" and "DefaultMaxValueSize \<le> maxv"
  shows "wire_ok maxv ((key_request name key)\<lparr>Magic := MagicReq, Op := x\<rparr>)"
    and "extra_ok ((key_request name key)\<lparr>Magic := MagicReq, Op := x\<rparr>)"
  using assms by (auto simp: wire_ok_def key_request_def empty_message_def extra_ok_def
      DefaultMaxValueSize_def maxKeyLen_def)

lemma response_wire:
  assumes "int (length v) \<le> maxv" and "length v < 2 ^ 20"
  shows "wire_ok maxv ((message_Success m)\<lparr>Value := v\<rparr>)" "extra_ok ((message_Success m)\<lparr>Value := v\<rparr>)"
    "0 \<le> maxv \<Longrightarrow> wire_ok maxv (message_Error m st [])" "extra_ok (message_Error m st [])"
  using assms by (auto simp: wire_ok_def message_Success_def message_Error_def empty_message_def extra_ok_def
      string_bytes_def)

lemma response_error_simps [simp]:
  "response_error ((message_Success m)\<lparr>Value := v\<rparr>) = None"
  "response_error (message_Success m) = None"
  "response_error (message_Error m StatusKeyNotFound t) = Some ErrKeyNotFound"
  "response_error (message_Error m StatusNoSuchLock t) = Some ErrNoSuchLock"
  "response_error (message_Error m StatusPartNotEmpty t) = Some ErrPartNotEmpty"
  "response_error (message_Error m StatusBackupNotEmpty t) = Some ErrBackupNotEmpty"
  by (simp_all add: response_error_def message_Success_def message_Error_def)

section \<open>Put and get at any node\<close>

lemma put_owner:
  assumes cl: "cl x = Some n" and self: "n_this n = ow" and boot: "n_boot n = Booted"
    and own: "sole_owner w n h ow" and h: "h = getHKey w name key" and item: "small_item name key value"
  shows "\<exists>n'. put w rpc cl x name key value t = ret (cl(x \<mapsto> n')) () \<and> frame n n' \<and> wf_node n' \<and>
    node_entry n' = set_entry (node_entry n) False name h (Some (put_data n key value t))"
proof -
  have "put w rpc cl x name key value t = putKeyVal w rpc cl x h name key value t"
    using cl self boot own h by (simp add: put_def op_simps locate_ok sole_ownerD)
  moreover have "length key < maxKeyLen" "length key + length value + 13 < minimumSize"
    using item by (simp_all add: small_item_def)
  note putKeyVal_owner [where cl = cl and me = x and rpc = rpc and name = name and timeout = t, OF own cl this]
  ultimately show ?thesis using sole_ownerD(2) by metis
qed

lemma get_owner:
  assumes cl: "cl x = Some n" and self: "n_this n = ow" and boot: "n_boot n = Booted"
    and own: "sole_owner w n h ow" and h: "h = getHKey w name key"
  shows "\<exists>n'. get w rpc cl x name key = get_result (cl(x \<mapsto> n')) (live_value n False name h) \<and>
    frame n n' \<and> wf_node n' \<and> node_entry n' = node_entry n"
proof -
  have "get w rpc cl x name key = getKeyVal w rpc cl x h name key"
    using cl self boot own h by (simp add: get_def op_simps locate_ok sole_ownerD)
  with getKeyVal_owner [where cl = cl and me = x and rpc = rpc and name = name and key = key, OF own cl]
  show ?thesis using sole_ownerD(2) by metis
qed

text \<open>The request of a put, as its handler sees it.\<close>

lemma put_dispatch:
  assumes "put w rpc cl x name key value t = ret cl' ()" and "oc = (if t \<noteq> 0 then OpExPutEx else OpExPut)"
    and "req = set_lengths ((put_request name key value t)\<lparr>Magic := MagicReq, Op := op_byte oc\<rparr>)"
  shows "dispatch w rpc cl x req oc = Done (cl', message_Success req)"
  using assms
  by (auto simp: exPutOperation_def exPutExOperation_def reply_unit_def put_request_def key_request_def op_simps)
    (simp_all add: ret_def)

definition get_response :: "message \<Rightarrow> bytes option \<Rightarrow> message" where
  "get_response req r =
     (case r of None \<Rightarrow> message_Error req StatusKeyNotFound [] | Some v \<Rightarrow> (message_Success req)\<lparr>Value := v\<rparr>)"

lemma get_dispatch:
  assumes "get w rpc cl x name key = get_result cl' r"
    and "req = set_lengths ((key_request name key)\<lparr>Magic := MagicReq, Op := op_byte OpExGet\<rparr>)"
  shows "dispatch w rpc cl x req OpExGet = Done (cl', get_response req r)"
proof -
  have "DMap req = name" "Key req = key" using assms(2) by (simp_all add: key_request_def)
  with assms(1) show ?thesis
    by (cases r) (simp_all add: exGetOperation_def reply_value_def get_result_def get_response_def slice_bytes_def
        ret_def fail_def)
qed

lemma get_response_wire:
  assumes "DefaultMaxValueSize \<le> maxv" and "\<And>v. r = Some v \<Longrightarrow> length v < 2 ^ 20"
  shows "wire_ok maxv (get_response req r)" "extra_ok (get_response req r)"
proof -
  have "wire_ok maxv (get_response req r) \<and> extra_ok (get_response req r)"
  proof (cases r)
    case None
    have "0 \<le> maxv" using assms(1) by (simp add: DefaultMaxValueSize_def)
    with None show ?thesis using response_wire(3,4) [of "[]" maxv] by (simp add: get_response_def)
  next
    case (Some v)
    have "int (length v) \<le> maxv" using assms(1) assms(2) [OF Some] by (simp add: DefaultMaxValueSize_def)
    with Some show ?thesis using response_wire(1,2) assms(2) [OF Some] by (simp add: get_response_def)
  qed
  then show "wire_ok maxv (get_response req r)" "extra_ok (get_response req r)" by blast+
qed

lemma hostCmp_owner:
  assumes "cluster_ok w route cl" and "cl x = Some n" and "hostCmp (route h) (n_this n)"
  shows "x = hName (route h)"
  using assms unfolding cluster_ok_def cluster_node_def hostCmp_def by metis

lemma delete_owner:
  assumes cl: "cl x = Some n" and self: "n_this n = ow" and boot: "n_boot n = Booted"
    and own: "sole_owner w n h ow" and h: "h = getHKey w name key" and sole: "node_sole n False name h"
  shows "\<exists>n'. deleteKey w rpc cl x name key = ret (cl(x \<mapsto> n')) () \<and> frame n n' \<and> wf_node n' \<and>
    node_entry n' = set_entry (node_entry n) False name h None"
proof -
  have "deleteKey w rpc cl x name key = bind_op (getDMap w cl x False name h) (\<lambda>cl pid.
      locked cl x False pid name (\<lambda>cl. delKeyVal w rpc cl x pid h name key))"
    using cl self boot own h by (simp add: deleteKey_def op_simps locate_ok sole_ownerD)
  with delKeyVal_owner [where cl = cl and me = x and rpc = rpc and name = name and key = key, OF own cl sole]
  show ?thesis using sole_ownerD(2) by metis
qed

lemma delete_dispatch:
  assumes "deleteKey w rpc cl x name key = ret cl' ()"
    and "req = set_lengths ((key_request name key)\<lparr>Magic := MagicReq, Op := op_byte OpExDelete\<rparr>)"
  shows "dispatch w rpc cl x req OpExDelete = Done (cl', message_Success req)"
proof -
  have "DMap req = name" "Key req = key" using assms(2) by (simp_all add: key_request_def)
  with assms(1) show ?thesis by (simp add: exDeleteOperation_def reply_unit_def ret_def)
qed

lemma success_wire:
  assumes "DefaultMaxValueSize \<le> maxv"
  shows "wire_ok maxv (message_Success req)" "extra_ok (message_Success req)"
  using assms response_wire(1,2) [of "[]" maxv req]
  by (simp_all add: DefaultMaxValueSize_def message_Success_def empty_message_def)

context delivery
begin

text \<open>A request that the owner of a key answers with success.\<close>

lemma request_owner:
  assumes me: "cl me = Some n" "DefaultMaxValueSize \<le> n_max n" and ow: "cl (hName m) = Some no"
    and fr: "frame no no'"
    and req: "req' = req\<lparr>Magic := MagicReq, Op := op_byte oc\<rparr>" "wire_ok (n_max no) req'" "extra_ok req'"
    and disp: "dispatch w (nested (hName m)) cl (hName m) (set_lengths req') oc =
      Done (cl(hName m \<mapsto> no'), message_Success (set_lengths req'))"
  shows "requestTo rpc cl m oc req =
    ret (cl(hName m \<mapsto> no')) (set_lengths (message_Success (set_lengths req')))"
proof (cases "me = hName m")
  case True
  then have "DefaultMaxValueSize \<le> n_max no'" using me ow frameD(5) [OF fr] by simp
  from requestTo_delivered [OF ow req(2,3) [unfolded req(1)] disp [unfolded req(1)] _ success_wire [OF this]] True
  show ?thesis by (simp add: req(1))
next
  case False
  from requestTo_delivered [OF ow req(2,3) [unfolded req(1)] disp [unfolded req(1)] _ success_wire [OF me(2)]] False me
  show ?thesis by (simp add: req(1))
qed

lemma put_delivered:
  assumes ok: "cluster_ok w route cl" and me: "cl me = Some n" and item: "small_item name key value"
    and h: "h = getHKey w name key" and ow: "cl (hName (route h)) = Some no"
  shows "\<exists>no'. put w rpc cl me name key value t = ret (cl(hName (route h) \<mapsto> no')) () \<and>
    frame no no' \<and> wf_node no' \<and>
    node_entry no' = set_entry (node_entry no) False name h (Some (put_data no key value t))"
proof -
  let ?x = "hName (route h)"
  from cluster_okE [OF ok, of h] ow have no: "n_this no = route h" "n_boot no = Booted"
    "DefaultMaxValueSize \<le> n_max no" "sole_owner w no h (route h)" by (metis option.inject)+
  have here: "\<exists>no'. put w rpc' cl ?x name key value t = ret (cl(?x \<mapsto> no')) () \<and> frame no no' \<and> wf_node no' \<and>
      node_entry no' = set_entry (node_entry no) False name h (Some (put_data no key value t))" for rpc'
    using ow no h item by (intro put_owner) simp_all
  from ok me have n: "n_boot n = Booted" "sole_owner w n h (route h)" "DefaultMaxValueSize \<le> n_max n"
    unfolding cluster_ok_def cluster_node_def by blast+
  show ?thesis
  proof (cases "hostCmp (route h) (n_this n)")
    case True
    with here [of rpc] hostCmp_owner [OF ok me] show ?thesis by simp
  next
    case False
    let ?oc = "if t \<noteq> 0 then OpExPutEx else OpExPut" and ?req = "put_request name key value t"
    from here [of "nested ?x"] obtain no' where
      put: "put w (nested ?x) cl ?x name key value t = ret (cl(?x \<mapsto> no')) ()" and fr: "frame no no'"
      and rest: "wf_node no'" "node_entry no' = set_entry (node_entry no) False name h (Some (put_data no key value t))"
      by blast
    have "requestTo rpc cl (route h) ?oc ?req = ret (cl(?x \<mapsto> no'))
        (set_lengths (message_Success (set_lengths (?req\<lparr>Magic := MagicReq, Op := op_byte ?oc\<rparr>))))"
      by (rule request_owner [where cl = cl, OF me n(3) ow fr refl put_request_wire [OF item no(3)] _
            put_dispatch [OF put refl refl]])
        (auto simp: extra_ok_def put_request_def key_request_def empty_message_def)
    then have "put w rpc cl me name key value t = ret (cl(?x \<mapsto> no')) ()"
      using me n False h by (simp add: put_def op_simps locate_ok sole_ownerD split del: if_split)
    with fr rest show ?thesis by blast
  qed
qed

lemma delete_delivered:
  assumes ok: "cluster_ok w route cl" and me: "cl me = Some n"
    and item: "length name < 2 ^ 16" "length key < maxKeyLen"
    and h: "h = getHKey w name key" and ow: "cl (hName (route h)) = Some no" and sole: "node_sole no False name h"
  shows "\<exists>no'. deleteKey w rpc cl me name key = ret (cl(hName (route h) \<mapsto> no')) () \<and>
    frame no no' \<and> wf_node no' \<and> node_entry no' = set_entry (node_entry no) False name h None"
proof -
  let ?x = "hName (route h)"
  from cluster_okE [OF ok, of h] ow have no: "n_this no = route h" "n_boot no = Booted"
    "DefaultMaxValueSize \<le> n_max no" "sole_owner w no h (route h)" by (metis option.inject)+
  have here: "\<exists>no'. deleteKey w rpc' cl ?x name key = ret (cl(?x \<mapsto> no')) () \<and> frame no no' \<and> wf_node no' \<and>
      node_entry no' = set_entry (node_entry no) False name h None" for rpc'
    using ow no h sole by (intro delete_owner) simp_all
  from ok me have n: "n_boot n = Booted" "sole_owner w n h (route h)" "DefaultMaxValueSize \<le> n_max n"
    unfolding cluster_ok_def cluster_node_def by blast+
  show ?thesis
  proof (cases "hostCmp (route h) (n_this n)")
    case True
    with here [of rpc] hostCmp_owner [OF ok me] show ?thesis by simp
  next
    case False
    let ?req = "(key_request name key)\<lparr>Magic := MagicReq, Op := op_byte OpExDelete\<rparr>"
    from here [of "nested ?x"] obtain no' where
      del: "deleteKey w (nested ?x) cl ?x name key = ret (cl(?x \<mapsto> no')) ()" and fr: "frame no no'"
      and rest: "wf_node no'" "node_entry no' = set_entry (node_entry no) False name h None" by blast
    have "requestTo rpc cl (route h) OpExDelete (key_request name key) =
        ret (cl(?x \<mapsto> no')) (set_lengths (message_Success (set_lengths ?req)))"
      by (rule request_owner [where cl = cl, OF me n(3) ow fr refl key_request_wire [OF item no(3)]
            delete_dispatch [OF del refl]])
    then have "deleteKey w rpc cl me name key = ret (cl(?x \<mapsto> no')) ()"
      using me n False h by (simp add: deleteKey_def op_simps locate_ok sole_ownerD)
    with fr rest show ?thesis by blast
  qed
qed

lemma get_delivered:
  assumes ok: "cluster_ok w route cl" and me: "cl me = Some n"
    and item: "length name < 2 ^ 16" "length key < maxKeyLen"
    and h: "h = getHKey w name key" and ow: "cl (hName (route h)) = Some no"
    and r: "\<And>v. live_value no False name h = Some v \<Longrightarrow> v \<noteq> [] \<and> length v < 2 ^ 20"
  shows "\<exists>no'. get w rpc cl me name key = get_result (cl(hName (route h) \<mapsto> no')) (live_value no False name h) \<and>
    frame no no' \<and> wf_node no' \<and> node_entry no' = node_entry no"
proof -
  let ?x = "hName (route h)" and ?r = "live_value no False name h"
  from cluster_okE [OF ok, of h] ow have no: "n_this no = route h" "n_boot no = Booted"
    "DefaultMaxValueSize \<le> n_max no" "sole_owner w no h (route h)" by (metis option.inject)+
  have here: "\<exists>no'. get w rpc' cl ?x name key = get_result (cl(?x \<mapsto> no')) ?r \<and>
      frame no no' \<and> wf_node no' \<and> node_entry no' = node_entry no" for rpc'
    using ow no h by (intro get_owner) simp_all
  from ok me have n: "n_boot n = Booted" "sole_owner w n h (route h)" "DefaultMaxValueSize \<le> n_max n"
    unfolding cluster_ok_def cluster_node_def by blast+
  show ?thesis
  proof (cases "hostCmp (route h) (n_this n)")
    case True
    with here [of rpc] hostCmp_owner [OF ok me] show ?thesis by simp
  next
    case False
    let ?req = "set_lengths ((key_request name key)\<lparr>Magic := MagicReq, Op := op_byte OpExGet\<rparr>)"
    from here [of "nested ?x"] obtain no' where
      get: "get w (nested ?x) cl ?x name key = get_result (cl(?x \<mapsto> no')) ?r"
      and fr: "frame no no'" and rest: "wf_node no'" "node_entry no' = node_entry no" by blast
    obtain n' where n': "(cl(?x \<mapsto> no')) me = Some n'" "DefaultMaxValueSize \<le> n_max n'"
      using me n(3) no(3) frameD(5) [OF fr] by (cases "me = ?x") auto
    have "requestTo rpc cl (route h) OpExGet (key_request name key) =
        (case response_error (get_response ?req ?r) of
           Some e \<Rightarrow> fail (cl(?x \<mapsto> no')) e
         | None \<Rightarrow> ret (cl(?x \<mapsto> no')) (set_lengths (get_response ?req ?r)))"
      using r by (intro requestTo_delivered [OF ow key_request_wire [OF item no(3)] get_dispatch [OF get refl] n'(1)]
          get_response_wire n'(2)) blast+
    then have "get w rpc cl me name key = get_result (cl(?x \<mapsto> no')) ?r"
      using me n False h r
      by (cases ?r) (simp_all add: get_def op_simps locate_ok sole_ownerD get_response_def resp_value_def get_result_def)
    with fr rest show ?thesis by blast
  qed
qed

end

section \<open>A concrete cluster\<close>

definition sample_cluster :: cluster where
  "sample_cluster = [hName host_a \<mapsto> sample_node host_a [host_b], hName host_b \<mapsto> sample_node host_b [host_b]]"

lemma sample_cluster_ok: "cluster_ok w_mem (\<lambda>_. host_b) sample_cluster"
  using sample_node_owner
  by (auto simp: cluster_ok_def cluster_node_def sample_cluster_def host_a_def host_b_def split: if_splits)

lemma sample_cluster_entry: "cl_entry (\<lambda>_. host_b) sample_cluster name h = None"
  by (simp add: cl_entry_def sample_cluster_def node_entry_def)

lemma sample_cluster_sel [simp]:
  "sample_cluster [97] = Some (sample_node host_a [host_b])" "sample_cluster [98] = Some (sample_node host_b [host_b])"
  by (simp_all add: sample_cluster_def host_a_def host_b_def)

end
