(* ===== verification/Cluster_History.thy ===== *)
theory Cluster_History
  imports Cluster_Facts
begin

text \<open>
  Histories of a cluster whose partitions have one owner each: puts, gets and deletes issued at
  any node, through the wire, and clocks that move in between. The cluster behaves like one map.
\<close>

section \<open>Histories\<close>

inductive cluster_run :: "world \<Rightarrow> (hkey \<Rightarrow> host) \<Rightarrow> cluster \<Rightarrow> (bytes \<Rightarrow> hkey \<Rightarrow> vdata option) \<Rightarrow> bool"
  for w :: world and route :: "hkey \<Rightarrow> host" where
  run_start: "cluster_ok w route cl \<Longrightarrow> (\<And>name h. cl_entry route cl name h = None) \<Longrightarrow>
    cluster_run w route cl (\<lambda>_ _. None)"
| run_put: "cluster_run w route cl m \<Longrightarrow> cl me = Some n \<Longrightarrow> h = getHKey w name key \<Longrightarrow>
    cl (hName (route h)) = Some no \<Longrightarrow> small_item name key value \<Longrightarrow> value \<noteq> [] \<Longrightarrow>
    put w (wire_rpc (Suc k) w me) cl me name key value t = Done (cl', r) \<Longrightarrow>
    cluster_run w route cl' (m(name := (m name)(h \<mapsto> put_data no key value t)))"
| run_get: "cluster_run w route cl m \<Longrightarrow> cl me = Some n \<Longrightarrow> length name < 2 ^ 16 \<Longrightarrow> length key < maxKeyLen \<Longrightarrow>
    get w (wire_rpc (Suc k) w me) cl me name key = Done (cl', r) \<Longrightarrow> cluster_run w route cl' m"
| run_delete: "cluster_run w route cl m \<Longrightarrow> cl me = Some n \<Longrightarrow> h = getHKey w name key \<Longrightarrow>
    cl (hName (route h)) = Some no \<Longrightarrow> node_sole no False name h \<Longrightarrow>
    length name < 2 ^ 16 \<Longrightarrow> length key < maxKeyLen \<Longrightarrow>
    deleteKey w (wire_rpc (Suc k) w me) cl me name key = Done (cl', r) \<Longrightarrow>
    cluster_run w route cl' (m(name := (m name)(h := None)))"
| run_clock: "cluster_run w route cl m \<Longrightarrow> cl x = Some n \<Longrightarrow> cluster_run w route (cl(x \<mapsto> n\<lparr>n_now := now\<rparr>)) m"

text \<open>The represented map, and values that are not empty and fit a message.\<close>

definition represents :: "world \<Rightarrow> (hkey \<Rightarrow> host) \<Rightarrow> cluster \<Rightarrow> (bytes \<Rightarrow> hkey \<Rightarrow> vdata option) \<Rightarrow> bool" where
  "represents w route cl m \<longleftrightarrow>
     cluster_ok w route cl \<and> (\<forall>name h. cl_entry route cl name h = m name h) \<and>
     (\<forall>name h v. m name h = Some v \<longrightarrow> vvalue v \<noteq> [] \<and> length (vvalue v) < 2 ^ 20)"

lemma represents_update:
  assumes rep: "represents w route cl m" and ow: "cl (hName (route h)) = Some no"
    and no': "frame no no'" "wf_node no'" "node_entry no' = set_entry (node_entry no) False name h x"
    and x: "\<And>v. x = Some v \<Longrightarrow> vvalue v \<noteq> [] \<and> length (vvalue v) < 2 ^ 20"
  shows "represents w route (cl(hName (route h) \<mapsto> no')) (m(name := (m name)(h := x)))"
proof -
  have "cluster_ok w route (cl(hName (route h) \<mapsto> no'))"
    using rep ow no'(1,2) unfolding represents_def by (blast intro: cluster_ok_update)
  moreover have "cl_entry route (cl(hName (route h) \<mapsto> no')) nm g = (m(name := (m name)(h := x))) nm g" for nm g
  proof -
    have "cl_entry route cl nm g = m nm g" using rep unfolding represents_def by blast
    then show ?thesis using ow no'(3) by (auto simp: cl_entry_def set_entry_def)
  qed
  moreover have "vvalue v \<noteq> [] \<and> length (vvalue v) < 2 ^ 20" if "(m(name := (m name)(h := x))) nm g = Some v" for nm g v
    using that x rep unfolding represents_def by (auto split: if_splits)
  ultimately show ?thesis unfolding represents_def by blast
qed

lemma represents_same:
  assumes rep: "represents w route cl m" and ow: "cl (hName (route h)) = Some no"
    and no': "frame no no'" "wf_node no'" "node_entry no' = node_entry no"
  shows "represents w route (cl(hName (route h) \<mapsto> no')) m"
proof -
  have "cluster_ok w route (cl(hName (route h) \<mapsto> no'))"
    using rep ow no'(1,2) unfolding represents_def by (blast intro: cluster_ok_update)
  moreover have "cl_entry route (cl(hName (route h) \<mapsto> no')) nm g = cl_entry route cl nm g" for nm g
    using ow no'(3) by (simp add: cl_entry_def)
  ultimately show ?thesis using rep unfolding represents_def by auto
qed

lemma represents_clock:
  assumes rep: "represents w route cl m" and n: "cl x = Some n"
  shows "represents w route (cl(x \<mapsto> n\<lparr>n_now := now\<rparr>)) m"
proof -
  let ?n = "n\<lparr>n_now := now\<rparr>"
  have sel: "node_part ?n = node_part n" "node_dmap ?n = node_dmap n" "getPartitionID ?n = getPartitionID n"
    by (intro ext, simp add: node_part_def node_dmap_def getPartitionID_def)+
  then have "wf_node ?n = wf_node n" "node_entry ?n = node_entry n"
    by (simp_all add: wf_node_def, intro ext, simp add: node_entry_def)
  moreover from sel(3) have "sole_owner w ?n h ow \<longleftrightarrow> sole_owner w n h ow" for h ow
    using calculation(1) by (simp add: sole_owner_def getPartitionOwners_def getBackupPartitionOwners_def)
  ultimately have node: "cluster_node w route y ?n \<longleftrightarrow> cluster_node w route y n"
    and entry: "node_entry ?n = node_entry n" for y by (simp_all add: cluster_node_def)
  have ok: "cluster_ok w route cl" using rep by (simp add: represents_def)
  then have "cluster_node w route x ?n" using n node unfolding cluster_ok_def by blast
  with ok n have "cluster_ok w route (cl(x \<mapsto> ?n))" by (rule cluster_ok_node) simp
  moreover have "cl_entry route (cl(x \<mapsto> ?n)) = cl_entry route cl"
    using n entry by (intro ext) (simp add: cl_entry_def)
  ultimately show ?thesis using rep by (simp add: represents_def)
qed

lemma represents_owner:
  assumes "represents w route cl m"
  obtains no where "cl (hName (route h)) = Some no" "node_entry no False name h = m name h"
    "\<And>v. live_value no False name h = Some v \<Longrightarrow> v \<noteq> [] \<and> length v < 2 ^ 20"
proof -
  from assms obtain no where no: "cl (hName (route h)) = Some no" and e: "cl_entry route cl name h = node_entry no False name h"
    unfolding represents_def by (metis cluster_okE)
  have m: "node_entry no False name h = m name h" using e assms unfolding represents_def by metis
  then have "v \<noteq> [] \<and> length v < 2 ^ 20" if "live_value no False name h = Some v" for v
    using that assms unfolding represents_def by (auto simp: live_value_def split: option.splits if_splits)
  with no m show ?thesis by (rule that)
qed

lemma cluster_run_represents: "cluster_run w route cl m \<Longrightarrow> represents w route cl m"
proof (induction rule: cluster_run.induct)
  case (run_start cl)
  then show ?case by (simp add: represents_def)
next
  case (run_put cl m me n h name key no "value" k t cl' r)
  then have ok: "cluster_ok w route cl" by (simp add: represents_def)
  from wire.put_delivered [where k = k and t = t, OF ok run_put.hyps(2,5,3,4)] run_put.hyps(7) obtain no' where
    "cl' = cl(hName (route h) \<mapsto> no')" "frame no no'" "wf_node no'"
    "node_entry no' = set_entry (node_entry no) False name h (Some (put_data no key value t))"
    by (auto simp: ret_def)
  moreover have "vvalue v \<noteq> [] \<and> length (vvalue v) < 2 ^ 20" if "Some (put_data no key value t) = Some v" for v
    using that run_put.hyps(5,6) by (auto simp: put_data_def small_item_def minimumSize_def)
  ultimately show ?case using represents_update [where route = route, OF run_put.IH run_put.hyps(4)] by metis
next
  case (run_get cl m me n name key k cl' r)
  then have ok: "cluster_ok w route cl" by (simp add: represents_def)
  obtain no where no: "cl (hName (route (getHKey w name key))) = Some no"
    and live: "\<And>v. live_value no False name (getHKey w name key) = Some v \<Longrightarrow> v \<noteq> [] \<and> length v < 2 ^ 20"
    using run_get.IH by (rule represents_owner) blast
  from wire.get_delivered [where k = k, OF ok run_get.hyps(2-4) refl no live] run_get.hyps(5) obtain no' where
    "cl' = cl(hName (route (getHKey w name key)) \<mapsto> no')" "frame no no'" "wf_node no'" "node_entry no' = node_entry no"
    by (auto simp: ret_def fail_def get_result_def split: option.splits)
  with represents_same [where route = route, OF run_get.IH no] show ?case by blast
next
  case (run_delete cl m me n h name key no k cl' r)
  then have ok: "cluster_ok w route cl" by (simp add: represents_def)
  from wire.delete_delivered [where k = k, OF ok run_delete.hyps(2,6,7,3,4,5)] run_delete.hyps(8) obtain no' where
    "cl' = cl(hName (route h) \<mapsto> no')" "frame no no'" "wf_node no'"
    "node_entry no' = set_entry (node_entry no) False name h None" by (auto simp: ret_def)
  with represents_update [where route = route and x = None, OF run_delete.IH run_delete.hyps(4)] show ?case by blast
next
  case (run_clock cl m x n now)
  from run_clock.IH run_clock.hyps(2) show ?case by (rule represents_clock)
qed

section \<open>Properties\<close>



end
