(* ===== verification/Server_Facts.thy ===== *)
theory Server_Facts
  imports Cluster_Facts
begin

text \<open>
  What a node's server guarantees: the form of its responses, the end of a connection, and two
  ways in which it goes wrong, a value that is executed and requests that run in a circle.
\<close>

section \<open>The form of responses\<close>

definition response_to :: "message \<Rightarrow> message \<Rightarrow> bool" where
  "response_to req resp \<longleftrightarrow>
     Magic resp = MagicRes \<and> Op resp = Op req \<and> (\<exists>st. Status resp = status_byte st) \<and>
     Extra resp = None \<and> ExtraLen resp = 0 \<and> DMap resp = [] \<and> Key resp = []"

lemma response_to_simps [simp]:
  "response_to req (message_Success req)" "response_to req (message_Error req st txt)"
  "response_to req ((message_Success req)\<lparr>Value := v\<rparr>)"
proof -
  have "\<exists>st. 0 = status_byte st" by (rule exI [of _ StatusOK]) simp
  then show "response_to req (message_Success req)" "response_to req (message_Error req st txt)"
    "response_to req ((message_Success req)\<lparr>Value := v\<rparr>)"
    by (auto simp: response_to_def message_Success_def message_Error_def empty_message_def)
qed

text \<open>Handlers end in a response computed from the outcome of an operation.\<close>

lemma reply_typed:
  assumes "bind_run c (\<lambda>(cl, r). Done (cl, f r)) = Done (cl', resp)" and "\<And>r. response_to req (f r)"
  shows "response_to req resp"
  using assms by (cases c) (auto split: prod.split_asm)

lemma reply_response_to:
  "reply_unit req c = Done (cl', resp) \<Longrightarrow> response_to req resp"
  "reply_value req d = Done (cl', resp) \<Longrightarrow> response_to req resp"
  "reply_lock req c = Done (cl', resp) \<Longrightarrow> response_to req resp"
  unfolding reply_unit_def reply_value_def reply_lock_def
  by (erule reply_typed, simp split: sum.split)+

lemma atomic_response_to:
  "exIncrDecrOperation w rpc cl me req = Done (cl', resp) \<Longrightarrow> response_to req resp"
  "exGetPutOperation w rpc cl me req = Done (cl', resp) \<Longrightarrow> response_to req resp"
  unfolding exIncrDecrOperation_def exGetPutOperation_def
  by (auto split: sum.split_asm gval.split_asm sum.split elim!: reply_typed simp del: bind_run_Done_iff)

lemma findLock_response_to: "findLockOperation w cl me req = Done (cl', resp) \<Longrightarrow> response_to req resp"
  unfolding findLockOperation_def Let_def
  by (cases "getDMap w cl me False (DMap req) (getHKey w (DMap req) (Key req))")
    (auto simp: with_locker_def with_dmap_def with_node_def split: sum.split_asm option.split_asm prod.split_asm if_split_asm)

lemma with_node_Done: "with_node cl me f = Done y \<longleftrightarrow> (\<exists>n. cl me = Some n \<and> f n = Done y)"
  by (auto simp: with_node_def split: option.splits)

lemma with_dmap_Done:
  "with_dmap cl me bk pid name f = Done y \<longleftrightarrow>
     (\<exists>n dm. cl me = Some n \<and> node_dmap n bk pid name = Some dm \<and> f n dm = Done y)"
  by (auto simp: with_dmap_def with_node_Done split: option.splits)

lemmas handler_defs =
  exPutOperation_def exPutExOperation_def putBackupOperation_def exGetOperation_def getPrevOperation_def
  getBackupOperation_def exDeleteOperation_def deleteBackupOperation_def deletePrevOperation_def delete_copy_def
  exLockWithTimeoutOperation_def exUnlockOperation_def lockPrevOperation_def unlockPrevOperation_def
  exDestroyOperation_def destroyDMapOperation_def moveDMapOperation_def moveBackupDMapOperation_def
  move_operation_def isPartEmptyOperation_def isBackupEmptyOperation_def is_empty_operation_def

lemma update_response_to: "updateRoutingOperation w cl me req = Done (cl', resp) \<Longrightarrow> response_to req resp"
  by (auto simp: updateRoutingOperation_def with_node_Done split: sum.split_asm)

lemma dispatch_response_to: "dispatch w rpc cl me req oc = Done (cl', resp) \<Longrightarrow> response_to req resp"
  by (cases oc)
    (auto simp: handler_defs with_node_Done Let_def
      dest: reply_response_to atomic_response_to findLock_response_to update_response_to
      split: option.split_asm extra.split_asm sum.split_asm if_split_asm)

section \<open>Reading from a connection\<close>

lemma message_Read_consumes:
  assumes "message_Read maxv m c = Ret (m', c', e)"
  shows "rerr c' = rerr c \<and> (length (avail c') < length (avail c) \<or> e = Some (filterNetworkErrors (rerr c)))"
proof -
  have ret: "map_ret f r = Ret y \<longleftrightarrow> (\<exists>x. r = Ret x \<and> y = f x)" for f :: "message \<times> gerr option \<Rightarrow> message \<times> conn \<times> gerr option" and r y
    by (cases r) auto
  show ?thesis using assms
    by (auto simp: message_Read_def copyN_def Let_def headerSize_def ret split: if_split_asm option.split_asm)
qed

lemma filterNetworkErrors_closed:
  "e = ErrEOF \<or> e = ErrConnClosed \<Longrightarrow> filterNetworkErrors e = ErrEOF \<or> filterNetworkErrors e = ErrConnClosed"
  by (auto simp: filterNetworkErrors_def)

lemma serve_request_consumes:
  assumes "serve_request w rpc cl me c = Done (cl', c', r)" and "r \<noteq> Ends" and "rerr c = ErrEOF \<or> rerr c = ErrConnClosed"
  shows "rerr c' = rerr c \<and> length (avail c') < length (avail c)"
proof -
  from assms(1) obtain n where n: "cl me = Some n" by (auto simp: serve_request_def with_node_Done)
  with assms(1) obtain req c1 e where read: "message_Read (n_max n) empty_message c = Ret (req, c1, e)"
    by (cases "message_Read (n_max n) empty_message c") (auto simp: serve_request_def with_node_def)
  then have c1: "c1 = c' \<and> (e = None \<or> (\<exists>x. e = Some x \<and> x \<noteq> ErrEOF \<and> x \<noteq> ErrConnClosed))"
  proof (cases e)
    case None
    with assms(1,2) n read show ?thesis
      by (cases "op_of (Op req)") (auto simp: serve_request_def with_node_def)
  next
    case (Some x)
    with assms(1,2) n read show ?thesis by (auto simp: serve_request_def with_node_def split: if_split_asm)
  qed
  with message_Read_consumes [OF read] filterNetworkErrors_closed [OF assms(3)] show ?thesis by auto
qed

lemma handleConn_returns:
  assumes "rerr c = ErrEOF \<or> rerr c = ErrConnClosed"
  shows "\<exists>r. handleConn w rpc cl me wr c out = Some r"
  using assms
proof (induction "length (avail c)" arbitrary: c cl out rule: less_induct)
  case less
  show ?case
  proof (cases "serve_request w rpc cl me c")
    case (Done x)
    obtain cl' c' r where x: "x = (cl', c', r)" by (cases x)
    show ?thesis
    proof (cases "write_reply wr r")
      case None
      with Done x show ?thesis by (subst handleConn.simps) simp
    next
      case (Some bs)
      then have "r \<noteq> Ends" by (auto simp: write_reply_def)
      with Done x less.prems have "rerr c' = rerr c" "length (avail c') < length (avail c)"
        using serve_request_consumes by blast+
      with less obtain y where "handleConn w rpc cl' me wr c' (out @ [bs]) = Some y" by metis
      with Done x Some show ?thesis by (subst handleConn.simps) simp
    qed
  qed (subst handleConn.simps, simp)+
qed

section \<open>A value that is too big\<close>

lemma message_Read_too_big:
  assumes ok: "wire_ok (int (length (Value m))) m" and none: "Extra m = None" "ExtraLen m = 0"
    and big: "maxv < int (length (Value m))"
  shows "message_Read maxv empty_message \<lparr>avail = message_bytes m @ rest, rerr = e\<rparr> =
    Ret (with_header empty_message (set_lengths m), \<lparr>avail = DMap m @ Key m @ Value m @ rest, rerr = e\<rparr>,
      Some ErrValueTooBig)"
proof -
  let ?m = "with_header empty_message (set_lengths m)"
  have "Extra m = None \<longrightarrow> ExtraLen m = 0" using none by simp
  from set_lengths_unat [OF ok this] have "value_len ?m = int (length (Value m))"
    by (simp add: with_header_def value_len_def)
  moreover have "decode_header (encode_header (set_lengths m)) empty_message = ?m"
    by (simp add: decode_encode_header with_header_def)
  moreover have "Magic ?m = MagicReq \<or> Magic ?m = MagicRes" using ok by (simp add: wire_ok_def with_header_def)
  ultimately show ?thesis
    using big none by (simp add: message_Read_def copyN_def message_bytes_def Let_def)
qed

section \<open>Requests in a circle\<close>

text \<open>Node \<open>x\<close> takes \<open>y\<close> for the owner of the key.\<close>

definition points_to :: "cluster \<Rightarrow> hkey \<Rightarrow> host \<Rightarrow> host \<Rightarrow> bool" where
  "points_to cl h x y \<longleftrightarrow>
     (\<exists>n os. cl (hName x) = Some n \<and> n_this n = x \<and> n_boot n = Booted \<and> DefaultMaxValueSize \<le> n_max n \<and>
       getPartitionOwners n h = Some (os @ [y])) \<and> hName x \<noteq> hName y"

lemma get_forwards:
  assumes "points_to cl (getHKey w name key) x y"
    and "rpc cl (hName y) ((key_request name key)\<lparr>Magic := MagicReq, Op := op_byte OpExGet\<rparr>) = Hang"
  shows "get w rpc cl (hName x) name key = Hang"
proof -
  from assms(1) obtain n os where n: "cl (hName x) = Some n" "n_this n = x" "n_boot n = Booted"
    "getPartitionOwners n (getHKey w name key) = Some (os @ [y])" and ne: "hName x \<noteq> hName y"
    unfolding points_to_def by blast
  have "locateKey w cl n name key = ret cl (y, getHKey w name key)"
    using n(3,4) by (simp add: locateKey_def locateHKey_def await_boot_def op_simps Let_def)
  moreover have "\<not> hostCmp y (n_this n)" using n(2) ne by (auto simp: hostCmp_def)
  ultimately show ?thesis
    using n(1) assms(2) by (simp add: get_def op_simps requestTo_def bind_op_def)
qed

lemma wire_rpc_hang:
  assumes "cl to = Some n" and "wire_ok (n_max n) req" and "extra_ok req" and "Op req = op_byte oc"
    and "dispatch w (wire_rpc k w to) cl to (set_lengths req) oc = Hang"
  shows "wire_rpc (Suc k) w me cl to req = Hang"
  using assms message_Read_ok [of "n_max n" req "[]" ErrEOF] by (simp add: serve_request_def op_simps)

lemma wire_rpc_circle:
  assumes "points_to cl (getHKey w name key) x y" and "points_to cl (getHKey w name key) y x"
    and "length name < 2 ^ 16" and "length key < maxKeyLen"
  shows "wire_rpc k w (hName x) cl (hName y) ((key_request name key)\<lparr>Magic := MagicReq, Op := op_byte OpExGet\<rparr>) = Hang"
  using assms(1,2)
proof (induction k arbitrary: x y)
  case 0
  show ?case by simp
next
  case (Suc k)
  let ?req = "(key_request name key)\<lparr>Magic := MagicReq, Op := op_byte OpExGet\<rparr>"
  from Suc.prems(2) obtain n where n: "cl (hName y) = Some n" "DefaultMaxValueSize \<le> n_max n"
    unfolding points_to_def by blast
  have "get w (wire_rpc k w (hName y)) cl (hName y) name key = Hang"
    using Suc.prems(2) Suc.IH [OF Suc.prems(2,1)] by (rule get_forwards)
  then have "dispatch w (wire_rpc k w (hName y)) cl (hName y) (set_lengths ?req) OpExGet = Hang"
    by (simp add: exGetOperation_def reply_value_def key_request_def)
  moreover have "Op ?req = op_byte OpExGet" by simp
  ultimately show ?case
    by (intro wire_rpc_hang [where cl = cl and to = "hName y", OF n(1) key_request_wire [OF assms(3,4) n(2)]])
qed

section \<open>Unknown operations\<close>

text \<open>A request whose operation is not registered is refused with an error, and the connection goes on after it.\<close>

lemma unknown_operation_refused:
  assumes "cl me = Some n" and "wire_ok (n_max n) req" and "extra_ok req" and "24 \<le> Op req"
  shows "serve_request w rpc cl me \<lparr>avail = message_bytes req @ rest, rerr = e\<rparr> =
    Done (cl, \<lparr>avail = rest, rerr = e\<rparr>,
      Refusal (error_reply (set_lengths req) (''unknown operation: '' @ itoa (uint (Op req)))))"
proof -
  have "op_of (Op req) = None" using assms(4) by (simp add: op_of_None_iff)
  then show ?thesis using assms(1) by (simp add: serve_request_def with_node_Some message_Read_ok [OF assms(2,3)])
qed

section \<open>Properties\<close>





text \<open>C32. A value above the size limit is executed: the server refuses the request but does not skip
  its body, so when the body is the encoding of another request, the server runs that request
  next and writes a second response.\<close>

theorem oversized_value_executed:
  assumes "cl me = Some n" and "Magic m = MagicReq" "Extra m = None" "ExtraLen m = 0" "DMap m = []" "Key m = []"
    and "Value m = message_bytes req @ pad" and "n_max n < int (length (Value m))" and "length (Value m) + 8 < 2 ^ 32"
    and "wire_ok (n_max n) req" and "extra_ok req" and "Op req = op_byte oc"
    and "dispatch w rpc cl me (set_lengths req) oc = Done (cl', resp)" and "\<And>bs. wr bs = None"
  shows "handleConn w rpc cl me wr \<lparr>avail = message_bytes m, rerr = e\<rparr> out =
    handleConn w rpc cl' me wr \<lparr>avail = pad, rerr = e\<rparr>
      (out @ [error_reply m (''failed to read request: '' @ err_text ErrValueTooBig),
              message_bytes resp])"
proof -
  have "wire_ok (int (length (Value m))) m" using assms(2,5,6,9) by (simp add: wire_ok_def)
  from message_Read_too_big [OF this assms(3,4,8), of "[]" e]
  have "serve_request w rpc cl me \<lparr>avail = message_bytes m, rerr = e\<rparr> =
      Done (cl, \<lparr>avail = message_bytes req @ pad, rerr = e\<rparr>,
        Refusal (error_reply m (''failed to read request: '' @ err_text ErrValueTooBig)))"
    using assms(1,5,6,7) by (simp add: serve_request_def with_node_Some error_reply_def message_Error_def with_header_def)
  moreover have "serve_request w rpc cl me \<lparr>avail = message_bytes req @ pad, rerr = e\<rparr> =
      Done (cl', \<lparr>avail = pad, rerr = e\<rparr>, Answer (set_lengths req) (message_bytes resp))"
    using assms(1,12,13) message_Read_ok [OF assms(10,11), of pad e]
    by (simp add: serve_request_def with_node_Some)
  ultimately show ?thesis
    using assms(14) by (subst handleConn.simps, simp add: write_reply_def, subst handleConn.simps, simp add: write_reply_def)
qed

theorem oversized_value_executed_witness:
  "\<exists>cl m resp. handleConn w_mem (wire_rpc 1 w_mem [98]) cl [98] (\<lambda>_. None) \<lparr>avail = message_bytes m, rerr = ErrEOF\<rparr> [] =
    handleConn w_mem (wire_rpc 1 w_mem [98]) cl [98] (\<lambda>_. None) \<lparr>avail = [], rerr = ErrEOF\<rparr>
      [error_reply m (''failed to read request: '' @ err_text ErrValueTooBig),
       message_bytes (message_Success resp)] \<and> Op resp = op_byte OpIsPartEmpty"
proof -
  define cl where "cl = sample_cluster([98] \<mapsto> (sample_node host_b [host_b])\<lparr>n_max := 5\<rparr>)"
  define req where "req = empty_message\<lparr>Magic := MagicReq, Op := op_byte OpIsPartEmpty, Extra := Some (IsPartEmptyExtra 0)\<rparr>"
  define m where "m = empty_message\<lparr>Magic := MagicReq, Op := op_byte OpPut, Value := message_bytes req @ []\<rparr>"
  have cl: "cl [98] = Some ((sample_node host_b [host_b])\<lparr>n_max := 5\<rparr>)" by (simp add: cl_def)
  have d: "dispatch w_mem (wire_rpc 1 w_mem [98]) cl [98] (set_lengths req) OpIsPartEmpty =
      Done (cl, message_Success (set_lengths req))"
    by (simp add: req_def cl isPartEmptyOperation_def is_empty_operation_def with_node_Some node_part_def new_partition_def)
  have len: "5 < int (length (Value m))" "length (Value m) + 8 < 2 ^ 32"
    by (simp_all add: m_def req_def message_bytes_def headerSize_def empty_message_def)
  have "handleConn w_mem (wire_rpc 1 w_mem [98]) cl [98] (\<lambda>_. None) \<lparr>avail = message_bytes m, rerr = ErrEOF\<rparr> [] =
    handleConn w_mem (wire_rpc 1 w_mem [98]) cl [98] (\<lambda>_. None) \<lparr>avail = [], rerr = ErrEOF\<rparr>
      ([] @ [error_reply m (''failed to read request: '' @ err_text ErrValueTooBig),
       message_bytes (message_Success (set_lengths req))])"
    by (rule oversized_value_executed [where pad = "[]" and oc = OpIsPartEmpty and req = req and cl = cl and me = "[98]", OF cl])
      (use d len in \<open>simp_all only: m_def [symmetric] req_def [symmetric]\<close>,
       simp_all add: m_def req_def wire_ok_def extra_ok_def empty_message_def)
  then show ?thesis by (intro exI [of _ cl] exI [of _ m] exI [of _ "set_lengths req"]) (simp add: req_def)
qed

text \<open>C35. A request can run in a circle forever: when two nodes each take the other one for the owner
  of a key, a get at either of them is forwarded back and forth and never returns, however
  many nested requests are allowed.\<close>

theorem forwarding_loop:
  assumes "points_to cl (getHKey w name key) x y" and "points_to cl (getHKey w name key) y x"
    and "length name < 2 ^ 16" and "length key < maxKeyLen"
  shows "get w (wire_rpc k w (hName x)) cl (hName x) name key = Hang"
  using assms(1) wire_rpc_circle [OF assms] by (rule get_forwards)

theorem forwarding_loop_witness:
  "get w_mem (wire_rpc 5 w_mem [97])
     (sample_cluster([98] \<mapsto> sample_node host_b [host_a])) [97] [100] [107] = Hang"
proof -
  let ?cl = "sample_cluster([98] \<mapsto> sample_node host_b [host_a])"
  have "points_to ?cl h host_a host_b" "points_to ?cl h host_b host_a" for h
    unfolding points_to_def
    by (auto simp: host_a_def host_b_def getPartitionOwners_def intro: exI [of _ "[]"])
  from forwarding_loop [OF this, where name = "[100]" and key = "[107]" and k = 5 and w = w_mem] show ?thesis
    by (simp add: host_a_def maxKeyLen_def)
qed

end
