(* ===== verification/Atomic_Facts.thy ===== *)
theory Atomic_Facts
  imports Cluster_Facts
begin

text \<open>
  The atomic operations of \<open>dmap_atomic.go\<close> on the node that owns the key: the lock is taken, the entry is read and
  replaced, and the lock is released again.
\<close>

section \<open>Operations on a DMap that exists\<close>

lemma getDMap_present:
  assumes "sole_owner w n h ow" and "cl me = Some n" and "node_dmap n False (getPartitionID n h) name = Some dm"
  shows "getDMap w cl me False name h = ret cl (getPartitionID n h)"
proof -
  have "\<forall>k. mmap_ok (w_os w) k" using assms(1) by (simp add: sole_owner_def)
  then obtain str where "storage_New (w_os w) 0 = Inr str" by (rule storage_New_ok)
  then have "getDMap w cl me False name h =
      ret (cl(me \<mapsto> ensure_dmap str n False (getPartitionID n h) name)) (getPartitionID n h)"
    using assms(1,2) by (intro getDMap_mem) (simp_all add: sole_owner_def)
  then show ?thesis using assms(2,3) by (simp add: ensure_present fun_upd_idem)
qed

lemma getKeyVal_present:
  assumes own: "sole_owner w n h ow" and cl: "cl me = Some n" and dm: "node_dmap n False (getPartitionID n h) name = Some dm"
  shows "getKeyVal w rpc cl me h name key = get_result cl (live_value n False name h)"
proof -
  have "storage_inv (d_str dm)" using own dm unfolding sole_owner_def wf_node_def by blast
  moreover have "node_entry n False name h = storage_abs (d_str dm) h" using dm by (simp add: node_entry_def)
  moreover have "getPartitionOwners n h = Some [ow]" "getBackupPartitionOwners n h = Some []"
    using own by (simp_all add: sole_owner_def)
  ultimately show ?thesis
    using cl dm by (cases "storage_abs (d_str dm) h")
      (simp_all add: getKeyVal_def getDMap_present [where cl = cl and me = me, OF own cl dm] op_simps str_get_def storage_Get_eq get_result_def live_value_def)
qed

lemma putKeyVal_present:
  assumes own: "sole_owner w n h ow" and cl: "cl me = Some n" and dm: "node_dmap n False (getPartitionID n h) name = Some dm"
    and item: "small_item name key value"
  shows "\<exists>s. putKeyVal w rpc cl me h name key value t =
      ret (cl(me \<mapsto> put_dmap n False (getPartitionID n h) name (dm\<lparr>d_str := s\<rparr>))) () \<and>
    storage_inv s \<and> storage_abs s = (storage_abs (d_str dm))(h \<mapsto> put_data n key value t)"
proof -
  let ?v = "put_data n key value t"
  have ow: "OperationMode (n_cfg n) = OpInMemory" "BackupCount (n_cfg n) = 0" "getPartitionOwners n h = Some [ow]"
    and mm: "\<forall>k. mmap_ok (w_os w) k" using own by (simp_all add: sole_owner_def)
  have inv: "storage_inv (d_str dm)" and mx: "\<not> d_mx dm" using own dm unfolding sole_owner_def wf_node_def by blast+
  from storage_Put_small [OF inv mm, of ?v h] item obtain s where
    s: "storage_Put (w_os w) (d_str dm) h ?v = Some (Ret (s, None))" "storage_inv s"
      "storage_abs s = (storage_abs (d_str dm))(h \<mapsto> ?v)" by (auto simp: entry_size_def put_data_def small_item_def)
  have "putKeyVal w rpc cl me h name key value t =
      ret (cl(me \<mapsto> put_dmap n False (getPartitionID n h) name (dm\<lparr>d_str := s\<rparr>))) ()"
    using cl dm mx ow s(1)
    by (cases "t = 0")
      (simp_all add: putKeyVal_def getDMap_present [where cl = cl and me = me, OF own cl dm] op_simps put_backup_step_def str_put_def oplog_mem purge_sole
        Let_def put_data_def)
  with s(2,3) show ?thesis by blast
qed

section \<open>Locks\<close>

text \<open>The key's lock is free; in a DMap that does not exist yet every lock is.\<close>

definition lock_free :: "node \<Rightarrow> bytes \<Rightarrow> hkey \<Rightarrow> bytes \<Rightarrow> bool" where
  "lock_free n name h key \<longleftrightarrow>
     (case node_dmap n False (getPartitionID n h) name of
        None \<Rightarrow> True
      | Some dm \<Rightarrow> (case d_locker dm of None \<Rightarrow> False | Some l \<Rightarrow> \<not> locker_check l key))"

text \<open>Taking a free lock and releasing it leaves it free.\<close>

definition take_lock :: "locker \<Rightarrow> bytes \<Rightarrow> locker" where
  "take_lock l key = (let (l1, c) = lock_enter l key in lock_leave (lock_acquire l1 c) c)"

lemma lock_enter_free: "\<not> locker_check l key \<Longrightarrow> lock_enter l key = (l1, c) \<Longrightarrow> \<not> held (ctrs l1 c)"
  by (auto simp: lock_enter_def locker_check_def new_lockCtr_def ctr_inc_def)

lemma unlock_taken:
  assumes "\<not> locker_check l key"
  shows "\<exists>l'. locker_unlock (take_lock l key) key = Ret (l', None) \<and> \<not> locker_check l' key"
  using assms
  by (auto simp: take_lock_def lock_enter_def locker_check_def lock_acquire_def lock_leave_def locker_unlock_def new_lockCtr_def
      ctr_inc_def ctr_dec_def ctr_count_def Let_def)

lemma findLockKey_sole:
  assumes "sole_owner w n h ow" and "cl me = Some n" and "n_this n = ow"
  shows "findLockKey rpc cl me h name key = ret cl ow"
  using assms by (simp add: findLockKey_def with_node_Some sole_owner_def)

lemma put_dmap_locker:
  assumes "wf_node n" and "node_dmap n bk pid name = Some dm"
  shows "wf_node (put_dmap n bk pid name (dm\<lparr>d_locker := x\<rparr>))"
    and "node_entry (put_dmap n bk pid name (dm\<lparr>d_locker := x\<rparr>)) = node_entry n"
proof -
  show "wf_node (put_dmap n bk pid name (dm\<lparr>d_locker := x\<rparr>))"
    using assms unfolding wf_node_def by (auto simp: node_part_put_dmap split: if_splits)
  show "node_entry (put_dmap n bk pid name (dm\<lparr>d_locker := x\<rparr>)) = node_entry n"
    using assms(2) by (intro ext) (auto simp: node_entry_def)
qed

text \<open>Tasks in the background do not matter here.\<close>

lemma tasks_sel [simp]:
  "node_part (n\<lparr>n_tasks := ts\<rparr>) bk pid = node_part n bk pid"
  "node_dmap (n\<lparr>n_tasks := ts\<rparr>) bk pid name = node_dmap n bk pid name"
  "getPartitionID (n\<lparr>n_tasks := ts\<rparr>) h = getPartitionID n h"
  "getPartitionOwners (n\<lparr>n_tasks := ts\<rparr>) h = getPartitionOwners n h"
  "getBackupPartitionOwners (n\<lparr>n_tasks := ts\<rparr>) h = getBackupPartitionOwners n h"
  "isKeyExpired (n\<lparr>n_tasks := ts\<rparr>) t = isKeyExpired n t"
  by (simp_all add: node_part_def node_dmap_def getPartitionID_def getPartitionOwners_def getBackupPartitionOwners_def
      isKeyExpired_def)

lemma tasks_facts [simp]:
  "node_entry (n\<lparr>n_tasks := ts\<rparr>) = node_entry n" "wf_node (n\<lparr>n_tasks := ts\<rparr>) = wf_node n"
  "sole_owner w (n\<lparr>n_tasks := ts\<rparr>) h ow = sole_owner w n h ow"
  by (simp_all add: node_entry_def fun_eq_iff wf_node_def sole_owner_def)

lemma lock_owner:
  assumes cl: "cl me = Some n" and self: "n_this n = ow" and boot: "n_boot n = Booted" and own: "sole_owner w n h ow"
    and h: "h = getHKey w name key" and free: "lock_free n name h key"
  obtains n1 dm l where "lockWithTimeout w rpc cl me name key t = ret (cl(me \<mapsto> n1)) ()"
    "node_dmap n1 False (getPartitionID n1 h) name = Some dm" "d_locker dm = Some (take_lock l key)" "\<not> locker_check l key"
    "sole_owner w n1 h ow" "n_this n1 = ow" "n_boot n1 = Booted" "node_entry n1 = node_entry n"
    "\<And>x. isKeyExpired n1 x = isKeyExpired n x"
proof -
  let ?pid = "getPartitionID n h"
  from own cl obtain n0 dm where get: "getDMap w cl me False name h = ret (cl(me \<mapsto> n0)) ?pid"
    and dm: "node_dmap n0 False ?pid name = Some dm" and own0: "sole_owner w n0 h ow" and fr: "frame n n0"
    and e: "node_entry n0 = node_entry n"
    and lk: "d_locker dm = (case node_dmap n False ?pid name of None \<Rightarrow> Some newLocker | Some d \<Rightarrow> d_locker d)"
    by (rule sole_ownerE)
  obtain l where l: "d_locker dm = Some l" "\<not> locker_check l key"
    using free lk unfolding lock_free_def by (auto simp: newLocker_def locker_check_def split: option.splits)
  obtain l1 c where enter: "lock_enter l key = (l1, c)" by fastforce
  with l(2) have nh: "\<not> held (ctrs l1 c)" and tk: "take_lock l key = lock_leave (lock_acquire l1 c) c"
    by (auto dest: lock_enter_free simp: take_lock_def)
  define n2 where "n2 = put_dmap n0 False ?pid name (dm\<lparr>d_locker := Some (take_lock l key)\<rparr>)"
  define n1 where "n1 = n2\<lparr>n_tasks := n_tasks n0 @ [WatchLockTask ?pid name key t]\<rparr>"
  have fr2: "frame n n2" unfolding n2_def by (rule frame_trans [OF fr frame_put_dmap])
  have n2: "wf_node n2" "node_entry n2 = node_entry n"
    using put_dmap_locker [OF sole_ownerD(2) [OF own0] dm] e by (simp_all add: n2_def)
  have "lockKey w rpc cl me h name key t = ret (cl(me \<mapsto> n1)) ()"
    using l enter nh dm self frameD(1) [OF fr] findLockKey_sole [OF own0, of "cl(me \<mapsto> n0)" me]
    by (simp add: lockKey_def get op_simps with_locker_def lock_and_watch_def add_task_def set_locker_def tk n1_def n2_def)
  then have "lockWithTimeout w rpc cl me name key t = ret (cl(me \<mapsto> n1)) ()"
    using cl self boot own h by (simp add: lockWithTimeout_def op_simps locate_ok sole_ownerD)
  moreover have "node_dmap n1 False (getPartitionID n1 h) name = Some (dm\<lparr>d_locker := Some (take_lock l key)\<rparr>)"
    using dm frame_owners(1) [OF fr2] by (simp add: n1_def n2_def)
  moreover have "sole_owner w n1 h ow" using sole_owner_frame [OF own fr2 n2(1)] by (simp add: n1_def)
  ultimately show ?thesis
    using that l(2) self boot frameD [OF fr2] frame_time(2) [OF fr2] n2(2) by (simp add: n1_def)
qed

lemma unlock_owner:
  assumes cl: "cl me = Some n" and self: "n_this n = ow" and boot: "n_boot n = Booted" and own: "sole_owner w n h ow"
    and h: "h = getHKey w name key" and dm: "node_dmap n False (getPartitionID n h) name = Some dm" "d_locker dm = Some l"
    and unl: "locker_unlock l key = Ret (l', None)"
  shows "unlock w rpc cl me name key =
    ret (cl(me \<mapsto> put_dmap n False (getPartitionID n h) name (dm\<lparr>d_locker := Some l'\<rparr>))) ()"
proof -
  have "unlockKey w rpc cl me h name key =
      ret (cl(me \<mapsto> put_dmap n False (getPartitionID n h) name (dm\<lparr>d_locker := Some l'\<rparr>))) ()"
    using cl self dm unl getDMap_present [where cl = cl and me = me, OF own cl dm(1)]
      findLockKey_sole [where cl = cl and me = me, OF own cl self]
    by (simp add: unlockKey_def op_simps dm_unlock_def with_locker_def set_locker_def)
  then show ?thesis using cl self boot own h by (simp add: unlock_def op_simps await_boot_def locate_ok sole_ownerD)
qed

text \<open>What holds between two operations on a key at its owner.\<close>

definition key_ready :: "world \<Rightarrow> cluster \<Rightarrow> addr \<Rightarrow> bytes \<Rightarrow> bytes \<Rightarrow> node \<Rightarrow> bool" where
  "key_ready w cl me name key n \<longleftrightarrow>
     cl me = Some n \<and> n_boot n = Booted \<and> sole_owner w n (getHKey w name key) (n_this n) \<and>
     lock_free n name (getHKey w name key) key"

text \<open>
  A body that replaces the entry of the key runs under the lock, which is free again afterwards.
\<close>

lemma with_key_lock_owner:
  assumes ready: "key_ready w cl me name key n" and h: "h = getHKey w name key"
    and body: "\<And>cl1 n1 dm. \<lbrakk>cl1 me = Some n1; n_this n1 = n_this n; n_boot n1 = Booted; sole_owner w n1 h (n_this n);
      node_dmap n1 False (getPartitionID n1 h) name = Some dm; live_value n1 False name h = live_value n False name h;
      node_entry n1 = node_entry n\<rbrakk> \<Longrightarrow>
      \<exists>s. body cl1 = Done (cl1(me \<mapsto> put_dmap n1 False (getPartitionID n1 h) name (dm\<lparr>d_str := s\<rparr>)), r) \<and>
        storage_inv s \<and> storage_abs s = (storage_abs (d_str dm))(h := x)"
  shows "\<exists>n'. with_key_lock w rpc cl me name key body = Done (cl(me \<mapsto> n'), r) \<and>
    key_ready w (cl(me \<mapsto> n')) me name key n' \<and> node_entry n' = set_entry (node_entry n) False name h x"
proof -
  from ready h have cl: "cl me = Some n" and boot: "n_boot n = Booted" and own: "sole_owner w n h (n_this n)"
    and free: "lock_free n name h key" by (simp_all add: key_ready_def)
  from lock_owner [where cl = cl and me = me and rpc = rpc and t = minute, OF cl refl boot own h free] obtain n1 dm l where
    lock: "lockWithTimeout w rpc cl me name key minute = ret (cl(me \<mapsto> n1)) ()"
    and dm: "node_dmap n1 False (getPartitionID n1 h) name = Some dm" "d_locker dm = Some (take_lock l key)"
    and l: "\<not> locker_check l key" and own1: "sole_owner w n1 h (n_this n)" and n1: "n_this n1 = n_this n" "n_boot n1 = Booted"
      "node_entry n1 = node_entry n" "\<And>x. isKeyExpired n1 x = isKeyExpired n x" by blast
  have "live_value n1 False name h = live_value n False name h" using n1(3,4) by (simp add: live_value_def split: option.split)
  with body [of "cl(me \<mapsto> n1)" n1 dm] n1(1-3) own1 dm(1) obtain s where
    s: "body (cl(me \<mapsto> n1)) = Done (cl(me \<mapsto> put_dmap n1 False (getPartitionID n1 h) name (dm\<lparr>d_str := s\<rparr>)), r)"
      "storage_inv s" "storage_abs s = (storage_abs (d_str dm))(h := x)" by auto
  define n2 where "n2 = put_dmap n1 False (getPartitionID n1 h) name (dm\<lparr>d_str := s\<rparr>)"
  have fr: "frame n1 n2" by (simp add: n2_def frame_put_dmap)
  note st = put_dmap_store [OF dm(1) sole_ownerD(2) [OF own1] refl s(2,3), folded n2_def]
  have id: "getPartitionID n2 h = getPartitionID n1 h" by (simp add: n2_def)
  have dm2: "node_dmap n2 False (getPartitionID n2 h) name = Some (dm\<lparr>d_str := s\<rparr>)" using dm(1) by (simp add: n2_def)
  have own2: "sole_owner w n2 h (n_this n)" by (rule sole_owner_frame [OF own1 fr st(1)])
  from unlock_taken [OF l] obtain l' where l': "locker_unlock (take_lock l key) key = Ret (l', None)" "\<not> locker_check l' key" by blast
  define n3 where "n3 = put_dmap n2 False (getPartitionID n2 h) name (dm\<lparr>d_str := s, d_locker := Some l'\<rparr>)"
  have "unlock w rpc (cl(me \<mapsto> n2)) me name key = ret (cl(me \<mapsto> n3)) ()"
    using unlock_owner [of "cl(me \<mapsto> n2)" me n2, OF _ _ _ own2 h dm2 _ l'(1)] n1 frameD [OF fr] dm(2) by (simp add: n3_def)
  with lock s(1) have "with_key_lock w rpc cl me name key body = Done (cl(me \<mapsto> n3), r)"
    by (simp add: with_key_lock_def op_simps n2_def [symmetric])
  moreover have "frame n2 n3" by (simp add: n3_def frame_put_dmap)
  note fr3 = this frameD [OF this] and w3 = put_dmap_locker [OF st(1) dm2, of "Some l'"]
  have "node_dmap n3 False (getPartitionID n3 h) name = Some (dm\<lparr>d_str := s, d_locker := Some l'\<rparr>)" using dm2 by (simp add: n3_def)
  then have "key_ready w (cl(me \<mapsto> n3)) me name key n3"
    using l'(2) h n1 frameD [OF fr] fr3 sole_owner_frame [OF own2 fr3(1)] w3(1) by (simp add: key_ready_def lock_free_def n3_def)
  moreover have "node_entry n3 = set_entry (node_entry n) False name h x" using w3(2) st(2) n1(3) by (simp add: n3_def)
  ultimately show ?thesis by blast
qed

section \<open>Counters\<close>

text \<open>The number that the atomic operations see; a missing or expired key counts as 0.\<close>

definition counter :: "world \<Rightarrow> node \<Rightarrow> bytes \<Rightarrow> hkey \<Rightarrow> 64 word option" where
  "counter w n name h =
     (case live_value n False name h of
        None \<Rightarrow> Some 0
      | Some raw \<Rightarrow> (case w_unmarshal w raw of Inr (VInt v) \<Rightarrow> Some v | _ \<Rightarrow> None))"

text \<open>The serializer reads back the numbers it has written, and they fit into an entry of the key.\<close>

definition int_codec :: "world \<Rightarrow> bytes \<Rightarrow> bytes \<Rightarrow> bool" where
  "int_codec w name key \<longleftrightarrow>
     (\<forall>v. \<exists>data. w_marshal w (VInt v) = Inr data \<and> w_unmarshal w data = Inr (VInt v) \<and> small_item name key data)"

lemma get_ready:
  assumes "cl me = Some n" and "n_boot n = Booted" and "sole_owner w n (getHKey w name key) (n_this n)"
    and "node_dmap n False (getPartitionID n (getHKey w name key)) name = Some dm"
  shows "get w rpc cl me name key = get_result cl (live_value n False name (getHKey w name key))"
  using assms getKeyVal_present [where cl = cl and me = me, OF assms(3,1,4)]
  by (simp add: get_def op_simps locate_ok sole_ownerD)

lemma get_optional_ready:
  assumes "cl me = Some n" and "n_boot n = Booted" and "sole_owner w n (getHKey w name key) (n_this n)"
    and "node_dmap n False (getPartitionID n (getHKey w name key)) name = Some dm"
  shows "get_optional w rpc cl me name key = ret cl (map_option Some (live_value n False name (getHKey w name key)))"
  using get_ready [where cl = cl and me = me, OF assms]
  by (simp add: get_optional_def get_result_def op_simps split: option.split)

lemma put_ready:
  assumes "cl me = Some n" and "n_boot n = Booted" and "sole_owner w n (getHKey w name key) (n_this n)"
  shows "put w rpc cl me name key value t = putKeyVal w rpc cl me (getHKey w name key) name key value t"
  using assms by (simp add: put_def op_simps locate_ok sole_ownerD)

lemma put_data_0: "put_data n key value 0 = \<lparr>vkey = key, vttl = 0, vvalue = value\<rparr>"
  by (simp add: put_data_def)

text \<open>One atomic operation; \<open>new\<close> is what \<open>opr\<close> makes of the current number.\<close>

lemma atomicIncrDecr_owner:
  assumes ready: "key_ready w cl me name key n" and h: "h = getHKey w name key" and cur: "counter w n name h = Some v"
    and new: "opr = ''incr'' \<and> new = v + delta \<or> opr = ''decr'' \<and> new = v - delta"
    and data: "w_marshal w (VInt new) = Inr data" and item: "small_item name key data"
  shows "\<exists>n'. atomicIncrDecr w rpc cl me name key opr delta = Done (cl(me \<mapsto> n'), Inr new) \<and>
    key_ready w (cl(me \<mapsto> n')) me name key n' \<and>
    node_entry n' = set_entry (node_entry n) False name h (Some \<lparr>vkey = key, vttl = 0, vvalue = data\<rparr>)"
  unfolding atomicIncrDecr_def
proof (rule with_key_lock_owner [OF ready h])
  fix cl1 n1 dm
  assume n1: "cl1 me = Some n1" "n_this n1 = n_this n" "n_boot n1 = Booted" "sole_owner w n1 h (n_this n)"
    "node_dmap n1 False (getPartitionID n1 h) name = Some dm" "live_value n1 False name h = live_value n False name h"
    "node_entry n1 = node_entry n"
  have own: "sole_owner w n1 (getHKey w name key) (n_this n1)" using n1(2,4) h by simp
  have opt: "get_optional w rpc cl1 me name key = ret cl1 (map_option Some (live_value n False name h))"
    using get_optional_ready [where cl = cl1 and me = me, OF n1(1,3) own] n1(5,6) h by simp
  have cur1: "current_int w cl1 (map_option Some (live_value n False name h)) = ret cl1 v"
    using cur by (auto simp: current_int_def counter_def slice_bytes_def split: option.splits sum.splits gval.splits)
  from putKeyVal_present [where cl = cl1 and me = me and t = 0 and rpc = rpc, OF n1(4,1,5) item] obtain s where
    s: "putKeyVal w rpc cl1 me h name key data 0 =
        ret (cl1(me \<mapsto> put_dmap n1 False (getPartitionID n1 h) name (dm\<lparr>d_str := s\<rparr>))) ()" "storage_inv s"
      "storage_abs s = (storage_abs (d_str dm))(h \<mapsto> put_data n1 key data 0)" by blast
  have put: "put w rpc cl1 me name key data 0 = ret (cl1(me \<mapsto> put_dmap n1 False (getPartitionID n1 h) name (dm\<lparr>d_str := s\<rparr>))) ()"
    using put_ready [where cl = cl1 and me = me, OF n1(1,3) own] s(1) h by simp
  show "\<exists>s. bind_op (get_optional w rpc cl1 me name key) (\<lambda>cl raw.
       bind_op (current_int w cl raw) (\<lambda>cl curval.
       bind_op (if opr = ''incr'' then ret cl (curval + delta)
                else if opr = ''decr'' then ret cl (curval - delta)
                else fail cl (ErrOther ''invalid operation'')) (\<lambda>cl newval.
         (case w_marshal w (VInt newval) of
            Inl e \<Rightarrow> fail cl e
          | Inr nval \<Rightarrow> bind_op (put w rpc cl me name key nval 0) (\<lambda>cl _. ret cl newval))))) =
      Done (cl1(me \<mapsto> put_dmap n1 False (getPartitionID n1 h) name (dm\<lparr>d_str := s\<rparr>)), Inr new) \<and>
      storage_inv s \<and> storage_abs s = (storage_abs (d_str dm))(h \<mapsto> \<lparr>vkey = key, vttl = 0, vvalue = data\<rparr>)"
    using new data s(2,3) by (intro exI [of _ s]) (auto simp: opt cur1 put op_simps put_data_0)
qed

text \<open>A value that is not a number is refused, and the lock of the key is free again.\<close>

lemma atomicIncrDecr_mismatch:
  assumes ready: "key_ready w cl me name key n" and h: "h = getHKey w name key"
    and raw: "live_value n False name h = Some raw" "w_unmarshal w raw = Inr (VOther ty b)"
  shows "\<exists>n'. atomicIncrDecr w rpc cl me name key opr delta = Done (cl(me \<mapsto> n'), Inl (ErrOther (''mismatched type: '' @ ty))) \<and>
    key_ready w (cl(me \<mapsto> n')) me name key n' \<and> node_entry n' = node_entry n"
proof -
  have "\<exists>n'. atomicIncrDecr w rpc cl me name key opr delta = Done (cl(me \<mapsto> n'), Inl (ErrOther (''mismatched type: '' @ ty))) \<and>
    key_ready w (cl(me \<mapsto> n')) me name key n' \<and> node_entry n' = set_entry (node_entry n) False name h (node_entry n False name h)"
    unfolding atomicIncrDecr_def
  proof (rule with_key_lock_owner [OF ready h])
    fix cl1 n1 dm
    assume n1: "cl1 me = Some n1" "n_this n1 = n_this n" "n_boot n1 = Booted" "sole_owner w n1 h (n_this n)"
      "node_dmap n1 False (getPartitionID n1 h) name = Some dm" "live_value n1 False name h = live_value n False name h"
      "node_entry n1 = node_entry n"
    have own: "sole_owner w n1 (getHKey w name key) (n_this n1)" using n1(2,4) h by simp
    have opt: "get_optional w rpc cl1 me name key = ret cl1 (Some (Some raw))"
      using get_optional_ready [where cl = cl1 and me = me, OF n1(1,3) own] n1(5,6) h raw(1) by simp
    have cur: "current_int w cl1 (Some (Some raw)) = fail cl1 (ErrOther (''mismatched type: '' @ ty))"
      using raw(2) by (simp add: current_int_def slice_bytes_def)
    have "put_dmap n1 False (getPartitionID n1 h) name (dm\<lparr>d_str := d_str dm\<rparr>) = n1" using n1(5) by (simp add: put_dmap_same)
    moreover have "storage_inv (d_str dm)" using n1(4,5) unfolding sole_owner_def wf_node_def by blast
    moreover have "node_entry n1 False name h = storage_abs (d_str dm) h" using n1(5) by (simp add: node_entry_def)
    then have "(storage_abs (d_str dm))(h := node_entry n False name h) = storage_abs (d_str dm)" using n1(7) by (simp add: fun_upd_idem)
    ultimately have st: "cl1(me \<mapsto> put_dmap n1 False (getPartitionID n1 h) name (dm\<lparr>d_str := d_str dm\<rparr>)) = cl1"
      "storage_inv (d_str dm)" "storage_abs (d_str dm) = (storage_abs (d_str dm))(h := node_entry n False name h)"
      using n1(1) by (simp_all add: fun_upd_idem)
    show "\<exists>s. bind_op (get_optional w rpc cl1 me name key) (\<lambda>cl raw.
       bind_op (current_int w cl raw) (\<lambda>cl curval.
       bind_op (if opr = ''incr'' then ret cl (curval + delta)
                else if opr = ''decr'' then ret cl (curval - delta)
                else fail cl (ErrOther ''invalid operation'')) (\<lambda>cl newval.
         (case w_marshal w (VInt newval) of
            Inl e \<Rightarrow> fail cl e
          | Inr nval \<Rightarrow> bind_op (put w rpc cl me name key nval 0) (\<lambda>cl _. ret cl newval))))) =
      Done (cl1(me \<mapsto> put_dmap n1 False (getPartitionID n1 h) name (dm\<lparr>d_str := s\<rparr>)), Inl (ErrOther (''mismatched type: '' @ ty))) \<and>
      storage_inv s \<and> storage_abs s = (storage_abs (d_str dm))(h := node_entry n False name h)"
      using st by (intro exI [of _ "d_str dm"]) (simp add: opt cur op_simps)
  qed
  then show ?thesis by (simp add: set_entry_def)
qed

section \<open>Properties\<close>

text \<open>A sequence of increments and decrements of one key, with what each of them returned, and what a counter
  would return.\<close>

datatype delta = Incr "64 word" | Decr "64 word"

fun apply_delta :: "delta \<Rightarrow> 64 word \<Rightarrow> 64 word" where
  "apply_delta (Incr d) v = v + d"
| "apply_delta (Decr d) v = v - d"

fun run_delta :: "world \<Rightarrow> rpc \<Rightarrow> cluster \<Rightarrow> addr \<Rightarrow> bytes \<Rightarrow> bytes \<Rightarrow> delta \<Rightarrow> 64 word op" where
  "run_delta w rpc cl me name key (Incr d) = DMap_Incr w rpc cl me name key d"
| "run_delta w rpc cl me name key (Decr d) = DMap_Decr w rpc cl me name key d"

fun run_deltas :: "world \<Rightarrow> rpc \<Rightarrow> cluster \<Rightarrow> addr \<Rightarrow> bytes \<Rightarrow> bytes \<Rightarrow> delta list \<Rightarrow> (cluster \<times> (gerr + 64 word) list) run" where
  "run_deltas w rpc cl me name key [] = Done (cl, [])"
| "run_deltas w rpc cl me name key (d # ds) =
     bind_run (run_delta w rpc cl me name key d) (\<lambda>(cl, r).
     bind_run (run_deltas w rpc cl me name key ds) (\<lambda>(cl, rs). Done (cl, r # rs)))"

fun totals :: "64 word \<Rightarrow> delta list \<Rightarrow> 64 word list" where
  "totals v [] = []"
| "totals v (d # ds) = apply_delta d v # totals (apply_delta d v) ds"

lemma counter_stored:
  assumes "node_entry n' = set_entry E False name h (Some \<lparr>vkey = key, vttl = 0, vvalue = data\<rparr>)"
    and "w_unmarshal w data = Inr (VInt v)"
  shows "counter w n' name h = Some v"
  using assms by (simp add: counter_def live_value_def set_entry_def isKeyExpired_def)

lemma run_delta_owner:
  assumes "key_ready w cl me name key n" and "h = getHKey w name key" and "counter w n name h = Some v" and "int_codec w name key"
  shows "\<exists>n' data. run_delta w rpc cl me name key d = Done (cl(me \<mapsto> n'), Inr (apply_delta d v)) \<and>
    key_ready w (cl(me \<mapsto> n')) me name key n' \<and> counter w n' name h = Some (apply_delta d v) \<and>
    node_entry n' = set_entry (node_entry n) False name h (Some \<lparr>vkey = key, vttl = 0, vvalue = data\<rparr>)"
proof -
  from assms(4) obtain data where data: "w_marshal w (VInt (apply_delta d v)) = Inr data"
    "w_unmarshal w data = Inr (VInt (apply_delta d v))" "small_item name key data" unfolding int_codec_def by blast
  have "\<exists>n'. run_delta w rpc cl me name key d = Done (cl(me \<mapsto> n'), Inr (apply_delta d v)) \<and>
    key_ready w (cl(me \<mapsto> n')) me name key n' \<and>
    node_entry n' = set_entry (node_entry n) False name h (Some \<lparr>vkey = key, vttl = 0, vvalue = data\<rparr>)"
    using atomicIncrDecr_owner [OF assms(1-3) _ data(1,3)]
    by (cases d) (simp_all add: DMap_Incr_def DMap_Decr_def)
  then show ?thesis using counter_stored [OF _ data(2)] by blast
qed



end
