(* ===== verification/Transport_Client.thy ===== *)
theory Transport_Client
  imports Cluster
begin

text \<open>
  \<open>internal/transport/client.go\<close>: the client side of the transport with its connection pools. The pool is
  the vendored package \<open>buraksezer/pool\<close>, a bounded queue of idle connections; its functions are
  translated here as far as the client calls them.

  A pooled connection is the bytes that have arrived and are not read, the error a reader gets
  after them, and the error of writing. On an open connection a reader waits for more bytes.
\<close>

section \<open>Connections and pools\<close>

definition would_block :: gerr where
  "would_block = ErrOther ''would block''"

record pconn = conn +
  c_werr :: "gerr option"

definition open_conn :: pconn where
  "open_conn = \<lparr>avail = [], rerr = would_block, c_werr = None\<rparr>"

text \<open>A pool: its capacity and its idle connections, oldest first, or \<open>None\<close> when it is closed.\<close>

record pool =
  p_cap :: nat
  p_conns :: "pconn list option"

definition ErrPoolClosed :: gerr where
  "ErrPoolClosed = ErrOther ''pool is closed''"

text \<open>The connections that \<open>NewChannelPool\<close> opens in advance; \<open>dial\<close> is the result of the factory.\<close>

fun fill_pool :: "gerr option \<Rightarrow> nat \<Rightarrow> gerr + pconn list" where
  "fill_pool dial 0 = Inr []"
| "fill_pool dial (Suc n) =
     (case dial of
        Some e \<Rightarrow> Inl (ErrOther (''factory is not able to fill the pool: '' @ err_text e))
      | None \<Rightarrow> map_sum id (\<lambda>cs. open_conn # cs) (fill_pool dial n))"

definition NewChannelPool :: "int \<Rightarrow> int \<Rightarrow> gerr option \<Rightarrow> gerr + pool" where
  "NewChannelPool initialCap maxCap dial =
     (if initialCap < 0 \<or> maxCap \<le> 0 \<or> initialCap > maxCap then Inl (ErrOther ''invalid capacity settings'')
      else map_sum id (\<lambda>cs. \<lparr>p_cap = nat maxCap, p_conns = Some cs\<rparr>) (fill_pool dial (nat initialCap)))"

definition pool_Get :: "pool \<Rightarrow> gerr option \<Rightarrow> gerr + pconn \<times> pool" where
  "pool_Get p dial =
     (case p_conns p of
        None \<Rightarrow> Inl ErrPoolClosed
      | Some (c # cs) \<Rightarrow> Inr (c, p\<lparr>p_conns := Some cs\<rparr>)
      | Some [] \<Rightarrow> (case dial of Some e \<Rightarrow> Inl e | None \<Rightarrow> Inr (open_conn, p)))"

text \<open>Closing a connection of the pool puts it back, unless the pool is full or closed.\<close>

definition pool_put :: "pool \<Rightarrow> pconn \<Rightarrow> pool" where
  "pool_put p c =
     (case p_conns p of
        None \<Rightarrow> p
      | Some cs \<Rightarrow> if length cs < p_cap p then p\<lparr>p_conns := Some (cs @ [c])\<rparr> else p)"

definition pool_Close :: "pool \<Rightarrow> pool" where
  "pool_Close p = p\<lparr>p_conns := None\<rparr>"

section \<open>The client\<close>

record client_config =
  t_Addrs :: "addr list"
  t_MinConn :: int
  t_MaxConn :: int

record tclient =
  t_config :: client_config
  t_pools :: "addr \<rightharpoonup> pool"

definition NewClient :: "client_config option \<Rightarrow> tclient outcome" where
  "NewClient cc = (case cc of None \<Rightarrow> Panic | Some cc \<Rightarrow> Ret \<lparr>t_config = cc, t_pools = Map.empty\<rparr>)"

definition tclient_Close :: "tclient \<Rightarrow> tclient" where
  "tclient_Close tc = tc\<lparr>t_pools := (\<lambda>a. map_option pool_Close (t_pools tc a))\<rparr>"

text \<open>The condition is negated in the code: it calls a method of the missing pool.\<close>

definition CloseWithAddr :: "tclient \<Rightarrow> addr \<Rightarrow> tclient outcome" where
  "CloseWithAddr tc a = (case t_pools tc a of None \<Rightarrow> Panic | Some _ \<Rightarrow> Ret tc)"

text \<open>\<open>getPool\<close>; without other callers the pool is still missing when it is added.\<close>

definition getPool :: "gerr option \<Rightarrow> tclient \<Rightarrow> addr \<Rightarrow> tclient \<times> (gerr + pool)" where
  "getPool dial tc a =
     (case t_pools tc a of
        Some p \<Rightarrow> (tc, Inr p)
      | None \<Rightarrow>
          (case NewChannelPool (t_MinConn (t_config tc)) (t_MaxConn (t_config tc)) dial of
             Inl e \<Rightarrow> (tc, Inl e)
           | Inr p \<Rightarrow> (tc\<lparr>t_pools := (t_pools tc)(a \<mapsto> p)\<rparr>, Inr p)))"

text \<open>
  What the client meets: its own \<open>MaxValueSize\<close>, the error of dialling an address, and the bytes a peer
  sends when it has received a request, or \<open>None\<close> when the connection is lost instead.
\<close>

record net =
  net_max :: int
  net_dial :: "cluster \<Rightarrow> addr \<Rightarrow> gerr option"
  net_peer :: "cluster \<Rightarrow> addr \<Rightarrow> bytes \<Rightarrow> (cluster \<times> bytes option) run"

type_synonym 'a cop = "(cluster \<times> tclient \<times> (gerr + 'a)) run"

text \<open>Writing the request and reading the response; the connection after it, and the result.\<close>

definition arrive :: "pconn \<Rightarrow> bytes option \<Rightarrow> pconn" where
  "arrive c out =
     (case out of
        Some bs \<Rightarrow> c\<lparr>avail := avail c @ bs\<rparr>
      | None \<Rightarrow> c\<lparr>rerr := ErrEOF, c_werr := Some (ErrOther ''broken pipe'')\<rparr>)"

definition roundtrip ::
  "net \<Rightarrow> cluster \<Rightarrow> addr \<Rightarrow> pconn \<Rightarrow> message \<Rightarrow> (cluster \<times> pconn \<times> (gerr + message)) run" where
  "roundtrip nt cl a c req =
     (case c_werr c of
        Some e \<Rightarrow> Done (cl, c, Inl (filterNetworkErrors e))
      | None \<Rightarrow>
          bind_run (net_peer nt cl a (message_bytes req)) (\<lambda>(cl, out).
          let c = arrive c out in
          bind_run (of_outcome (message_Read (net_max nt) empty_message \<lparr>avail = avail c, rerr = rerr c\<rparr>))
            (\<lambda>(resp, c', e).
              if e = Some would_block then Hang
              else Done (cl, c\<lparr>avail := avail c'\<rparr>, case e of Some e \<Rightarrow> Inl e | None \<Rightarrow> Inr resp))))"

text \<open>\<open>RequestTo\<close>; the deferred \<open>Close\<close> returns the connection to the pool in every case.\<close>

definition client_RequestTo :: "net \<Rightarrow> cluster \<Rightarrow> tclient \<Rightarrow> addr \<Rightarrow> opcode \<Rightarrow> message \<Rightarrow> message cop" where
  "client_RequestTo nt cl tc a oc req =
     (case getPool (net_dial nt cl a) tc a of
        (tc, Inl e) \<Rightarrow> Done (cl, tc, Inl e)
      | (tc, Inr p) \<Rightarrow>
          (case pool_Get p (net_dial nt cl a) of
             Inl e \<Rightarrow> Done (cl, tc, Inl e)
           | Inr (c, p) \<Rightarrow>
               bind_run (roundtrip nt cl a c (req\<lparr>Magic := MagicReq, Op := op_byte oc\<rparr>)) (\<lambda>(cl, c, r).
                 Done (cl, tc\<lparr>t_pools := (t_pools tc)(a \<mapsto> pool_put p c)\<rparr>, r))))"

text \<open>\<open>Request\<close>; \<open>rand.Intn\<close> panics for an empty list of addresses and otherwise gives an index.\<close>

definition client_Request :: "net \<Rightarrow> nat \<Rightarrow> cluster \<Rightarrow> tclient \<Rightarrow> opcode \<Rightarrow> message \<Rightarrow> message cop" where
  "client_Request nt i cl tc oc req =
     (let as = t_Addrs (t_config tc) in
      if as = [] then Crash else client_RequestTo nt cl tc (as ! (i mod length as)) oc req)"

section \<open>The nodes of a cluster as peers\<close>

definition cluster_net :: "world \<Rightarrow> nat \<Rightarrow> int \<Rightarrow> net" where
  "cluster_net w k maxv =
     \<lparr>net_max = maxv,
      net_dial = (\<lambda>cl a. if cl a = None then Some (w_dial w a) else None),
      net_peer = (\<lambda>cl a bs.
        if cl a = None then Done (cl, None)
        else bind_run (serve_request w (wire_rpc k w a) cl a \<lparr>avail = bs, rerr = would_block\<rparr>) (\<lambda>(cl, _, r).
          Done (cl, write_reply (\<lambda>_. None) r)))\<rparr>"

end
