(* ===== verification/Client.thy ===== *)
theory Client
  imports Transport_Client
begin

text \<open>
  \<open>client/client.go\<close>: the client for programs outside the cluster. Every method sends one request
  to one of the configured addresses. The methods work on the transport client, and \<open>w\<close> has the serializer of the
  program that uses them. The random choice of the address is the argument \<open>i\<close>.
\<close>

section \<open>Creating a client\<close>

record cl_config =
  k_Addrs :: "addr list"
  k_MaxConn :: int

record client =
  kc_client :: tclient
  kc_serializer :: serializer

definition client_New :: "cl_config option \<Rightarrow> serializer option \<Rightarrow> gerr + client outcome" where
  "client_New c s =
     (case c of
        None \<Rightarrow> Inl (ErrOther ''config cannot be nil'')
      | Some c \<Rightarrow>
          if k_Addrs c = [] then Inl (ErrOther ''addrs list cannot be empty'')
          else Inr (map_ret (\<lambda>tc. \<lparr>kc_client = tc, kc_serializer = (case s of None \<Rightarrow> NewGobSerializer | Some s \<Rightarrow> s)\<rparr>)
            (NewClient (Some
              \<lparr>t_Addrs = k_Addrs c, t_MinConn = 0, t_MaxConn = (if k_MaxConn c = 0 then 1 else k_MaxConn c)\<rparr>))))"

definition client_Close :: "client \<Rightarrow> client" where
  "client_Close c = c\<lparr>kc_client := tclient_Close (kc_client c)\<rparr>"

text \<open>A DMap of a client is the client and the name.\<close>

definition client_NewDMap :: "client \<Rightarrow> bytes \<Rightarrow> client \<times> bytes" where
  "client_NewDMap c name = (c, name)"

section \<open>Methods\<close>

definition bind_cop :: "'a cop \<Rightarrow> (cluster \<Rightarrow> tclient \<Rightarrow> 'a \<Rightarrow> 'b cop) \<Rightarrow> 'b cop" where
  "bind_cop c f = bind_run c (\<lambda>(cl, tc, r). case r of Inl e \<Rightarrow> Done (cl, tc, Inl e) | Inr x \<Rightarrow> f cl tc x)"

definition client_Get :: "world \<Rightarrow> net \<Rightarrow> nat \<Rightarrow> cluster \<Rightarrow> tclient \<Rightarrow> bytes \<Rightarrow> bytes \<Rightarrow> gval cop" where
  "client_Get w nt i cl tc name key =
     bind_cop (client_Request nt i cl tc OpExGet (key_request name key)) (\<lambda>cl tc resp.
       if Status resp = status_byte StatusKeyNotFound then Done (cl, tc, Inl ErrKeyNotFound)
       else Done (cl, tc, w_unmarshal w (Value resp)))"

text \<open>Sends the marshalled value; the response is dropped, whatever its status.\<close>

definition client_Put :: "world \<Rightarrow> net \<Rightarrow> nat \<Rightarrow> cluster \<Rightarrow> tclient \<Rightarrow> bytes \<Rightarrow> bytes \<Rightarrow> gval \<Rightarrow> unit cop" where
  "client_Put w nt i cl tc name key value =
     (case w_marshal w value of
        Inl e \<Rightarrow> Done (cl, tc, Inl e)
      | Inr data \<Rightarrow>
          bind_cop (client_Request nt i cl tc OpExPut ((key_request name key)\<lparr>Value := data\<rparr>)) (\<lambda>cl tc _.
            Done (cl, tc, Inr ())))"

definition client_PutEx ::
  "world \<Rightarrow> net \<Rightarrow> nat \<Rightarrow> cluster \<Rightarrow> tclient \<Rightarrow> bytes \<Rightarrow> bytes \<Rightarrow> gval \<Rightarrow> 64 word \<Rightarrow> unit cop" where
  "client_PutEx w nt i cl tc name key value timeout =
     (case w_marshal w value of
        Inl e \<Rightarrow> Done (cl, tc, Inl e)
      | Inr data \<Rightarrow>
          bind_cop (client_Request nt i cl tc OpExPutEx
            ((key_request name key)\<lparr>Extra := Some (PutExExtra timeout), Value := data\<rparr>)) (\<lambda>cl tc _.
            Done (cl, tc, Inr ())))"

definition client_Delete :: "net \<Rightarrow> nat \<Rightarrow> cluster \<Rightarrow> tclient \<Rightarrow> bytes \<Rightarrow> bytes \<Rightarrow> unit cop" where
  "client_Delete nt i cl tc name key =
     bind_cop (client_Request nt i cl tc OpExDelete (key_request name key)) (\<lambda>cl tc _. Done (cl, tc, Inr ()))"

definition client_LockWithTimeout ::
  "net \<Rightarrow> nat \<Rightarrow> cluster \<Rightarrow> tclient \<Rightarrow> bytes \<Rightarrow> bytes \<Rightarrow> 64 word \<Rightarrow> unit cop" where
  "client_LockWithTimeout nt i cl tc name key timeout =
     bind_cop (client_Request nt i cl tc OpExLockWithTimeout
       ((key_request name key)\<lparr>Extra := Some (LockWithTimeoutExtra timeout)\<rparr>)) (\<lambda>cl tc _. Done (cl, tc, Inr ()))"

text \<open>\<open>Unlock\<close> looks at the response before the error; after an error there is no response.\<close>

definition client_Unlock :: "net \<Rightarrow> nat \<Rightarrow> cluster \<Rightarrow> tclient \<Rightarrow> bytes \<Rightarrow> bytes \<Rightarrow> unit cop" where
  "client_Unlock nt i cl tc name key =
     bind_run (client_Request nt i cl tc OpExUnlock (key_request name key)) (\<lambda>(cl, tc, r). case r of
         Inl e \<Rightarrow> Crash
       | Inr resp \<Rightarrow>
           Done (cl, tc, if Status resp = status_byte StatusNoSuchLock then Inl ErrNoSuchLock else Inr ()))"

definition client_Destroy :: "net \<Rightarrow> nat \<Rightarrow> cluster \<Rightarrow> tclient \<Rightarrow> bytes \<Rightarrow> unit cop" where
  "client_Destroy nt i cl tc name =
     bind_cop (client_Request nt i cl tc OpExDestroy (empty_message\<lparr>DMap := name\<rparr>)) (\<lambda>cl tc _.
       Done (cl, tc, Inr ()))"

text \<open>The result of the failed \<open>Unmarshal\<close> is \<open>nil\<close>, and \<open>res.(int)\<close> panics unless it is an \<open>int\<close>.\<close>

definition client_incrDecr ::
  "world \<Rightarrow> net \<Rightarrow> nat \<Rightarrow> cluster \<Rightarrow> tclient \<Rightarrow> opcode \<Rightarrow> bytes \<Rightarrow> bytes \<Rightarrow> 64 word \<Rightarrow> (64 word) cop" where
  "client_incrDecr w nt i cl tc oc name key delta =
     (case w_marshal w (VInt delta) of
        Inl e \<Rightarrow> Done (cl, tc, Inl e)
      | Inr data \<Rightarrow>
          bind_cop (client_Request nt i cl tc oc ((key_request name key)\<lparr>Value := data\<rparr>)) (\<lambda>cl tc resp.
            (case w_unmarshal w (Value resp) of
               Inr (VInt v) \<Rightarrow> Done (cl, tc, Inr v)
             | _ \<Rightarrow> Crash)))"

definition client_Incr ::
  "world \<Rightarrow> net \<Rightarrow> nat \<Rightarrow> cluster \<Rightarrow> tclient \<Rightarrow> bytes \<Rightarrow> bytes \<Rightarrow> 64 word \<Rightarrow> (64 word) cop" where
  "client_Incr w nt i cl tc name key delta = client_incrDecr w nt i cl tc OpExIncr name key delta"

definition client_Decr ::
  "world \<Rightarrow> net \<Rightarrow> nat \<Rightarrow> cluster \<Rightarrow> tclient \<Rightarrow> bytes \<Rightarrow> bytes \<Rightarrow> 64 word \<Rightarrow> (64 word) cop" where
  "client_Decr w nt i cl tc name key delta = client_incrDecr w nt i cl tc OpExDecr name key delta"

definition client_GetPut :: "world \<Rightarrow> net \<Rightarrow> nat \<Rightarrow> cluster \<Rightarrow> tclient \<Rightarrow> bytes \<Rightarrow> bytes \<Rightarrow> gval \<Rightarrow> gval cop" where
  "client_GetPut w nt i cl tc name key value =
     (case w_marshal w value of
        Inl e \<Rightarrow> Done (cl, tc, Inl e)
      | Inr data \<Rightarrow>
          bind_cop (client_Request nt i cl tc OpExGetPut ((key_request name key)\<lparr>Value := data\<rparr>)) (\<lambda>cl tc resp.
            if Value resp = [] then Done (cl, tc, Inr VNil) else Done (cl, tc, w_unmarshal w (Value resp))))"

end
