(* ===== verification/Client_Facts.thy ===== *)
theory Client_Facts
  imports Client Server_Facts
begin

text \<open>
  A client outside the cluster: its requests reach the nodes over clean connections and come
  back with the node's own response; and what happens when a connection is not clean.
\<close>

section \<open>Clean connections\<close>

text \<open>A client with valid settings all of whose idle connections are open and have nothing unread.\<close>

definition clean :: "tclient \<Rightarrow> bool" where
  "clean tc \<longleftrightarrow>
     t_MinConn (t_config tc) = 0 \<and> 0 < t_MaxConn (t_config tc) \<and>
     (\<forall>a p. t_pools tc a = Some p \<longrightarrow> (\<exists>k. p_conns p = Some (replicate k open_conn)))"

lemma pool_Get_clean:
  assumes "p_conns p = Some (replicate k open_conn)"
  obtains p' j where "pool_Get p None = Inr (open_conn, p')" "p_conns p' = Some (replicate j open_conn)"
  using assms by (cases k) (auto simp: pool_Get_def)

lemma pool_put_clean:
  "p_conns p = Some (replicate k open_conn) \<Longrightarrow> \<exists>j. p_conns (pool_put p open_conn) = Some (replicate j open_conn)"
  by (auto simp: pool_put_def replicate_append_same simp flip: replicate_Suc)

lemma getPool_clean:
  assumes "clean tc"
  obtains p k tc' where "getPool None tc a = (tc', Inr p)" "p_conns p = Some (replicate k open_conn)" "clean tc'"
    "t_config tc' = t_config tc"
proof (cases "t_pools tc a")
  case None
  let ?p = "\<lparr>p_cap = nat (t_MaxConn (t_config tc)), p_conns = Some []\<rparr>"
  have "getPool None tc a = (tc\<lparr>t_pools := (t_pools tc)(a \<mapsto> ?p)\<rparr>, Inr ?p)"
    using None assms by (simp add: getPool_def NewChannelPool_def clean_def)
  moreover have "p_conns ?p = Some (replicate 0 open_conn)" by simp
  moreover have "clean (tc\<lparr>t_pools := (t_pools tc)(a \<mapsto> ?p)\<rparr>)"
    using assms by (auto simp: clean_def intro: exI [of _ 0])
  ultimately show ?thesis by (rule that) simp
next
  case (Some p)
  then obtain k where "p_conns p = Some (replicate k open_conn)" using assms unfolding clean_def by blast
  then show ?thesis using that [of tc p k] assms Some by (simp add: getPool_def)
qed

lemma client_RequestTo_clean:
  assumes "clean tc" and "net_dial nt cl a = None"
    and "roundtrip nt cl a open_conn (req\<lparr>Magic := MagicReq, Op := op_byte oc\<rparr>) = Done (cl', open_conn, r)"
  shows "\<exists>tc'. client_RequestTo nt cl tc a oc req = Done (cl', tc', r) \<and> clean tc' \<and> t_config tc' = t_config tc"
proof -
  obtain p k tc1 where p: "getPool None tc a = (tc1, Inr p)" "p_conns p = Some (replicate k open_conn)" "clean tc1"
    "t_config tc1 = t_config tc" using assms(1) by (rule getPool_clean)
  obtain p' j where p': "pool_Get p None = Inr (open_conn, p')" "p_conns p' = Some (replicate j open_conn)"
    using p(2) by (rule pool_Get_clean)
  from p(3) pool_put_clean [OF p'(2)] have "clean (tc1\<lparr>t_pools := (t_pools tc1)(a \<mapsto> pool_put p' open_conn)\<rparr>)"
    by (simp add: clean_def)
  then show ?thesis using assms(2,3) p p' by (simp add: client_RequestTo_def)
qed

lemma cluster_roundtrip:
  assumes "cl a = Some n" and "wire_ok (n_max n) req" and "extra_ok req" and "Op req = op_byte oc"
    and "dispatch w (wire_rpc k w a) cl a (set_lengths req) oc = Done (cl', resp)"
    and "wire_ok maxv resp" and "extra_ok resp"
  shows "roundtrip (cluster_net w k maxv) cl a open_conn req = Done (cl', open_conn, Inr (set_lengths resp))"
  using assms message_Read_ok [of "n_max n" req "[]" would_block] message_Read_ok [of maxv resp "[]" would_block]
  by (simp add: roundtrip_def cluster_net_def serve_request_def write_reply_def with_node_Some open_conn_def arrive_def)

text \<open>A request of a client to one of its addresses, answered by the node there.\<close>

lemma client_Request_delivered:
  assumes "clean tc" and "t_Addrs (t_config tc) ! (i mod length (t_Addrs (t_config tc))) = a"
    and "t_Addrs (t_config tc) \<noteq> []" and "cl a = Some n" and "req' = req\<lparr>Magic := MagicReq, Op := op_byte oc\<rparr>"
    and "wire_ok (n_max n) req'" and "extra_ok req'"
    and "dispatch w (wire_rpc k w a) cl a (set_lengths req') oc = Done (cl', resp)"
    and "wire_ok maxv resp" and "extra_ok resp"
  shows "\<exists>tc'. client_Request (cluster_net w k maxv) i cl tc oc req = Done (cl', tc', Inr (set_lengths resp)) \<and>
    clean tc' \<and> t_config tc' = t_config tc"
proof -
  have "roundtrip (cluster_net w k maxv) cl a open_conn req' = Done (cl', open_conn, Inr (set_lengths resp))"
    using assms(4-10) by (intro cluster_roundtrip [where n = n and oc = oc]) simp_all
  moreover have "net_dial (cluster_net w k maxv) cl a = None" using assms(4) by (simp add: cluster_net_def)
  ultimately show ?thesis
    using client_RequestTo_clean [where nt = "cluster_net w k maxv" and cl = cl and a = a and req = req and oc = oc, OF assms(1)] assms(2,3,5)
    by (simp add: client_Request_def Let_def)
qed


lemma client_New_clean:
  assumes "client_New (Some c) s = Inr (Ret kc)" and "0 \<le> k_MaxConn c" and "tc = kc_client kc"
  shows "clean tc" and "t_Addrs (t_config tc) = k_Addrs c" and "k_Addrs c \<noteq> []"
  using assms by (auto simp: client_New_def NewClient_def clean_def split: if_splits)

section \<open>Put and get from outside\<close>

text \<open>The address a client picks is that of a node.\<close>

lemma picked_node:
  assumes "set as \<subseteq> dom cl" and "as \<noteq> []"
  obtains n where "cl (as ! (i mod length as)) = Some n"
  using assms by (meson domD length_greater_0_conv mod_less_divisor nth_mem subsetD)

lemma client_Put_delivered:
  assumes ok: "cluster_ok w route cl" and tc: "clean tc" "set (t_Addrs (t_config tc)) \<subseteq> dom cl" "t_Addrs (t_config tc) \<noteq> []"
    and v: "w_marshal wc v = Inr data" and item: "small_item name key data" and h: "h = getHKey w name key"
    and maxv: "DefaultMaxValueSize \<le> maxv" and ow: "cl (hName (route h)) = Some no"
  shows "\<exists>no' tc'. client_Put wc (cluster_net w (Suc k) maxv) i cl tc name key v = Done (cl(hName (route h) \<mapsto> no'), tc', Inr ()) \<and>
    frame no no' \<and> wf_node no' \<and> node_entry no' = set_entry (node_entry no) False name h (Some (put_data no key data 0)) \<and>
    clean tc' \<and> t_config tc' = t_config tc"
proof -
  let ?a = "t_Addrs (t_config tc) ! (i mod length (t_Addrs (t_config tc)))"
  let ?req = "(put_request name key data 0)\<lparr>Magic := MagicReq, Op := op_byte OpExPut\<rparr>"
  obtain n where n: "cl ?a = Some n" using tc(2,3) by (rule picked_node)
  from ok n have max: "DefaultMaxValueSize \<le> n_max n" unfolding cluster_ok_def cluster_node_def by blast
  from wire.put_delivered [where k = k and t = 0, OF ok n item h ow] obtain no' where
    put: "put w (wire_rpc (Suc k) w ?a) cl ?a name key data 0 = ret (cl(hName (route h) \<mapsto> no')) ()"
    and no': "frame no no'" "wf_node no'" "node_entry no' = set_entry (node_entry no) False name h (Some (put_data no key data 0))"
    by blast
  have x: "extra_ok ?req" by (simp add: extra_ok_def put_request_def key_request_def empty_message_def)
  have d: "dispatch w (wire_rpc (Suc k) w ?a) cl ?a (set_lengths ?req) OpExPut =
      Done (cl(hName (route h) \<mapsto> no'), message_Success (set_lengths ?req))"
    using put_dispatch [OF put] by simp
  from client_Request_delivered [where i = i, OF tc(1) refl tc(3) n refl put_request_wire [OF item max] x d success_wire [OF maxv]]
  obtain tc' where "client_Request (cluster_net w (Suc k) maxv) i cl tc OpExPut (put_request name key data 0) =
      Done (cl(hName (route h) \<mapsto> no'), tc', Inr (set_lengths (message_Success (set_lengths ?req))))"
    "clean tc'" "t_config tc' = t_config tc" by blast
  moreover have "put_request name key data 0 = (key_request name key)\<lparr>Value := data\<rparr>"
    by (simp add: put_request_def key_request_def empty_message_def)
  ultimately show ?thesis using v no' by (auto simp: client_Put_def bind_cop_def)
qed

lemma client_Get_delivered:
  assumes ok: "cluster_ok w route cl" and tc: "clean tc" "set (t_Addrs (t_config tc)) \<subseteq> dom cl" "t_Addrs (t_config tc) \<noteq> []"
    and item: "length name < 2 ^ 16" "length key < maxKeyLen" and h: "h = getHKey w name key"
    and maxv: "DefaultMaxValueSize \<le> maxv" and ow: "cl (hName (route h)) = Some no"
    and r: "\<And>v. live_value no False name h = Some v \<Longrightarrow> v \<noteq> [] \<and> length v < 2 ^ 20"
  shows "\<exists>no' tc'. (\<forall>wc. client_Get wc (cluster_net w (Suc k) maxv) i cl tc name key =
      Done (cl(hName (route h) \<mapsto> no'), tc',
        case live_value no False name h of None \<Rightarrow> Inl ErrKeyNotFound | Some v \<Rightarrow> w_unmarshal wc v)) \<and>
    frame no no' \<and> wf_node no' \<and> node_entry no' = node_entry no \<and> clean tc' \<and> t_config tc' = t_config tc"
proof -
  let ?a = "t_Addrs (t_config tc) ! (i mod length (t_Addrs (t_config tc)))" and ?r = "live_value no False name h"
  let ?req = "(key_request name key)\<lparr>Magic := MagicReq, Op := op_byte OpExGet\<rparr>"
  obtain n where n: "cl ?a = Some n" using tc(2,3) by (rule picked_node)
  from ok n have max: "DefaultMaxValueSize \<le> n_max n" unfolding cluster_ok_def cluster_node_def by blast
  from wire.get_delivered [where k = k, OF ok n item h ow r] obtain no' where
    get: "get w (wire_rpc (Suc k) w ?a) cl ?a name key = get_result (cl(hName (route h) \<mapsto> no')) ?r"
    and no': "frame no no'" "wf_node no'" "node_entry no' = node_entry no" by blast
  have rw: "wire_ok maxv (get_response (set_lengths ?req) ?r)" "extra_ok (get_response (set_lengths ?req) ?r)"
    using r by (intro get_response_wire [OF maxv]; blast)+
  from client_Request_delivered [where i = i, OF tc(1) refl tc(3) n refl key_request_wire [OF item max] get_dispatch [OF get refl] rw]
  obtain tc' where "client_Request (cluster_net w (Suc k) maxv) i cl tc OpExGet (key_request name key) =
      Done (cl(hName (route h) \<mapsto> no'), tc', Inr (set_lengths (get_response (set_lengths ?req) ?r)))"
    "clean tc'" "t_config tc' = t_config tc" by blast
  with no' show ?thesis
    by (cases ?r) (auto simp: client_Get_def bind_cop_def get_response_def message_Error_def message_Success_def)
qed

text \<open>The bytes that one client has put are what another client decodes, each with its own serializer.\<close>

lemma client_put_then_get:
  assumes "cluster_ok w route cl" and "DefaultMaxValueSize \<le> maxv"
    and "clean tc" "set (t_Addrs (t_config tc)) \<subseteq> dom cl" "t_Addrs (t_config tc) \<noteq> []"
    and "clean td" "set (t_Addrs (t_config td)) \<subseteq> dom cl" "t_Addrs (t_config td) \<noteq> []"
    and "w_marshal wa v = Inr data" and "small_item name key data" "data \<noteq> []"
  shows "\<exists>cl' tc' cl'' td'. client_Put wa (cluster_net w (Suc k) maxv) i cl tc name key v = Done (cl', tc', Inr ()) \<and>
    (\<forall>wb. client_Get wb (cluster_net w (Suc k) maxv) j cl' td name key = Done (cl'', td', w_unmarshal wb data)) \<and>
    clean tc' \<and> clean td'"
proof -
  let ?h = "getHKey w name key"
  obtain no where no: "cl (hName (route ?h)) = Some no" using assms(1) by (rule cluster_okE)
  from client_Put_delivered [where k = k and i = i, OF assms(1,3-5,9,10) refl assms(2) no] obtain no' tc' where
    put: "client_Put wa (cluster_net w (Suc k) maxv) i cl tc name key v = Done (cl(hName (route ?h) \<mapsto> no'), tc', Inr ())"
    and no': "frame no no'" "wf_node no'" "node_entry no' = set_entry (node_entry no) False name ?h (Some (put_data no key data 0))"
    and tc': "clean tc'" by blast
  define cl1 where "cl1 = cl(hName (route ?h) \<mapsto> no')"
  have ok: "cluster_ok w route cl1" unfolding cl1_def using assms(1) no no'(1,2) by (rule cluster_ok_update)
  have item: "length name < 2 ^ 16" "length key < maxKeyLen" "length data < 2 ^ 20"
    using assms(10) by (auto simp: small_item_def minimumSize_def)
  have live: "live_value no' False name ?h = Some data"
    using no'(3) by (simp add: live_value_def set_entry_def put_data_def isKeyExpired_def)
  have dom: "set (t_Addrs (t_config td)) \<subseteq> dom cl1" and owner: "cl1 (hName (route ?h)) = Some no'"
    using assms(7) by (auto simp: cl1_def)
  have fits: "x \<noteq> [] \<and> length x < 2 ^ 20" if "live_value no' False name ?h = Some x" for x
    using that live item(3) assms(11) by simp
  obtain cl2 td' where "\<forall>wb. client_Get wb (cluster_net w (Suc k) maxv) j cl1 td name key = Done (cl2, td', w_unmarshal wb data)"
    "clean td'"
    using client_Get_delivered [where k = k and i = j, OF ok assms(6) dom assms(8) item(1,2) refl assms(2) owner fits]
      live by auto
  with put tc' show ?thesis unfolding cl1_def by blast
qed

section \<open>Connections that are not clean\<close>

text \<open>A pool with one connection hands it out and takes it back.\<close>

lemma client_RequestTo_single:
  assumes "t_pools tc a = Some p" and "p_conns p = Some [c]" and "p_cap p = 1"
  shows "client_RequestTo nt cl tc a oc req =
    bind_run (roundtrip nt cl a c (req\<lparr>Magic := MagicReq, Op := op_byte oc\<rparr>)) (\<lambda>(cl, c, r).
      Done (cl, tc\<lparr>t_pools := (t_pools tc)(a \<mapsto> p\<lparr>p_conns := Some [c]\<rparr>)\<rparr>, r))"
  using assms by (simp add: client_RequestTo_def getPool_def pool_Get_def pool_put_def)

lemma roundtrip_unread:
  assumes "net_peer nt cl a (message_bytes req) = Done (cl', Some bs)" and "c_werr c = None"
    and "avail c @ bs = message_bytes m @ rest" and "wire_ok (net_max nt) m" and "extra_ok m"
  shows "roundtrip nt cl a c req = Done (cl', c\<lparr>avail := rest\<rparr>, Inr (set_lengths m))"
  using assms message_Read_ok [OF assms(4,5), of rest "rerr c"] by (simp add: roundtrip_def arrive_def)

text \<open>A closed client refuses the addresses it has been connected to, and dials the others as before.\<close>

lemma closed_client:
  fixes c defines "tc \<equiv> kc_client (client_Close c)"
  shows "t_pools (kc_client c) a = Some p \<Longrightarrow> client_RequestTo nt cl tc a oc req = Done (cl, tc, Inl ErrPoolClosed)"
    and "t_pools (kc_client c) a = None \<Longrightarrow> 1 \<le> t_MaxConn (t_config tc) \<Longrightarrow> t_MinConn (t_config tc) = 0 \<Longrightarrow>
      net_dial nt cl a = None \<Longrightarrow> roundtrip nt cl a open_conn (req\<lparr>Magic := MagicReq, Op := op_byte oc\<rparr>) = Done (cl', conn, r) \<Longrightarrow>
      \<exists>tc'. client_RequestTo nt cl tc a oc req = Done (cl', tc', r)"
  by (auto simp: tc_def client_Close_def tclient_Close_def client_RequestTo_def getPool_def pool_Get_def pool_Close_def
      NewChannelPool_def Let_def)

section \<open>Properties\<close>

text \<open>C3. A value that one client puts is what every client gets: whatever addresses of the cluster the two
  clients pick, when their idle connections are clean, the put succeeds, the get returns the
  value, and the connections are clean afterwards.\<close>

theorem client_put_get:
  assumes "cluster_ok w route cl" and "DefaultMaxValueSize \<le> maxv"
    and "clean tc" "set (t_Addrs (t_config tc)) \<subseteq> dom cl" "t_Addrs (t_config tc) \<noteq> []"
    and "clean td" "set (t_Addrs (t_config td)) \<subseteq> dom cl" "t_Addrs (t_config td) \<noteq> []"
    and "w_marshal w v = Inr data" "w_unmarshal w data = Inr v" and "small_item name key data" "data \<noteq> []"
  shows "\<exists>cl' tc' cl'' td'. client_Put w (cluster_net w (Suc k) maxv) i cl tc name key v = Done (cl', tc', Inr ()) \<and>
    client_Get w (cluster_net w (Suc k) maxv) j cl' td name key = Done (cl'', td', Inr v) \<and> clean tc' \<and> clean td'"
  using client_put_then_get [where wa = w and k = k and i = i and j = j, OF assms(1-9,11,12)] assms(10) by metis

theorem client_put_get_witness:
  "\<exists>kc cl' tc' cl'' td'. client_New (Some \<lparr>k_Addrs = [[97], [98]], k_MaxConn = 0\<rparr>) None = Inr (Ret kc) \<and>
     client_Put w_mem (cluster_net w_mem 1 (2 ^ 20)) 0 sample_cluster (kc_client kc) [100] [107] (VInt 5) = Done (cl', tc', Inr ()) \<and>
     client_Get w_mem (cluster_net w_mem 1 (2 ^ 20)) 1 cl' (kc_client kc) [100] [107] = Done (cl'', td', Inr (VInt 5))"
proof -
  obtain kc where kc: "client_New (Some \<lparr>k_Addrs = [[97], [98]], k_MaxConn = 0\<rparr>) None = Inr (Ret kc)"
    by (simp add: client_New_def NewClient_def)
  define tc where "tc = kc_client kc"
  note c = client_New_clean [OF kc _ tc_def, simplified]
  have "set (t_Addrs (t_config tc)) \<subseteq> dom sample_cluster" "t_Addrs (t_config tc) \<noteq> []" using c(2) by auto
  moreover have "w_marshal w_mem (VInt 5) = Inr (putUint64 5)" "w_unmarshal w_mem (putUint64 5) = Inr (VInt 5)"
    by (simp_all add: w_mem_def)
  moreover have "small_item [100] [107] (putUint64 5)" by (simp add: small_item_def maxKeyLen_def minimumSize_def)
  moreover have "putUint64 5 \<noteq> []" using length_putUint(1) [of 5] by force
  ultimately show ?thesis
    using client_put_get [OF sample_cluster_ok _ c(1) _ _ c(1), of "2 ^ 20" "VInt 5" "putUint64 5" "[100]" "[107]" 0 0 1] kc tc_def
    by (auto simp: DefaultMaxValueSize_def)
qed

text \<open>C36. A client never recovers from the restart of a node: the broken connection goes back to the pool of
  one connection, and although the node is up again and the client could dial it, every later
  request to this address, whatever it is, fails on the same connection.\<close>

theorem broken_connection_forever:
  assumes "t_pools tc a = Some p" and "p_conns p = Some [open_conn]" and "p_cap p = 1" and "cl a = None"
  shows "\<exists>tc'. client_RequestTo (cluster_net w k maxv) cl tc a oc req = Done (cl, tc', Inl ErrEOF) \<and>
    (\<forall>cl' oc' req'. client_RequestTo (cluster_net w k maxv) cl' tc' a oc' req' =
      Done (cl', tc', Inl (ErrOther ''broken pipe'')))"
proof -
  define c where "c = open_conn\<lparr>rerr := ErrEOF, c_werr := Some (ErrOther ''broken pipe'')\<rparr>"
  define p' where "p' = p\<lparr>p_conns := Some [c]\<rparr>"
  let ?tc = "tc\<lparr>t_pools := (t_pools tc)(a \<mapsto> p')\<rparr>"
  have "roundtrip (cluster_net w k maxv) cl a open_conn m = Done (cl, c, Inl ErrEOF)" for m
    using assms(4) by (simp add: roundtrip_def cluster_net_def open_conn_def arrive_def c_def message_Read_def copyN_def
        headerSize_def filterNetworkErrors_def would_block_def)
  then have "client_RequestTo (cluster_net w k maxv) cl tc a oc req = Done (cl, ?tc, Inl ErrEOF)"
    using client_RequestTo_single [OF assms(1-3)] by (simp add: p'_def)
  moreover have "roundtrip nt cl' a c m = Done (cl', c, Inl (ErrOther ''broken pipe''))" for nt cl' m
    by (simp add: roundtrip_def c_def filterNetworkErrors_def)
  then have "client_RequestTo (cluster_net w k maxv) cl' ?tc a oc' req' = Done (cl', ?tc, Inl (ErrOther ''broken pipe''))"
    for cl' oc' req'
    using client_RequestTo_single [of ?tc a p' c] assms(3) by (simp add: p'_def)
  ultimately show ?thesis by blast
qed

theorem broken_connection_forever_witness:
  "\<exists>tc'. client_RequestTo (cluster_net w_mem 1 (2 ^ 20)) Map.empty
     \<lparr>t_config = \<lparr>t_Addrs = [[97]], t_MinConn = 0, t_MaxConn = 1\<rparr>,
      t_pools = [[97] \<mapsto> \<lparr>p_cap = 1, p_conns = Some [open_conn]\<rparr>]\<rparr> [97] OpExGet (key_request [100] [107]) =
       Done (Map.empty, tc', Inl ErrEOF) \<and>
     client_RequestTo (cluster_net w_mem 1 (2 ^ 20)) sample_cluster tc' [97] OpExGet (key_request [100] [107]) =
       Done (sample_cluster, tc', Inl (ErrOther ''broken pipe''))"
  using broken_connection_forever [of "\<lparr>t_config = \<lparr>t_Addrs = [[97]], t_MinConn = 0, t_MaxConn = 1\<rparr>,
      t_pools = [[97] \<mapsto> \<lparr>p_cap = 1, p_conns = Some [open_conn]\<rparr>]\<rparr>" "[97]" _ Map.empty] by fastforce

text \<open>C38. A response above the client's size limit shifts all later responses: its value stays unread in the
  pooled connection, so when the value is the encoding of a response, the next request is
  answered with it, and the request after that with the response of its predecessor.\<close>

theorem responses_shifted:
  assumes "t_pools tc a = Some p" and "p_conns p = Some [open_conn]" and "p_cap p = 1"
    and peer: "\<And>i. i < 3 \<Longrightarrow> net_peer nt cl a (message_bytes ((reqs ! i)\<lparr>Magic := MagicReq, Op := op_byte (ops ! i)\<rparr>)) =
      Done (cl, Some (message_bytes (resps ! i)))"
    and big: "Magic (resps ! 0) = MagicRes" "Extra (resps ! 0) = None" "ExtraLen (resps ! 0) = 0" "DMap (resps ! 0) = []"
      "Key (resps ! 0) = []" "Value (resps ! 0) = message_bytes fake" "net_max nt < int (length (message_bytes fake))"
      "length (message_bytes fake) + 8 < 2 ^ 32"
    and small: "wire_ok (net_max nt) fake" "extra_ok fake" "wire_ok (net_max nt) (resps ! 1)" "extra_ok (resps ! 1)"
  shows "\<exists>tc1 tc2 tc3. client_RequestTo nt cl tc a (ops ! 0) (reqs ! 0) = Done (cl, tc1, Inl ErrValueTooBig) \<and>
    client_RequestTo nt cl tc1 a (ops ! 1) (reqs ! 1) = Done (cl, tc2, Inr (set_lengths fake)) \<and>
    client_RequestTo nt cl tc2 a (ops ! 2) (reqs ! 2) = Done (cl, tc3, Inr (set_lengths (resps ! 1)))"
proof -
  define tcx where "tcx bs = tc\<lparr>t_pools := (t_pools tc)(a \<mapsto> p\<lparr>p_conns := Some [open_conn\<lparr>avail := bs\<rparr>]\<rparr>)\<rparr>" for bs
  have step: "client_RequestTo nt cl (tcx bs) a oc req = Done (cl, tcx rest, r)"
    if "roundtrip nt cl a (open_conn\<lparr>avail := bs\<rparr>) (req\<lparr>Magic := MagicReq, Op := op_byte oc\<rparr>) =
      Done (cl, open_conn\<lparr>avail := rest\<rparr>, r)" for bs rest oc req r
    using client_RequestTo_single [of "tcx bs" a "p\<lparr>p_conns := Some [open_conn\<lparr>avail := bs\<rparr>]\<rparr>"] assms(3) that
    by (simp add: tcx_def)
  have "tcx [] = tc" using assms(1,2) by (simp add: tcx_def open_conn_def fun_upd_idem)
  moreover have "wire_ok (int (length (Value (resps ! 0)))) (resps ! 0)" using big by (simp add: wire_ok_def)
  from message_Read_too_big [OF this big(2,3), of "net_max nt" "[]" would_block] big peer [of 0]
  have "roundtrip nt cl a (open_conn\<lparr>avail := []\<rparr>) ((reqs ! 0)\<lparr>Magic := MagicReq, Op := op_byte (ops ! 0)\<rparr>) =
      Done (cl, open_conn\<lparr>avail := message_bytes fake\<rparr>, Inl ErrValueTooBig)"
    by (simp add: roundtrip_def arrive_def open_conn_def would_block_def)
  moreover have "roundtrip nt cl a (open_conn\<lparr>avail := message_bytes fake\<rparr>) ((reqs ! 1)\<lparr>Magic := MagicReq, Op := op_byte (ops ! 1)\<rparr>) =
      Done (cl, open_conn\<lparr>avail := message_bytes (resps ! 1)\<rparr>, Inr (set_lengths fake))"
    using roundtrip_unread [OF peer [of 1], of "open_conn\<lparr>avail := message_bytes fake\<rparr>" fake] small by (simp add: open_conn_def)
  moreover have "roundtrip nt cl a (open_conn\<lparr>avail := message_bytes (resps ! 1)\<rparr>) ((reqs ! 2)\<lparr>Magic := MagicReq, Op := op_byte (ops ! 2)\<rparr>) =
      Done (cl, open_conn\<lparr>avail := message_bytes (resps ! 2)\<rparr>, Inr (set_lengths (resps ! 1)))"
    using roundtrip_unread [OF peer [of 2], of "open_conn\<lparr>avail := message_bytes (resps ! 1)\<rparr>" "resps ! 1"] small
    by (simp add: open_conn_def)
  ultimately show ?thesis using step by metis
qed

theorem responses_shifted_witness:
  "\<exists>nt tc tc1 tc2 tc3 fake small. client_RequestTo nt Map.empty tc [97] OpExGet (key_request [100] [1]) =
      Done (Map.empty, tc1, Inl ErrValueTooBig) \<and>
    client_RequestTo nt Map.empty tc1 [97] OpExGet (key_request [100] [2]) = Done (Map.empty, tc2, Inr fake) \<and>
    client_RequestTo nt Map.empty tc2 [97] OpExGet (key_request [100] [3]) = Done (Map.empty, tc3, Inr small) \<and>
    Value fake = [9] \<and> Value small = [7]"
proof -
  define req where "req k = (key_request [100] [k])\<lparr>Magic := MagicReq, Op := op_byte OpExGet\<rparr>" for k
  define fake where "fake = (message_Success (req 0))\<lparr>Value := [9]\<rparr>"
  define big where "big = (message_Success (req 0))\<lparr>Value := message_bytes fake\<rparr>"
  define small where "small = (message_Success (req 0))\<lparr>Value := [7]\<rparr>"
  define nt where "nt = \<lparr>net_max = 4, net_dial = (\<lambda>_ _. None), net_peer = (\<lambda>cl _ bs.
    Done (cl, Some (message_bytes (if bs = message_bytes (req 1) then big else small))))\<rparr>"
  define tc where "tc = \<lparr>t_config = \<lparr>t_Addrs = [[97]], t_MinConn = 0, t_MaxConn = 1\<rparr>,
      t_pools = [[97] \<mapsto> \<lparr>p_cap = 1, p_conns = Some [open_conn]\<rparr>]\<rparr>"
  have ne: "message_bytes (req 2) \<noteq> message_bytes (req 1)" "message_bytes (req 3) \<noteq> message_bytes (req 1)"
    by (simp_all add: req_def key_request_def empty_message_def message_bytes_def encode_header_def set_lengths_def)
  let ?reqs = "[key_request [100] [1], key_request [100] [2], key_request [100] [3]]"
  have peer: "net_peer nt Map.empty [97] (message_bytes ((?reqs ! i)\<lparr>Magic := MagicReq, Op := op_byte ([OpExGet, OpExGet, OpExGet] ! i)\<rparr>)) =
      Done (Map.empty, Some (message_bytes ([big, small, small] ! i)))" if "i < 3" for i
  proof -
    from that have "i = 0 \<or> i = 1 \<or> i = 2" by auto
    with ne show ?thesis by (auto simp: nt_def req_def)
  qed
  have "message_bytes fake = encode_header (set_lengths fake) @ [9]"
    by (simp add: fake_def message_bytes_def message_Success_def empty_message_def)
  then have len: "length (message_bytes fake) = 13" by (simp add: headerSize_def)
  have "\<exists>tc1 tc2 tc3. client_RequestTo nt Map.empty tc [97] ([OpExGet, OpExGet, OpExGet] ! 0) (?reqs ! 0) =
      Done (Map.empty, tc1, Inl ErrValueTooBig) \<and>
    client_RequestTo nt Map.empty tc1 [97] ([OpExGet, OpExGet, OpExGet] ! 1) (?reqs ! 1) = Done (Map.empty, tc2, Inr (set_lengths fake)) \<and>
    client_RequestTo nt Map.empty tc2 [97] ([OpExGet, OpExGet, OpExGet] ! 2) (?reqs ! 2) =
      Done (Map.empty, tc3, Inr (set_lengths ([big, small, small] ! 1)))"
    by (rule responses_shifted [where p = "\<lparr>p_cap = 1, p_conns = Some [open_conn]\<rparr>", OF _ _ _ peer])
      (simp_all add: tc_def big_def len nt_def, simp_all add: fake_def small_def message_Success_def empty_message_def
        wire_ok_def extra_ok_def)
  then obtain tc1 tc2 tc3 where "client_RequestTo nt Map.empty tc [97] OpExGet (key_request [100] [1]) =
      Done (Map.empty, tc1, Inl ErrValueTooBig)"
    "client_RequestTo nt Map.empty tc1 [97] OpExGet (key_request [100] [2]) = Done (Map.empty, tc2, Inr (set_lengths fake))"
    "client_RequestTo nt Map.empty tc2 [97] OpExGet (key_request [100] [3]) = Done (Map.empty, tc3, Inr (set_lengths small))"
    by auto
  moreover have "Value (set_lengths fake) = [9]" "Value (set_lengths small) = [7]" by (simp_all add: fake_def small_def)
  ultimately show ?thesis by blast
qed

text \<open>The client reports success for a put that the cluster refused: whatever error the put has at the
  node, the node answers with it, and the client drops the answer.\<close>

theorem refused_put_succeeds:
  assumes "clean tc" and "t_Addrs (t_config tc) ! (i mod length (t_Addrs (t_config tc))) = a" and "t_Addrs (t_config tc) \<noteq> []"
    and "cl a = Some n" and "w_marshal w v = Inr data" and "small_item name key data"
    and "DefaultMaxValueSize \<le> n_max n" and "DefaultMaxValueSize \<le> maxv"
    and "put w (wire_rpc k w a) cl a name key data 0 = fail cl' e" and "length (err_text e) < 2 ^ 20"
  shows "\<exists>tc'. client_Put w (cluster_net w k maxv) i cl tc name key v = Done (cl', tc', Inr ())"
proof -
  let ?req = "((key_request name key)\<lparr>Value := data\<rparr>)\<lparr>Magic := MagicReq, Op := op_byte OpExPut\<rparr>"
  let ?resp = "message_Error (set_lengths ?req) StatusInternalServerError (err_text e)"
  have p: "put_request name key data 0 = (key_request name key)\<lparr>Value := data\<rparr>"
    by (simp add: put_request_def key_request_def empty_message_def)
  have "wire_ok (n_max n) ?req" using put_request_wire [OF assms(6,7), where t = 0 and x = "op_byte OpExPut"] by (simp only: p)
  moreover have "extra_ok ?req" by (simp add: extra_ok_def key_request_def empty_message_def)
  moreover have "dispatch w (wire_rpc k w a) cl a (set_lengths ?req) OpExPut = Done (cl', ?resp)"
    using assms(9) by (simp add: exPutOperation_def reply_unit_def key_request_def fail_def)
  moreover have "wire_ok maxv ?resp" "extra_ok ?resp"
    using assms(8,10) by (simp_all add: wire_ok_def extra_ok_def message_Error_def empty_message_def string_bytes_def
        DefaultMaxValueSize_def)
  ultimately obtain tc' where "client_Request (cluster_net w k maxv) i cl tc OpExPut ((key_request name key)\<lparr>Value := data\<rparr>) =
      Done (cl', tc', Inr (set_lengths ?resp))"
    using client_Request_delivered [where cl = cl and a = a and i = i, OF assms(1-4) refl] by blast
  with assms(5) show ?thesis by (simp add: client_Put_def bind_cop_def)
qed

theorem refused_put_succeeds_witness:
  "\<exists>tc tc'. put w_mem (wire_rpc 1 w_mem [98]) (sample_cluster([98] \<mapsto> (sample_node host_b [host_b])\<lparr>n_boot := BootExpired\<rparr>))
      [98] [100] [107] (putUint64 5) 0 =
      fail (sample_cluster([98] \<mapsto> (sample_node host_b [host_b])\<lparr>n_boot := BootExpired\<rparr>)) ErrOperationTimeout \<and>
    client_Put w_mem (cluster_net w_mem 1 (2 ^ 20)) 0 (sample_cluster([98] \<mapsto> (sample_node host_b [host_b])\<lparr>n_boot := BootExpired\<rparr>))
      tc [100] [107] (VInt 5) =
      Done (sample_cluster([98] \<mapsto> (sample_node host_b [host_b])\<lparr>n_boot := BootExpired\<rparr>), tc', Inr ())"
proof -
  let ?cl = "sample_cluster([98] \<mapsto> (sample_node host_b [host_b])\<lparr>n_boot := BootExpired\<rparr>)"
  obtain kc where kc: "client_New (Some \<lparr>k_Addrs = [[98]], k_MaxConn = 0\<rparr>) None = Inr (Ret kc)"
    by (simp add: client_New_def NewClient_def)
  note c = client_New_clean [OF kc _ refl, simplified]
  have f: "put w_mem (wire_rpc 1 w_mem [98]) ?cl [98] [100] [107] (putUint64 5) 0 = fail ?cl ErrOperationTimeout"
    by (simp add: put_def op_simps locateKey_def locateHKey_def await_boot_def Let_def)
  have "small_item [100] [107] (putUint64 5)" by (simp add: small_item_def maxKeyLen_def minimumSize_def)
  with refused_put_succeeds [OF c(1) _ _ _ _ _ _ _ f, where i = 0 and maxv = "2 ^ 20" and v = "VInt 5"] c(2) f show ?thesis
    by (auto simp: w_mem_def DefaultMaxValueSize_def)
qed

end
