(* ===== verification/Go_Strings.thy ===== *)
theory Go_Strings
  imports Protocol
begin

text \<open>
  The functions of Go's standard library on strings that the command line client and the server process
  use: \<open>strings\<close>, \<open>strconv.Atoi\<close>, \<open>time.ParseDuration\<close> and \<open>net.SplitHostPort\<close>. Strings are strings
  of ASCII characters.
\<close>

section \<open>strings\<close>

definition quote :: char where "quote = CHR 0x22"

definition is_space :: "char \<Rightarrow> bool" where
  "is_space c \<longleftrightarrow> c \<in> {CHR 0x09, CHR 0x0A, CHR 0x0B, CHR 0x0C, CHR 0x0D, CHR 0x20}"

definition trim_right :: "(char \<Rightarrow> bool) \<Rightarrow> string \<Rightarrow> string" where
  "trim_right P s = rev (dropWhile P (rev s))"

definition TrimSpace :: "string \<Rightarrow> string" where
  "TrimSpace s = trim_right is_space (dropWhile is_space s)"

definition TrimLeft :: "string \<Rightarrow> string \<Rightarrow> string" where
  "TrimLeft s cutset = dropWhile (\<lambda>c. c \<in> set cutset) s"

definition Trim :: "string \<Rightarrow> string \<Rightarrow> string" where
  "Trim s cutset = trim_right (\<lambda>c. c \<in> set cutset) (TrimLeft s cutset)"

text \<open>The parts before and after the first occurrence of a separator.\<close>

fun break_on :: "string \<Rightarrow> string \<Rightarrow> (string \<times> string) option" where
  "break_on sep [] = (if sep = [] then Some ([], []) else None)"
| "break_on sep (c # s) =
     (if starts_with sep (c # s) then Some ([], drop (length sep) (c # s))
      else map_option (\<lambda>(a, b). (c # a, b)) (break_on sep s))"

lemma starts_with_append [simp]: "starts_with p (p @ s)"
  by (induction p) simp_all

lemma starts_with_iff: "starts_with p s \<longleftrightarrow> (\<exists>t. s = p @ t)"
  by (induction p s rule: starts_with.induct) auto

lemma break_on_Some: "break_on sep s = Some (a, b) \<Longrightarrow> s = a @ sep @ b"
  by (induction sep s arbitrary: a b rule: break_on.induct)
    (auto simp: starts_with_iff split: if_splits)

lemma break_on_front: "break_on p (p @ s) = Some ([], s)"
proof (cases "p @ s")
  case (Cons c t)
  then have "starts_with p (c # t)" "drop (length p) (c # t) = s"
    by (metis starts_with_append, metis append_eq_conv_conj)
  with Cons show ?thesis by simp
qed simp

lemma break_on_char: "c \<notin> set a \<Longrightarrow> break_on [c] (a @ c # b) = Some (a, b)"
  by (induction a) auto

function strings_Split :: "string \<Rightarrow> string \<Rightarrow> string list" where
  "strings_Split s sep =
     (if sep = [] then map (\<lambda>c. [c]) s
      else case break_on sep s of None \<Rightarrow> [s] | Some (a, b) \<Rightarrow> a # strings_Split b sep)"
  by auto

termination
  by (relation "measure (\<lambda>(s, _). length s)") (auto dest!: break_on_Some)

declare strings_Split.simps [simp del]

definition SplitN2 :: "string \<Rightarrow> string \<Rightarrow> string list" where
  "SplitN2 s sep = (case break_on sep s of None \<Rightarrow> [s] | Some (a, b) \<Rightarrow> [a, b])"

lemma Split_not_empty: "sep \<noteq> [] \<Longrightarrow> strings_Split s sep \<noteq> []"
  by (subst strings_Split.simps) (simp split: option.split)

lemma Split_front: "sep \<noteq> [] \<Longrightarrow> strings_Split (sep @ s) sep = [] # strings_Split s sep"
  by (subst strings_Split.simps) (simp add: break_on_front)

lemma dropWhile_space_quote [simp]: "dropWhile is_space (quote # s) = quote # s"
  by (simp add: is_space_def quote_def)

lemma trim_right_snoc: "\<not> P c \<Longrightarrow> trim_right P (s @ c # t) = s @ c # trim_right P t"
  by (simp add: trim_right_def dropWhile_append)

lemma TrimSpace_quoted:
  "TrimSpace (quote # k @ quote # s) = quote # k @ quote # trim_right is_space s"
  using trim_right_snoc [of is_space quote "quote # k" s] by (simp add: TrimSpace_def is_space_def quote_def)

section \<open>Numbers\<close>

definition is_digit :: "char \<Rightarrow> bool" where
  "is_digit c \<longleftrightarrow> c \<in> set ''0123456789''"

definition digit_val :: "char \<Rightarrow> int" where
  "digit_val c = of_char c - 48"

fun read_digits :: "string \<Rightarrow> int \<Rightarrow> int" where
  "read_digits [] n = n"
| "read_digits (c # s) n = read_digits s (10 * n + digit_val c)"

text \<open>\<open>strconv.Atoi\<close>: an optional sign and digits, within 64 bits.\<close>

definition Atoi :: "string \<Rightarrow> int option" where
  "Atoi s =
     (let (neg, ds) = (case s of
            CHR ''-'' # t \<Rightarrow> (True, t) | CHR ''+'' # t \<Rightarrow> (False, t) | _ \<Rightarrow> (False, s));
          n = (if neg then - read_digits ds 0 else read_digits ds 0)
      in if ds = [] \<or> \<not> list_all is_digit ds \<or> n < - (2 ^ 63) \<or> 2 ^ 63 \<le> n then None else Some n)"

section \<open>time.ParseDuration\<close>

definition max_int64 :: int where "max_int64 = 2 ^ 63 - 1"

text \<open>The nanoseconds of a unit; a micro sign is not an ASCII character.\<close>

definition unit_ns :: "string \<Rightarrow> int option" where
  "unit_ns = map_of [(''ns'', 1), (''us'', 1000), (''ms'', 1000000), (''s'', 1000000000),
     (''m'', 60000000000), (''h'', 3600000000000)]"

fun leadingInt :: "string \<Rightarrow> int \<Rightarrow> (int \<times> string) option" where
  "leadingInt [] x = Some (x, [])"
| "leadingInt (c # s) x =
     (if \<not> is_digit c then Some (x, c # s)
      else if x > max_int64 div 10 then None
      else let x' = 10 * x + digit_val c in if x' > max_int64 then None else leadingInt s x')"

text \<open>Digits of a fraction beyond 63 bits are skipped.\<close>

fun leadingFraction :: "string \<Rightarrow> int \<Rightarrow> int \<Rightarrow> bool \<Rightarrow> int \<times> int \<times> string" where
  "leadingFraction [] x scale over = (x, scale, [])"
| "leadingFraction (c # s) x scale over =
     (if \<not> is_digit c then (x, scale, c # s)
      else if over then leadingFraction s x scale True
      else if x > max_int64 div 10 then leadingFraction s x scale True
      else let y = 10 * x + digit_val c in
        if y > max_int64 then leadingFraction s x scale True else leadingFraction s y (10 * scale) False)"

definition unit_char :: "char \<Rightarrow> bool" where
  "unit_char c \<longleftrightarrow> \<not> (c = CHR ''.'' \<or> is_digit c)"

text \<open>
  One number with its unit, and the rest. The code computes the fraction in floating point; here it is
  computed exactly. All errors have one text here.
\<close>

definition duration_part :: "string \<Rightarrow> (int \<times> string) option" where
  "duration_part s =
     (if s = [] \<or> unit_char (hd s) then None
      else case leadingInt s 0 of
        None \<Rightarrow> None
      | Some (v, s1) \<Rightarrow>
          let pre = length s1 \<noteq> length s;
              (f, scale, s2, post) =
                (case s1 of
                   CHR ''.'' # t \<Rightarrow> (let (f, sc, r) = leadingFraction t 0 1 False in (f, sc, r, length r \<noteq> length t))
                 | _ \<Rightarrow> (0, 1, s1, False));
              u = takeWhile unit_char s2
          in if \<not> pre \<and> \<not> post \<or> u = [] then None
             else case unit_ns u of
               None \<Rightarrow> None
             | Some unit \<Rightarrow>
                 if v > max_int64 div unit then None
                 else let v' = v * unit + f * unit div scale
                      in if v' > max_int64 then None else Some (v', dropWhile unit_char s2))"

text \<open>The loop over the parts; each part is at least one character long, so the length is enough fuel.\<close>

fun duration_loop :: "nat \<Rightarrow> string \<Rightarrow> int \<Rightarrow> int option" where
  "duration_loop n [] d = Some d"
| "duration_loop 0 (c # s) d = None"
| "duration_loop (Suc n) (c # s) d =
     (case duration_part (c # s) of
        None \<Rightarrow> None
      | Some (v, r) \<Rightarrow> if d + v > max_int64 then None else duration_loop n r (d + v))"

definition ParseDuration :: "string \<Rightarrow> gerr + 64 word" where
  "ParseDuration orig =
     (let (neg, s) = (case orig of
            CHR ''-'' # t \<Rightarrow> (True, t) | CHR ''+'' # t \<Rightarrow> (False, t) | _ \<Rightarrow> (False, orig))
      in if s = ''0'' then Inr 0
         else case (if s = [] then None else duration_loop (length s) s 0) of
           None \<Rightarrow> Inl (ErrOther (''time: invalid duration '' @ orig))
         | Some d \<Rightarrow> Inr (word_of_int (if neg then - d else d)))"

section \<open>net.SplitHostPort\<close>

definition split_last_colon :: "string \<Rightarrow> (string \<times> string) option" where
  "split_last_colon s =
     (if CHR '':'' \<in> set s
      then Some (rev (tl (dropWhile (\<lambda>c. c \<noteq> CHR '':'') (rev s))), rev (takeWhile (\<lambda>c. c \<noteq> CHR '':'') (rev s)))
      else None)"

definition SplitHostPort :: "string \<Rightarrow> gerr + string \<times> string" where
  "SplitHostPort hp =
     (let bad = (\<lambda>why. Inl (ErrOther (''address '' @ hp @ '': '' @ why))) in
      case split_last_colon hp of
        None \<Rightarrow> bad ''missing port in address''
      | Some (h, port) \<Rightarrow>
          if hp \<noteq> [] \<and> hd hp = CHR ''['' then
            (let inner = takeWhile (\<lambda>c. c \<noteq> CHR '']'') (tl hp);
                 rest = drop (length inner + 2) hp
             in if CHR '']'' \<notin> set hp then bad ''missing ']' in address''
                else if rest = [] then bad ''missing port in address''
                else if h \<noteq> CHR ''['' # inner @ '']'' then
                  bad (if hd rest = CHR '':'' then ''too many colons in address'' else ''missing port in address'')
                else if CHR ''['' \<in> set (tl hp) then bad ''unexpected '[' in address''
                else if CHR '']'' \<in> set rest then bad ''unexpected ']' in address''
                else Inr (inner, port))
          else if CHR '':'' \<in> set h then bad ''too many colons in address''
          else if CHR ''['' \<in> set hp then bad ''unexpected '[' in address''
          else if CHR '']'' \<in> set hp then bad ''unexpected ']' in address''
          else Inr (h, port))"

end
