(* ===== verification/Go_Flag.thy ===== *)
theory Go_Flag
  imports Prelude
begin

text \<open>
  Go's package \<open>flag\<close>, as the two commands use it: a flag set with boolean and string flags, and \<open>Parse\<close>
  with the error handling \<open>ContinueOnError\<close>. The variables of a command are a state \<open>'s\<close>, and a flag says how it
  sets its variable.
\<close>

section \<open>Parsing\<close>

datatype 's flag = BoolVar "bool \<Rightarrow> 's \<Rightarrow> 's" | StringVar "string \<Rightarrow> 's \<Rightarrow> 's"

type_synonym 's flag_set = "(string \<times> 's flag) list"

definition ParseBool :: "string \<Rightarrow> bool option" where
  "ParseBool s =
     (if s \<in> set [''1'', ''t'', ''T'', ''TRUE'', ''true'', ''True''] then Some True
      else if s \<in> set [''0'', ''f'', ''F'', ''FALSE'', ''false'', ''False''] then Some False
      else None)"

text \<open>One step: the parsing stops with the remaining arguments, fails, or goes on.\<close>

datatype 's parsed = Stop "string list" | Failed gerr | Parsed 's "string list"

text \<open>A flag's name, and its value after an equals sign.\<close>

definition split_flag :: "string \<Rightarrow> string \<times> string option" where
  "split_flag nm =
     (takeWhile (\<lambda>c. c \<noteq> CHR ''='') nm,
      case dropWhile (\<lambda>c. c \<noteq> CHR ''='') nm of [] \<Rightarrow> None | _ # v \<Rightarrow> Some v)"

text \<open>What a flag does with its value, given the arguments after it.\<close>

definition set_flag :: "'s flag option \<Rightarrow> 's \<Rightarrow> string \<Rightarrow> string option \<Rightarrow> string list \<Rightarrow> 's parsed" where
  "set_flag fl st nm v args =
     (case fl of
        None \<Rightarrow>
          Failed (ErrOther (if nm = ''help'' \<or> nm = ''h'' then ''flag: help requested''
                            else ''flag provided but not defined: -'' @ nm))
      | Some (BoolVar f) \<Rightarrow>
          (case v of
             None \<Rightarrow> Parsed (f True st) args
           | Some s \<Rightarrow>
               (case ParseBool s of
                  None \<Rightarrow> Failed (ErrOther (''invalid boolean value '' @ s @ '' for -'' @ nm))
                | Some b \<Rightarrow> Parsed (f b st) args))
      | Some (StringVar f) \<Rightarrow>
          (case v of
             Some s \<Rightarrow> Parsed (f s st) args
           | None \<Rightarrow>
               (case args of
                  [] \<Rightarrow> Failed (ErrOther (''flag needs an argument: -'' @ nm))
                | s # args \<Rightarrow> Parsed (f s st) args)))"

definition parseOne :: "'s flag_set \<Rightarrow> 's \<Rightarrow> string list \<Rightarrow> 's parsed" where
  "parseOne F st args =
     (case args of
        [] \<Rightarrow> Stop []
      | s # rest \<Rightarrow>
          if length s < 2 \<or> hd s \<noteq> CHR ''-'' then Stop args
          else if s = ''--'' then Stop rest
          else
            let nm = drop (if s ! 1 = CHR ''-'' then 2 else 1) s in
            if hd nm = CHR ''-'' \<or> hd nm = CHR ''='' then Failed (ErrOther (''bad flag syntax: '' @ s))
            else (case split_flag nm of (nm, v) \<Rightarrow> set_flag (map_of F nm) st nm v rest))"

lemma set_flag_shorter: "set_flag f st nm v args = Parsed st' args' \<Longrightarrow> length args' \<le> length args"
  by (auto simp: set_flag_def split: option.splits flag.splits list.splits)

lemma parseOne_shorter: "parseOne F st args = Parsed st' args' \<Longrightarrow> length args' < length args"
  by (auto simp: parseOne_def Let_def less_Suc_eq_le dest: set_flag_shorter split: list.splits if_splits prod.splits)

function flag_Parse :: "'s flag_set \<Rightarrow> 's \<Rightarrow> string list \<Rightarrow> gerr + 's \<times> string list" where
  "flag_Parse F st args =
     (case parseOne F st args of
        Stop rest \<Rightarrow> Inr (st, rest)
      | Failed e \<Rightarrow> Inl e
      | Parsed st rest \<Rightarrow> flag_Parse F st rest)"
  by auto

termination
  by (relation "measure (\<lambda>(_, _, args). length args)") (auto dest: parseOne_shorter)

declare flag_Parse.simps [simp del]

section \<open>Facts\<close>

text \<open>A name that can be written on a command line.\<close>

definition flag_name :: "string \<Rightarrow> bool" where
  "flag_name nm \<longleftrightarrow> nm \<noteq> [] \<and> hd nm \<noteq> CHR ''-'' \<and> CHR ''='' \<notin> set nm"

lemma split_flag_plain: "CHR ''='' \<notin> set nm \<Longrightarrow> split_flag nm = (nm, None)"
  by (induction nm) (auto simp: split_flag_def split: if_splits)

lemma split_flag_value: "CHR ''='' \<notin> set nm \<Longrightarrow> split_flag (nm @ ''='' @ v) = (nm, Some v)"
  by (induction nm) (auto simp: split_flag_def)

lemma parseOne_flag:
  assumes "flag_name nm"
  shows "parseOne F st ((''-'' @ nm) # rest) = set_flag (map_of F nm) st nm None rest"
    and "parseOne F st ((''-'' @ nm @ ''='' @ v) # rest) = set_flag (map_of F nm) st nm (Some v) rest"
proof -
  obtain c nm' where nm: "nm = c # nm'" "c \<noteq> CHR ''-''" "c \<noteq> CHR ''=''"
    using assms by (cases nm) (auto simp: flag_name_def)
  have e: "CHR ''='' \<notin> set nm" using assms by (simp add: flag_name_def)
  show "parseOne F st ((''-'' @ nm) # rest) = set_flag (map_of F nm) st nm None rest"
    using nm split_flag_plain [OF e] by (simp add: parseOne_def Let_def)
  show "parseOne F st ((''-'' @ nm @ ''='' @ v) # rest) = set_flag (map_of F nm) st nm (Some v) rest"
    using nm split_flag_value [OF e, of v] by (simp add: parseOne_def Let_def)
qed

text \<open>Parsing flags that are written with an equals sign.\<close>

lemma flag_Parse_string:
  assumes "flag_name nm" and "map_of F nm = Some (StringVar f)"
  shows "flag_Parse F st ((''-'' @ nm @ ''='' @ v) # rest) = flag_Parse F (f v st) rest"
    and "flag_Parse F st ((''-'' @ nm) # v # rest) = flag_Parse F (f v st) rest"
  using assms(2) by (simp_all add: flag_Parse.simps [of F st] parseOne_flag [OF assms(1)] set_flag_def del: append.simps)

definition show_bool :: "bool \<Rightarrow> string" where
  "show_bool b = (if b then ''true'' else ''false'')"

lemma flag_Parse_bool:
  assumes "flag_name nm" and "map_of F nm = Some (BoolVar f)"
  shows "flag_Parse F st ((''-'' @ nm @ ''='' @ show_bool b) # rest) = flag_Parse F (f b st) rest"
    and "flag_Parse F st ((''-'' @ nm) # rest) = flag_Parse F (f True st) rest"
  using assms(2)
  by (simp_all add: flag_Parse.simps [of F st] parseOne_flag [OF assms(1)] set_flag_def show_bool_def ParseBool_def del: append.simps)

lemma flag_Parse_end [simp]: "flag_Parse F st [] = Inr (st, [])"
  by (simp add: flag_Parse.simps parseOne_def)

end
