(* ===== verification/Cli.thy ===== *)
theory Cli
  imports Client Go_Strings Go_Flag
begin

text \<open>
  \<open>cmd/olric-cli/main.go\<close> and \<open>cmd/olric-cli/cli/cli.go\<close>, the command line client: parsing a line and the loop that runs the
  commands. A session is the state of the cluster and of the Go client, the DMap in use, and
  the texts printed so far. \<open>fmt\<close> is the \<open>%v\<close> format of a value, \<open>i\<close> the client's choice of an
  address.
\<close>

section \<open>Parsing\<close>

definition invalid_command :: gerr where
  "invalid_command = ErrOther ''invalid command''"

text \<open>The first match of the regular expression of two quotes with none in between.\<close>

definition extractKey :: "string \<Rightarrow> gerr + string" where
  "extractKey str =
     (case dropWhile (\<lambda>c. c \<noteq> quote) str of
        [] \<Rightarrow> Inl invalid_command
      | _ # rest \<Rightarrow>
          if quote \<in> set rest then Inr (takeWhile (\<lambda>c. c \<noteq> quote) rest) else Inl invalid_command)"

definition quoted :: "string \<Rightarrow> string" where
  "quoted k = quote # k @ [quote]"

text \<open>In the first branch the key is assigned to a variable of the inner block and lost.\<close>

definition parseLine :: "string \<Rightarrow> gerr + string \<times> string" where
  "parseLine line =
     (let tmp = TrimSpace line in
      if starts_with [quote] tmp then
        (case extractKey tmp of
           Inl e \<Rightarrow> Inl e
         | Inr key \<Rightarrow>
             let rval = strings_Split tmp (quoted key)
             in if length rval < 1 then Inl invalid_command else Inr ([], TrimSpace (rval ! 0)))
      else
        let res = SplitN2 tmp '' ''
        in if length res < 2 then Inl invalid_command else Inr (res ! 0, res ! 1))"

section \<open>Sessions\<close>

record session =
  ss_cl :: cluster
  ss_tc :: tclient
  ss_dmap :: string
  ss_out :: "string list"

definition newline :: string where "newline = [CHR 0x0A]"

definition say :: "session \<Rightarrow> string \<Rightarrow> session" where
  "say s msg = s\<lparr>ss_out := ss_out s @ [msg @ newline]\<rparr>"

definition say_error :: "session \<Rightarrow> gerr \<Rightarrow> string \<Rightarrow> session" where
  "say_error s e line = say s (''[ERROR] '' @ err_text e @ '': '' @ line)"

definition failed_call :: "session \<Rightarrow> string \<Rightarrow> string \<Rightarrow> gerr \<Rightarrow> session" where
  "failed_call s mth key e =
     say s (''[ERROR] Failed to call '' @ mth @ '' on '' @ ss_dmap s @ '' with key '' @ key @ '': '' @ err_text e)"

text \<open>Calling the Go client and printing what it returned.\<close>

definition call :: "session \<Rightarrow> 'a cop \<Rightarrow> (session \<Rightarrow> gerr + 'a \<Rightarrow> session) \<Rightarrow> session run" where
  "call s c show = bind_run c (\<lambda>(cl, tc, r). Done (show (s\<lparr>ss_cl := cl, ss_tc := tc\<rparr>) r))"

definition show_ok :: "string \<Rightarrow> string \<Rightarrow> session \<Rightarrow> gerr + unit \<Rightarrow> session" where
  "show_ok mth key s r = (case r of Inl e \<Rightarrow> failed_call s mth key e | Inr _ \<Rightarrow> say s ''OK'')"

definition show_int :: "string \<Rightarrow> string \<Rightarrow> session \<Rightarrow> gerr + 64 word \<Rightarrow> session" where
  "show_int mth key s r = (case r of Inl e \<Rightarrow> failed_call s mth key e | Inr v \<Rightarrow> say s (itoa (sint v)))"

text \<open>The value of a string, as the Go client gets it.\<close>

definition str_val :: "string \<Rightarrow> gval" where
  "str_val v = VOther ''string'' (string_bytes v)"

section \<open>Commands\<close>

definition cmd_use :: "session \<Rightarrow> string \<Rightarrow> session" where
  "cmd_use s line =
     (let dm = Trim (strings_Split line ''use'' ! 1) '' '' in
      if starts_with [quote] dm then
        (case extractKey dm of
           Inl e \<Rightarrow> say_error (s\<lparr>ss_dmap := []\<rparr>) e line
         | Inr k \<Rightarrow> say (s\<lparr>ss_dmap := k\<rparr>) (''use '' @ k))
      else say (s\<lparr>ss_dmap := dm\<rparr>) (''use '' @ dm))"

definition cmd_put :: "world \<Rightarrow> net \<Rightarrow> nat \<Rightarrow> session \<Rightarrow> string \<Rightarrow> session run" where
  "cmd_put w nt i s line =
     (case parseLine (TrimSpace (TrimLeft line ''put '')) of
        Inl e \<Rightarrow> Done (say_error s e line)
      | Inr (key, val) \<Rightarrow>
          call s (client_Put w nt i (ss_cl s) (ss_tc s) (string_bytes (ss_dmap s)) (string_bytes key) (str_val val))
            (show_ok ''Put'' key))"

text \<open>The key and the rest of a \<open>putex\<close> line.\<close>

definition putex_key :: "string \<Rightarrow> gerr + string \<times> string" where
  "putex_key tmp =
     (if starts_with [quote] tmp then
        (case extractKey tmp of
           Inl e \<Rightarrow> Inl e
         | Inr key \<Rightarrow>
             let rval = strings_Split tmp (quoted key)
             in if length rval < 1 then Inl invalid_command else Inr (key, rval ! 0))
      else
        let res = SplitN2 tmp '' ''
        in if length res < 2 then Inl invalid_command else Inr (res ! 0, res ! 1))"

definition cmd_putex :: "world \<Rightarrow> net \<Rightarrow> nat \<Rightarrow> session \<Rightarrow> string \<Rightarrow> session run" where
  "cmd_putex w nt i s line =
     (case putex_key (TrimSpace (TrimLeft line ''putex '')) of
        Inl e \<Rightarrow> Done (say_error s e line)
      | Inr (key, tval) \<Rightarrow>
          let res = SplitN2 (TrimSpace tval) '' '' in
          if length res < 2 then Done (say_error s invalid_command line)
          else case ParseDuration (res ! 0) of
            Inl e \<Rightarrow> Done (say_error s e line)
          | Inr ttl \<Rightarrow>
              call s (client_PutEx w nt i (ss_cl s) (ss_tc s) (string_bytes (ss_dmap s)) (string_bytes key)
                        (str_val (res ! 1)) ttl)
                (show_ok ''PutEx'' key))"

text \<open>The key of \<open>get\<close> and \<open>delete\<close>.\<close>

definition line_key :: "string \<Rightarrow> string \<Rightarrow> gerr + string" where
  "line_key line cutset =
     (let key = TrimLeft line cutset in if starts_with [quote] key then extractKey key else Inr key)"

definition cmd_get :: "(gval \<Rightarrow> string) \<Rightarrow> world \<Rightarrow> net \<Rightarrow> nat \<Rightarrow> session \<Rightarrow> string \<Rightarrow> session run" where
  "cmd_get fmt w nt i s line =
     (case line_key line ''get '' of
        Inl e \<Rightarrow> Done (say_error s e line)
      | Inr key \<Rightarrow>
          call s (client_Get w nt i (ss_cl s) (ss_tc s) (string_bytes (ss_dmap s)) (string_bytes key)) (\<lambda>s r.
            case r of
              Inl e \<Rightarrow> if e = ErrKeyNotFound then say s ''nil'' else failed_call s ''Get'' key e
            | Inr v \<Rightarrow> say s (fmt v)))"

definition cmd_delete :: "net \<Rightarrow> nat \<Rightarrow> session \<Rightarrow> string \<Rightarrow> session run" where
  "cmd_delete nt i s line =
     (case line_key line ''delete '' of
        Inl e \<Rightarrow> Done (say_error s e line)
      | Inr key \<Rightarrow>
          call s (client_Delete nt i (ss_cl s) (ss_tc s) (string_bytes (ss_dmap s)) (string_bytes key))
            (show_ok ''Delete'' key))"

definition cmd_destroy :: "net \<Rightarrow> nat \<Rightarrow> session \<Rightarrow> session run" where
  "cmd_destroy nt i s =
     call s (client_Destroy nt i (ss_cl s) (ss_tc s) (string_bytes (ss_dmap s))) (\<lambda>s r. case r of
         Inl e \<Rightarrow> say s (''[ERROR] Failed to call Destroy on '' @ ss_dmap s @ '': '' @ err_text e)
       | Inr _ \<Rightarrow> say s ''OK'')"

text \<open>\<open>incr\<close> and \<open>decr\<close>, with the client method \<open>f\<close>.\<close>

definition cmd_delta ::
  "(cluster \<Rightarrow> tclient \<Rightarrow> bytes \<Rightarrow> bytes \<Rightarrow> 64 word \<Rightarrow> (64 word) cop) \<Rightarrow> string \<Rightarrow> string \<Rightarrow> session \<Rightarrow> string \<Rightarrow> session run" where
  "cmd_delta f mth cutset s line =
     (case parseLine (TrimLeft line cutset) of
        Inl e \<Rightarrow> Done (say_error s e line)
      | Inr (key, val) \<Rightarrow>
          (case Atoi val of
             None \<Rightarrow> Done (say s (''[ERROR] invalid delta: '' @ val))
           | Some delta \<Rightarrow>
               call s (f (ss_cl s) (ss_tc s) (string_bytes (ss_dmap s)) (string_bytes key) (word_of_int delta))
                 (show_int mth key)))"

text \<open>The second \<open>switch\<close>, for a line with the surrounding space removed and a DMap in use.\<close>

definition cli_command :: "(gval \<Rightarrow> string) \<Rightarrow> world \<Rightarrow> net \<Rightarrow> nat \<Rightarrow> session \<Rightarrow> string \<Rightarrow> session run" where
  "cli_command fmt w nt i s line =
     (if starts_with ''put '' line then cmd_put w nt i s line
      else if starts_with ''putex '' line then cmd_putex w nt i s line
      else if starts_with ''get '' line then cmd_get fmt w nt i s line
      else if starts_with ''delete '' line then cmd_delete nt i s line
      else if starts_with ''destroy'' line then cmd_destroy nt i s
      else if starts_with ''incr '' line then cmd_delta (client_Incr w nt i) ''Incr'' ''incr '' s line
      else if starts_with ''decr '' line then cmd_delta (client_Decr w nt i) ''Decr'' ''decr '' s line
      else Done (say s
        ''[ERROR] Invalid command. Available commands: put, putex, get, delete, destroy and exit.''))"

text \<open>What the completion of the terminal offers.\<close>

definition completer :: "string list" where
  "completer = [''help'', ''use'', ''put'', ''putex'', ''get'', ''delete'', ''destroy'', ''incr'', ''decr'']"

section \<open>The loop\<close>

text \<open>What \<open>Readline\<close> returns; after the list it returns the end of the input.\<close>

datatype input = Line string | Interrupt string | ReadEOF | ReadError gerr

text \<open>\<open>Start\<close> from the loop on: the session and the error it returns.\<close>

fun cli_loop ::
  "(gval \<Rightarrow> string) \<Rightarrow> world \<Rightarrow> net \<Rightarrow> session \<Rightarrow> (nat \<times> input) list \<Rightarrow> (session \<times> gerr option) run" where
  "cli_loop fmt w nt s [] = Done (s, None)"
| "cli_loop fmt w nt s ((i, ReadEOF) # ins) = Done (s, None)"
| "cli_loop fmt w nt s ((i, ReadError e) # ins) = Done (s, Some e)"
| "cli_loop fmt w nt s ((i, Interrupt l) # ins) = (if l = [] then Done (s, None) else cli_loop fmt w nt s ins)"
| "cli_loop fmt w nt s ((i, Line l) # ins) =
     (let line = TrimSpace l in
      if starts_with ''exit'' line then Done (s, None)
      else if starts_with ''use '' line then cli_loop fmt w nt (cmd_use s line) ins
      else if ss_dmap s = [] then
        cli_loop fmt w nt (say s ''[ERROR] Call 'use' command before accessing database.'') ins
      else bind_run (cli_command fmt w nt i s line) (\<lambda>s. cli_loop fmt w nt s ins))"

text \<open>
  \<open>New\<close>, and \<open>Start\<close> with the value of \<open>HOME\<close> and the error of creating the line reader. The warning about a
  missing \<open>HOME\<close> is printed before there is an output, so it panics. The table of gob types does not change
  in a session, since it has the strings and integers from the start.
\<close>

definition cli_New :: "string \<Rightarrow> bool \<Rightarrow> string \<Rightarrow> string \<Rightarrow> gerr + client outcome" where
  "cli_New a insecureSkipVerify serializer timeout =
     bind_sum (serializer_named serializer) (\<lambda>s.
       client_New (Some \<lparr>k_Addrs = [string_bytes a], k_MaxConn = 0\<rparr>) (Some s))"

definition cli_Start ::
  "(gval \<Rightarrow> string) \<Rightarrow> codecs \<Rightarrow> registry \<Rightarrow> world \<Rightarrow> net \<Rightarrow> string \<Rightarrow> gerr option \<Rightarrow> cluster \<Rightarrow> client \<Rightarrow>
   (nat \<times> input) list \<Rightarrow> (session \<times> gerr option) run" where
  "cli_Start fmt C reg w nt home rl cl c ins =
     (let s = \<lparr>ss_cl = cl, ss_tc = kc_client c, ss_dmap = [], ss_out = []\<rparr> in
      if home = [] then Crash
      else case rl of
        Some e \<Rightarrow> Done (s, Some e)
      | None \<Rightarrow> cli_loop fmt (serializer_world C (kc_serializer c) reg w) nt s ins)"

section \<open>The command\<close>

text \<open>The variables of \<open>cmd/olric-cli/main.go\<close> with the defaults of their flags, and the flag set.\<close>

definition defaultSerializer :: string where "defaultSerializer = ''gob''"
definition defaultAddr :: string where "defaultAddr = ''127.0.0.1:3320''"

record cli_vars =
  v_showHelp :: bool
  v_showVersion :: bool
  v_insecure :: bool
  v_addr :: string
  v_timeout :: string
  v_serializer :: string

definition cli_defaults :: cli_vars where
  "cli_defaults = \<lparr>v_showHelp = False, v_showVersion = False, v_insecure = False, v_addr = defaultAddr,
     v_timeout = ''10s'', v_serializer = defaultSerializer\<rparr>"

definition cli_flags :: "cli_vars flag_set" where
  "cli_flags =
     [(''h'', BoolVar (\<lambda>b. v_showHelp_update (\<lambda>_. b))), (''help'', BoolVar (\<lambda>b. v_showHelp_update (\<lambda>_. b))),
      (''v'', BoolVar (\<lambda>b. v_showVersion_update (\<lambda>_. b))), (''version'', BoolVar (\<lambda>b. v_showVersion_update (\<lambda>_. b))),
      (''k'', BoolVar (\<lambda>b. v_insecure_update (\<lambda>_. b))), (''insecure'', BoolVar (\<lambda>b. v_insecure_update (\<lambda>_. b))),
      (''t'', StringVar (\<lambda>x. v_timeout_update (\<lambda>_. x))), (''timeout'', StringVar (\<lambda>x. v_timeout_update (\<lambda>_. x))),
      (''a'', StringVar (\<lambda>x. v_addr_update (\<lambda>_. x))), (''addr'', StringVar (\<lambda>x. v_addr_update (\<lambda>_. x))),
      (''s'', StringVar (\<lambda>x. v_serializer_update (\<lambda>_. x))), (''serializer'', StringVar (\<lambda>x. v_serializer_update (\<lambda>_. x)))]"

text \<open>\<open>main\<close>: the exit code, for the arguments after the program's name. \<open>start\<close> is \<open>cli_Start\<close> in its environment.\<close>

definition cli_run :: "(client \<Rightarrow> (session \<times> gerr option) run) \<Rightarrow> cli_vars \<Rightarrow> nat run" where
  "cli_run start v =
     (if v_showVersion v then Done 0
      else if v_showHelp v then Done 0
      else case cli_New (v_addr v) (v_insecure v) (v_serializer v) (v_timeout v) of
        Inl e \<Rightarrow> Done 1
      | Inr c \<Rightarrow> bind_run (of_outcome c) (\<lambda>c. bind_run (start c) (\<lambda>(s, e). Done (if e = None then 0 else 1))))"

definition cli_main :: "(client \<Rightarrow> (session \<times> gerr option) run) \<Rightarrow> string list \<Rightarrow> nat run" where
  "cli_main start args =
     (case flag_Parse cli_flags cli_defaults args of
        Inl e \<Rightarrow> Done 1
      | Inr (v, _) \<Rightarrow> cli_run start v)"

text \<open>The variables as arguments, and that they are read back.\<close>

definition cli_args :: "cli_vars \<Rightarrow> string list" where
  "cli_args v =
     [''-'' @ ''help'' @ ''='' @ show_bool (v_showHelp v), ''-'' @ ''version'' @ ''='' @ show_bool (v_showVersion v),
      ''-'' @ ''insecure'' @ ''='' @ show_bool (v_insecure v), ''-'' @ ''addr'' @ ''='' @ v_addr v,
      ''-'' @ ''timeout'' @ ''='' @ v_timeout v, ''-'' @ ''serializer'' @ ''='' @ v_serializer v]"

lemma cli_flag_lookup:
  "map_of cli_flags ''help'' = Some (BoolVar (\<lambda>b. v_showHelp_update (\<lambda>_. b)))"
  "map_of cli_flags ''version'' = Some (BoolVar (\<lambda>b. v_showVersion_update (\<lambda>_. b)))"
  "map_of cli_flags ''insecure'' = Some (BoolVar (\<lambda>b. v_insecure_update (\<lambda>_. b)))"
  "map_of cli_flags ''timeout'' = Some (StringVar (\<lambda>x. v_timeout_update (\<lambda>_. x)))"
  "map_of cli_flags ''addr'' = Some (StringVar (\<lambda>x. v_addr_update (\<lambda>_. x)))"
  "map_of cli_flags ''serializer'' = Some (StringVar (\<lambda>x. v_serializer_update (\<lambda>_. x)))"
  by (simp_all add: cli_flags_def)

lemma cli_flags_roundtrip: "flag_Parse cli_flags u (cli_args v) = Inr (v, [])"
  unfolding cli_args_def
  by (simp add: flag_Parse_string(1) [OF _ cli_flag_lookup(4)] flag_Parse_string(1) [OF _ cli_flag_lookup(5)]
      flag_Parse_string(1) [OF _ cli_flag_lookup(6)] flag_Parse_bool(1) [OF _ cli_flag_lookup(1)]
      flag_Parse_bool(1) [OF _ cli_flag_lookup(2)] flag_Parse_bool(1) [OF _ cli_flag_lookup(3)] flag_name_def del: append.simps)

text \<open>The flags about insecure connections and the timeout have no effect.\<close>

lemma cli_flags_ignored:
  "cli_main start (cli_args (v\<lparr>v_insecure := b, v_timeout := t\<rparr>)) = cli_main start (cli_args v)"
  by (simp add: cli_main_def cli_flags_roundtrip cli_run_def cli_New_def)

section \<open>How lines are parsed\<close>

lemma extractKey_quoted:
  assumes "quote \<notin> set k"
  shows "extractKey (quote # k @ quote # s) = Inr k"
proof -
  have "takeWhile (\<lambda>c. c \<noteq> quote) (k @ quote # s) = k" using assms by (induction k) auto
  then show ?thesis by (simp add: extractKey_def)
qed

lemma parseLine_quoted:
  assumes "quote \<notin> set k"
  shows "parseLine (quote # k @ quote # s) = Inr ([], [])"
proof -
  let ?t = "trim_right is_space s"
  have "TrimSpace (quote # k @ quote # s) = quoted k @ ?t" by (simp add: TrimSpace_quoted quoted_def)
  moreover have "strings_Split (quoted k @ ?t) (quoted k) = [] # strings_Split ?t (quoted k)"
    by (rule Split_front) (simp add: quoted_def)
  moreover have "extractKey (quoted k @ ?t) = Inr k" using extractKey_quoted [OF assms] by (simp add: quoted_def)
  moreover have "starts_with [quote] (quoted k @ ?t)" by (simp add: quoted_def)
  ultimately show ?thesis by (simp add: parseLine_def TrimSpace_def trim_right_def)
qed

lemma TrimSpace_id:
  assumes "s \<noteq> []" and "\<not> is_space (hd s)" and "\<not> is_space (last s)"
  shows "TrimSpace s = s"
proof -
  have "dropWhile is_space s = s" using assms(1,2) by (cases s) simp_all
  moreover have "dropWhile is_space (rev s) = rev s" using assms(1,3) by (cases s rule: rev_cases) simp_all
  ultimately show ?thesis by (simp add: TrimSpace_def trim_right_def)
qed

lemma parseLine_plain:
  assumes "k \<noteq> []" and "hd k \<noteq> quote" and "\<not> is_space (hd k)" and "CHR '' '' \<notin> set k"
    and "v \<noteq> []" and "\<not> is_space (last v)"
  shows "parseLine (k @ '' '' @ v) = Inr (k, v)"
proof -
  have "TrimSpace (k @ '' '' @ v) = k @ '' '' @ v" using assms by (intro TrimSpace_id) (simp_all add: hd_append)
  moreover have "\<not> starts_with [quote] (k @ '' '' @ v)" using assms(1,2) by (cases k) auto
  moreover have "SplitN2 (k @ '' '' @ v) '' '' = [k, v]" using break_on_char [OF assms(4)] by (simp add: SplitN2_def)
  ultimately show ?thesis by (simp add: parseLine_def)
qed

lemma TrimLeft_word:
  assumes "set c \<subseteq> set cutset" and "s \<noteq> []" and "hd s \<notin> set cutset"
  shows "TrimLeft (c @ s) cutset = s"
  using assms by (cases s) (auto simp: TrimLeft_def dropWhile_append)

text \<open>The completion offers \<open>help\<close>, which is no command, and not \<open>exit\<close>, which is one.\<close>

lemma help_invalid:
  "''help'' \<in> set completer \<and> ''exit'' \<notin> set completer \<and>
   cli_command fmt w nt i s ''help'' =
     Done (say s ''[ERROR] Invalid command. Available commands: put, putex, get, delete, destroy and exit.'')"
  by (simp add: completer_def cli_command_def)

section \<open>Properties\<close>



end
