(* ===== verification/Olricd.thy ===== *)
theory Olricd
  imports Routing Go_Strings Go_Flag
begin

text \<open>
  The server process \<open>olricd\<close>: its configuration file (\<open>cmd/olricd/server/config.go\<close>), the settings of the
  member list (\<open>memberlist.go\<close>, \<open>NewMemberlistConfig\<close> in \<open>config.go\<close>), \<open>New\<close> and \<open>Start\<close> of
  \<open>server.go\<close>, and the choice of the file in \<open>main.go\<close>. Decoding TOML, the defaults of the member list
  library and the access check of the operating system are arguments.
\<close>

section \<open>The configuration file\<close>

definition DefaultConfigFile :: string where "DefaultConfigFile = ''olricd.toml''"

record olricd_section =
  o_Name :: string
  o_CertFile :: string
  o_KeyFile :: string
  o_BackupMode :: int
  o_PartitionCount :: "64 word"
  o_BackupCount :: int
  o_LoadFactor :: rat
  o_Serializer :: string
  o_KeepAlivePeriod :: string
  o_MaxValueSize :: int

record snapshot_section =
  s_Enabled :: bool
  s_Interval :: string
  s_Dir :: string
  s_GCInterval :: string
  s_GCDiscardRatio :: rat

record logging_section =
  l_Level :: string
  l_Output :: string

record memberlist_section =
  m_Environment :: string
  m_Addr :: string
  m_EnableCompression :: bool
  m_Peers :: "string list"
  m_IndirectChecks :: int
  m_RetransmitMult :: int
  m_SuspicionMult :: int
  m_TCPTimeout :: string
  m_PushPullInterval :: string
  m_ProbeTimeout :: string
  m_ProbeInterval :: string
  m_GossipInterval :: string
  m_GossipToTheDeadTime :: string

record file_config =
  f_Memberlist :: memberlist_section
  f_Logging :: logging_section
  f_Olricd :: olricd_section
  f_Snapshot :: snapshot_section

text \<open>\<open>env\<close> is the value of \<open>OLRICD_CONFIG\<close>, \<open>decode\<close> reads and decodes a file.\<close>

definition NewConfig :: "string \<Rightarrow> (string \<Rightarrow> gerr + file_config) \<Rightarrow> string \<Rightarrow> gerr + file_config" where
  "NewConfig env decode path =
     (let path = (if path = [] then env else path);
          path = (if path = [] then DefaultConfigFile else path)
      in decode path)"

section \<open>The member list\<close>

text \<open>The settings of the member list library that are changed.\<close>

record memlist_config =
  ml_BindAddr :: string
  ml_BindPort :: int
  ml_EnableCompression :: bool
  ml_TCPTimeout :: "64 word"
  ml_IndirectChecks :: int
  ml_RetransmitMult :: int
  ml_SuspicionMult :: int
  ml_PushPullInterval :: "64 word"
  ml_ProbeTimeout :: "64 word"
  ml_ProbeInterval :: "64 word"
  ml_GossipInterval :: "64 word"
  ml_GossipToTheDeadTime :: "64 word"

record memlist_defaults =
  DefaultLocalConfig :: memlist_config
  DefaultLANConfig :: memlist_config
  DefaultWANConfig :: memlist_config

definition NewMemberlistConfig :: "memlist_defaults \<Rightarrow> string \<Rightarrow> gerr + memlist_config" where
  "NewMemberlistConfig d env =
     (if env = ''local'' then Inr (DefaultLocalConfig d)
      else if env = ''lan'' then Inr (DefaultLANConfig d)
      else if env = ''wan'' then Inr (DefaultWANConfig d)
      else Inl (ErrOther (''unknown env: '' @ env)))"

text \<open>A duration that is only parsed when it is given, a number that is only used when it is not zero, and
  \<open>strconv.Atoi\<close> with its error (the reason, syntax or range, is left out of the text).\<close>

definition opt_duration :: "string \<Rightarrow> 64 word \<Rightarrow> gerr + 64 word" where
  "opt_duration s old = (if s = [] then Inr old else ParseDuration s)"

definition opt_int :: "int \<Rightarrow> int \<Rightarrow> int" where
  "opt_int v old = (if v \<noteq> 0 then v else old)"

definition atoi_err :: "string \<Rightarrow> gerr + int" where
  "atoi_err s =
     (case Atoi s of None \<Rightarrow> Inl (ErrOther (''strconv.Atoi: parsing '' @ s)) | Some n \<Rightarrow> Inr n)"

definition newMemberlistConf :: "memlist_defaults \<Rightarrow> file_config \<Rightarrow> gerr + memlist_config" where
  "newMemberlistConf d c =
     (let m = f_Memberlist c in
      bind_sum (SplitHostPort (m_Addr m)) (\<lambda>(bindAddr, sport).
      bind_sum (atoi_err sport) (\<lambda>bindPort.
      bind_sum (NewMemberlistConfig d (m_Environment m)) (\<lambda>mc.
      bind_sum (opt_duration (m_TCPTimeout m) (ml_TCPTimeout mc)) (\<lambda>tcp.
      bind_sum (opt_duration (m_PushPullInterval m) (ml_PushPullInterval mc)) (\<lambda>ppi.
      bind_sum (opt_duration (m_ProbeTimeout m) (ml_ProbeTimeout mc)) (\<lambda>pt.
      bind_sum (opt_duration (m_ProbeInterval m) (ml_ProbeInterval mc)) (\<lambda>pi.
      bind_sum (opt_duration (m_GossipInterval m) (ml_GossipInterval mc)) (\<lambda>gi.
      bind_sum (opt_duration (m_GossipToTheDeadTime m) (ml_GossipToTheDeadTime mc)) (\<lambda>gd.
        Inr (mc\<lparr>ml_BindAddr := bindAddr, ml_BindPort := bindPort, ml_EnableCompression := m_EnableCompression m,
               ml_TCPTimeout := tcp,
               ml_IndirectChecks := opt_int (m_IndirectChecks m) (ml_IndirectChecks mc),
               ml_RetransmitMult := opt_int (m_RetransmitMult m) (ml_RetransmitMult mc),
               ml_SuspicionMult := opt_int (m_SuspicionMult m) (ml_SuspicionMult mc),
               ml_PushPullInterval := ppi, ml_ProbeTimeout := pt, ml_ProbeInterval := pi,
               ml_GossipInterval := gi, ml_GossipToTheDeadTime := gd\<rparr>)))))))))))"

section \<open>Creating the server\<close>

text \<open>The node's configuration with the fields that only reach libraries.\<close>

record server_config = config +
  x_Memberlist :: memlist_config
  x_KeyFile :: string
  x_CertFile :: string
  x_LogLevel :: string
  x_Peers :: "string list"
  x_KeepAlivePeriod :: "64 word"
  x_GCDiscardRatio :: rat
  x_GCInterval :: "64 word"
  x_SnapshotInterval :: "64 word"
  x_BadgerDir :: "string option"

definition DefaultLogLevel :: string where "DefaultLogLevel = ''DEBUG''"

text \<open>\<open>errors.WithMessage\<close> with the message about a setting.\<close>

definition with_setting :: "string \<Rightarrow> string \<Rightarrow> gerr + 'a \<Rightarrow> gerr + 'a" where
  "with_setting nm v r =
     (case r of
        Inl e \<Rightarrow> Inl (ErrOther (''failed to parse '' @ nm @ '': '' @ [CHR 0x27] @ v @ [CHR 0x27] @ '': '' @ err_text e))
      | Inr x \<Rightarrow> Inr x)"

definition snapshot_settings ::
  "(string \<Rightarrow> gerr option) \<Rightarrow> snapshot_section \<Rightarrow> server_config \<Rightarrow> gerr + server_config" where
  "snapshot_settings access s cfg =
     (if \<not> s_Enabled s then Inr cfg
      else
        bind_sum (with_setting ''snapshot.dir'' (s_Dir s)
                   (case access (s_Dir s) of Some e \<Rightarrow> Inl e | None \<Rightarrow> Inr ())) (\<lambda>_.
        bind_sum (with_setting ''snapshot.gcInterval'' (s_GCInterval s) (opt_duration (s_GCInterval s) (x_GCInterval cfg))) (\<lambda>gc.
        bind_sum (with_setting ''snapshot.interval'' (s_Interval s) (opt_duration (s_Interval s) (x_SnapshotInterval cfg))) (\<lambda>iv.
          Inr (cfg\<lparr>OperationMode := OpInMemoryWithSnapshot, x_GCDiscardRatio := s_GCDiscardRatio s,
                  x_GCInterval := gc, x_SnapshotInterval := iv, x_BadgerDir := Some (s_Dir s)\<rparr>)))))"

definition server_New ::
  "memlist_defaults \<Rightarrow> (string \<Rightarrow> gerr option) \<Rightarrow> file_config \<Rightarrow> gerr + server_config" where
  "server_New d access c =
     (let o1 = f_Olricd c;
          level = (if l_Level (f_Logging c) = [] then DefaultLogLevel else l_Level (f_Logging c))
      in bind_sum (serializer_named (o_Serializer o1)) (\<lambda>sr.
           bind_sum (newMemberlistConf d c) (\<lambda>mc.
           bind_sum (with_setting ''olricd.keepAlivePeriod'' (o_KeepAlivePeriod o1) (opt_duration (o_KeepAlivePeriod o1) 0)) (\<lambda>ka.
             snapshot_settings access (f_Snapshot c)
               \<lparr>cLogOutput = False, cLogger = True, cName = string_bytes (o_Name o1), LoadFactor = o_LoadFactor o1,
                PartitionCount = o_PartitionCount o1, BackupCount = o_BackupCount o1, BackupMode = o_BackupMode o1,
                OperationMode = OpInMemory, cMaxValueSize = o_MaxValueSize o1, cHasher = Some NewDefaultHasher, cSerializer = Some sr,
                x_Memberlist = mc, x_KeyFile = o_KeyFile o1, x_CertFile = o_CertFile o1, x_LogLevel = level,
                x_Peers = m_Peers (f_Memberlist c), x_KeepAlivePeriod = ka,
                x_GCDiscardRatio = 0, x_GCInterval = 0, x_SnapshotInterval = 0, x_BadgerDir = None\<rparr>))))"

section \<open>Running the server\<close>

text \<open>
  \<open>Start\<close> and the goroutine \<open>waitForInterrupt\<close>, which it starts first. \<open>od_db\<close> says whether the field \<open>db\<close> is
  set. A signal in between calls \<open>Shutdown\<close> on a nil pointer.
\<close>

datatype od_pc = Creating | Serving | Returned "gerr option"

record od_state =
  od_pc :: od_pc
  od_db :: bool
  od_waiting :: bool
  od_crashed :: bool

definition od_start :: od_state where
  "od_start = \<lparr>od_pc = Creating, od_db = False, od_waiting = True, od_crashed = False\<rparr>"

inductive od_step :: "od_state \<Rightarrow> od_state \<Rightarrow> bool" where
  od_created: "od_pc s = Creating \<Longrightarrow> \<not> od_crashed s \<Longrightarrow> od_step s (s\<lparr>od_pc := Serving, od_db := True\<rparr>)"
| od_failed: "od_pc s = Creating \<Longrightarrow> \<not> od_crashed s \<Longrightarrow> od_step s (s\<lparr>od_pc := Returned (Some e)\<rparr>)"
| od_stopped: "od_pc s = Serving \<Longrightarrow> \<not> od_crashed s \<Longrightarrow> od_step s (s\<lparr>od_pc := Returned r\<rparr>)"
| od_signal: "od_waiting s \<Longrightarrow> \<not> od_crashed s \<Longrightarrow> (\<And>r. od_pc s \<noteq> Returned r) \<Longrightarrow>
    od_step s (s\<lparr>od_waiting := False, od_crashed := \<not> od_db s\<rparr>)"

section \<open>The command\<close>

text \<open>The variables of \<open>cmd/olricd/main.go\<close> with the defaults of their flags, and the flag set.\<close>

record olricd_vars =
  v_cpath :: string
  v_odHelp :: bool
  v_odVersion :: bool

definition olricd_defaults :: olricd_vars where
  "olricd_defaults = \<lparr>v_cpath = DefaultConfigFile, v_odHelp = False, v_odVersion = False\<rparr>"

definition olricd_flags :: "olricd_vars flag_set" where
  "olricd_flags =
     [(''h'', BoolVar (\<lambda>b. v_odHelp_update (\<lambda>_. b))), (''help'', BoolVar (\<lambda>b. v_odHelp_update (\<lambda>_. b))),
      (''version'', BoolVar (\<lambda>b. v_odVersion_update (\<lambda>_. b))), (''v'', BoolVar (\<lambda>b. v_odVersion_update (\<lambda>_. b))),
      (''config'', StringVar (\<lambda>x. v_cpath_update (\<lambda>_. x))), (''c'', StringVar (\<lambda>x. v_cpath_update (\<lambda>_. x)))]"

text \<open>\<open>main\<close>: the exit code, for the arguments after the program's name; \<open>start\<close> is the error that \<open>Start\<close> returns.\<close>

definition olricd_run ::
  "string \<Rightarrow> (string \<Rightarrow> gerr + file_config) \<Rightarrow> memlist_defaults \<Rightarrow> (string \<Rightarrow> gerr option) \<Rightarrow>
   (server_config \<Rightarrow> gerr option) \<Rightarrow> olricd_vars \<Rightarrow> nat" where
  "olricd_run env decode d access start v =
     (if v_odVersion v then 0
      else if v_odHelp v then 0
      else case bind_sum (NewConfig env decode (v_cpath v)) (server_New d access) of
        Inl e \<Rightarrow> 1
      | Inr s \<Rightarrow> (case start s of Some e \<Rightarrow> 1 | None \<Rightarrow> 0))"

definition olricd_main ::
  "string \<Rightarrow> (string \<Rightarrow> gerr + file_config) \<Rightarrow> memlist_defaults \<Rightarrow> (string \<Rightarrow> gerr option) \<Rightarrow>
   (server_config \<Rightarrow> gerr option) \<Rightarrow> string list \<Rightarrow> nat" where
  "olricd_main env decode d access start args =
     (case flag_Parse olricd_flags olricd_defaults args of
        Inl e \<Rightarrow> 1
      | Inr (v, _) \<Rightarrow> olricd_run env decode d access start v)"

section \<open>Facts\<close>

lemma snapshot_settings_config:
  assumes "snapshot_settings access s cfg = Inr cfg'"
  shows "cLogOutput cfg' = cLogOutput cfg" "cName cfg' = cName cfg" "PartitionCount cfg' = PartitionCount cfg"
    "cMaxValueSize cfg' = cMaxValueSize cfg" "BackupCount cfg' = BackupCount cfg"
    "OperationMode cfg' = (if s_Enabled s then OpInMemoryWithSnapshot else OperationMode cfg)"
  using assms by (auto simp: snapshot_settings_def bind_sum_def split: if_splits sum.splits)

text \<open>The server's configuration is one that \<open>olric.New\<close> accepts, with the defaults filled in.\<close>

lemma olricd_node:
  assumes "server_New d access c = Inr cfg" and "o_Name (f_Olricd c) \<noteq> []"
  shows "\<exists>n. olric_New hostname (Inr snap) (Some (config.truncate cfg)) = Inr n \<and>
    cName (n_cfg n) = string_bytes (o_Name (f_Olricd c)) \<and> PartitionCount (n_cfg n) \<noteq> 0 \<and> n_max n \<noteq> 0 \<and>
    (OperationMode (n_cfg n) = OpInMemoryWithSnapshot \<longleftrightarrow> s_Enabled (f_Snapshot c))"
proof -
  from assms(1) obtain cfg0 where cfg0: "snapshot_settings access (f_Snapshot c) cfg0 = Inr cfg"
    "cLogOutput cfg0 = False" "cName cfg0 = string_bytes (o_Name (f_Olricd c))" "OperationMode cfg0 = OpInMemory"
    by (auto simp: server_New_def bind_sum_def Let_def split: if_splits sum.splits)
  have "string_bytes (o_Name (f_Olricd c)) \<noteq> []" using assms(2) by (simp add: string_bytes_def)
  then show ?thesis
    using snapshot_settings_config [OF cfg0(1)] cfg0(2-4)
    by (cases "s_Enabled (f_Snapshot c)")
      (auto simp: olric_New_def Let_def config.defs DefaultPartitionCount_def DefaultMaxValueSize_def)
qed

text \<open>A signal that arrives while the node is being created brings the process down.\<close>

lemma od_early_signal: "\<exists>s. od_step od_start s \<and> od_crashed s"
  using od_signal [of od_start] by (fastforce simp: od_start_def)

lemma od_crash_only_early:
  assumes "od_step\<^sup>*\<^sup>* od_start s"
  shows "(od_pc s = Serving \<longrightarrow> od_db s) \<and> (od_crashed s \<longrightarrow> \<not> od_db s)"
  using assms
proof (induction rule: rtranclp_induct)
  case base
  show ?case by (simp add: od_start_def)
next
  case (step s t)
  from step.hyps(2) step.IH show ?case by cases auto
qed

text \<open>The configuration file on the command line is the one that is read.\<close>

lemma olricd_config_flag:
  assumes "f = ''c'' \<or> f = ''config''"
  shows "flag_Parse olricd_flags v [''-'' @ f, path] = Inr (v\<lparr>v_cpath := path\<rparr>, [])"
proof -
  have f: "flag_name f" "map_of olricd_flags f = Some (StringVar (\<lambda>x. v_cpath_update (\<lambda>_. x)))"
    using assms by (auto simp: flag_name_def olricd_flags_def)
  show ?thesis unfolding flag_Parse_string(2) [OF f] by simp
qed

text \<open>The environment variable only has an effect when the path is explicitly empty.\<close>

lemma olricd_main_ignores_env:
  assumes "\<And>v rest. flag_Parse olricd_flags olricd_defaults args = Inr (v, rest) \<Longrightarrow> v_cpath v \<noteq> []"
  shows "olricd_main env decode d access start args = olricd_main env' decode d access start args"
  using assms by (auto simp: olricd_main_def olricd_run_def NewConfig_def split: sum.split)

lemma olricd_default_ignores_env:
  "olricd_main env decode d access start [] = olricd_main env' decode d access start []"
  by (rule olricd_main_ignores_env) (simp add: olricd_defaults_def DefaultConfigFile_def)

end
