(* ===== verification/Server_Life.thy ===== *)
theory Server_Life
  imports Protocol
begin

text \<open>
  \<open>internal/transport/server.go\<close>, the life of the server and its connections: creating, accepting,
  the goroutine that watches a connection for the shutdown, and \<open>Shutdown\<close>. What a connection's loop does
  with a request is \<open>handleConn\<close> in the theory \<open>Cluster\<close>; here only its phases matter, because the
  goroutines interleave: the loop reads a request, marks the connection busy, serves and
  marks it idle again, while the watcher waits for the shutdown, looks at the mark and closes the connection.
\<close>

section \<open>State\<close>

datatype loop_pc = Reading | GotRequest | ServingRequest | LoopEnded
datatype watch_pc = Watching | Checking | Closing | WatchEnded

record sconn =
  sc_loop :: loop_pc
  sc_watch :: watch_pc
  sc_busy :: bool
  sc_open :: bool

datatype shutdown_pc = NotCalled | Cancelled | WaitingForConns | ShutDown "gerr option"

record server =
  v_started :: bool
  v_cancelled :: bool
  v_listening :: bool
  v_handling :: bool
  v_conns :: "sconn list"
  v_shutdown :: shutdown_pc

definition NewServer :: server where
  "NewServer = \<lparr>v_started = False, v_cancelled = False, v_listening = False, v_handling = False, v_conns = [],
     v_shutdown = NotCalled\<rparr>"

text \<open>\<open>ListenAndServe\<close> up to the loop; the deferred function closes \<open>StartCh\<close> also after an error.\<close>

definition ListenAndServe :: "gerr option \<Rightarrow> server \<Rightarrow> server \<times> gerr option" where
  "ListenAndServe listen s =
     (case listen of
        Some e \<Rightarrow> (s\<lparr>v_started := True\<rparr>, Some e)
      | None \<Rightarrow> (s\<lparr>v_started := True, v_listening := True, v_handling := True\<rparr>, None))"

text \<open>
  With TLS the listener is the one of the \<open>tls\<close> package, and the assertion in \<open>waitForConnections\<close> that it is a
  \<open>*net.TCPListener\<close> panics.
\<close>

definition ListenAndServeTLS :: "gerr option \<Rightarrow> gerr option \<Rightarrow> server \<Rightarrow> (server \<times> gerr option) outcome" where
  "ListenAndServeTLS load_cert listen s =
     (case load_cert of
        Some e \<Rightarrow> Ret (s\<lparr>v_started := True\<rparr>, Some e)
      | None \<Rightarrow> (case listen of Some e \<Rightarrow> Ret (s\<lparr>v_started := True\<rparr>, Some e) | None \<Rightarrow> Panic))"

definition new_conn :: sconn where
  "new_conn = \<lparr>sc_loop = Reading, sc_watch = Watching, sc_busy = False, sc_open = True\<rparr>"

text \<open>The wait group: the goroutine that hands out connections, and two per connection.\<close>

definition conn_ended :: "sconn \<Rightarrow> bool" where
  "conn_ended c \<longleftrightarrow> sc_loop c = LoopEnded \<and> sc_watch c = WatchEnded"

definition wg_done :: "server \<Rightarrow> bool" where
  "wg_done s \<longleftrightarrow> \<not> v_handling s \<and> list_all conn_ended (v_conns s)"

section \<open>Steps\<close>

text \<open>One step of the loop or of the watcher of a connection; \<open>cancelled\<close> says whether the shutdown has begun.\<close>

inductive conn_step :: "bool \<Rightarrow> sconn \<Rightarrow> sconn \<Rightarrow> bool" for cancelled :: bool where
  read_request: "sc_loop c = Reading \<Longrightarrow> sc_open c \<Longrightarrow> conn_step cancelled c (c\<lparr>sc_loop := GotRequest\<rparr>)"
| mark_busy: "sc_loop c = GotRequest \<Longrightarrow> conn_step cancelled c (c\<lparr>sc_loop := ServingRequest, sc_busy := True\<rparr>)"
| answered: "sc_loop c = ServingRequest \<Longrightarrow> sc_open c \<Longrightarrow>
    conn_step cancelled c (c\<lparr>sc_loop := Reading, sc_busy := False\<rparr>)"
| write_failed: "sc_loop c = ServingRequest \<Longrightarrow> \<not> sc_open c \<Longrightarrow>
    conn_step cancelled c (c\<lparr>sc_loop := LoopEnded, sc_busy := False\<rparr>)"
| read_failed: "sc_loop c = Reading \<Longrightarrow> conn_step cancelled c (c\<lparr>sc_loop := LoopEnded\<rparr>)"
| wake: "sc_watch c = Watching \<Longrightarrow> cancelled \<or> sc_loop c = LoopEnded \<Longrightarrow>
    conn_step cancelled c (c\<lparr>sc_watch := Checking\<rparr>)"
| check_idle: "sc_watch c = Checking \<Longrightarrow> \<not> sc_busy c \<Longrightarrow> conn_step cancelled c (c\<lparr>sc_watch := Closing\<rparr>)"
| close_conn: "sc_watch c = Closing \<Longrightarrow> conn_step cancelled c (c\<lparr>sc_watch := WatchEnded, sc_open := False\<rparr>)"

inductive server_step :: "server \<Rightarrow> server \<Rightarrow> bool" where
  accept: "v_handling s \<Longrightarrow> v_listening s \<Longrightarrow> server_step s (s\<lparr>v_conns := v_conns s @ [new_conn]\<rparr>)"
| stop_handling: "v_handling s \<Longrightarrow> v_cancelled s \<Longrightarrow> server_step s (s\<lparr>v_handling := False\<rparr>)"
| conn_steps: "i < length (v_conns s) \<Longrightarrow> conn_step (v_cancelled s) (v_conns s ! i) c \<Longrightarrow>
    server_step s (s\<lparr>v_conns := (v_conns s)[i := c]\<rparr>)"
| call_shutdown: "\<not> v_cancelled s \<Longrightarrow> server_step s (s\<lparr>v_cancelled := True, v_shutdown := Cancelled\<rparr>)"
| close_listener: "v_shutdown s = Cancelled \<Longrightarrow>
    server_step s (s\<lparr>v_listening := False, v_shutdown := WaitingForConns\<rparr>)"
| shutdown_returns: "v_shutdown s = WaitingForConns \<Longrightarrow> wg_done s \<Longrightarrow>
    server_step s (s\<lparr>v_shutdown := ShutDown None\<rparr>)"
| shutdown_expires: "v_shutdown s = WaitingForConns \<Longrightarrow> server_step s (s\<lparr>v_shutdown := ShutDown (Some e)\<rparr>)"

inductive_cases conn_stepE: "conn_step b c d"

definition server_reach :: "server \<Rightarrow> bool" where
  "server_reach s \<longleftrightarrow> server_step\<^sup>*\<^sup>* (fst (ListenAndServe None NewServer)) s"

section \<open>Invariants\<close>

text \<open>The mark says whether a request is being served, and an ended loop serves none.\<close>

definition conn_ok :: "sconn \<Rightarrow> bool" where
  "conn_ok c \<longleftrightarrow> (sc_busy c \<longleftrightarrow> sc_loop c = ServingRequest) \<and> (sc_open c \<longleftrightarrow> sc_watch c \<noteq> WatchEnded)"

definition server_ok :: "server \<Rightarrow> bool" where
  "server_ok s \<longleftrightarrow>
     list_all conn_ok (v_conns s) \<and> (v_shutdown s \<noteq> NotCalled \<longrightarrow> v_cancelled s) \<and>
     (v_shutdown s = ShutDown None \<longrightarrow> wg_done s)"

lemma conn_step_ok: "conn_step b c d \<Longrightarrow> conn_ok c \<Longrightarrow> conn_ok d"
  by (erule conn_stepE) (auto simp: conn_ok_def)

lemma conn_ended_stays: "conn_step b c d \<Longrightarrow> conn_ended c \<Longrightarrow> conn_ended d"
  by (erule conn_stepE) (auto simp: conn_ended_def)

lemma list_all_update:
  "list_all P xs \<Longrightarrow> i < length xs \<Longrightarrow> (P (xs ! i) \<Longrightarrow> P y) \<Longrightarrow> list_all P (xs[i := y])"
  by (auto simp: list_all_length nth_list_update)

lemma server_step_ok: "server_step s t \<Longrightarrow> server_ok s \<Longrightarrow> server_ok t"
proof (induction rule: server_step.induct)
  case (conn_steps i s c)
  have "list_all conn_ok ((v_conns s)[i := c])"
    using conn_steps by (intro list_all_update) (auto simp: server_ok_def dest: conn_step_ok)
  moreover have "wg_done (s\<lparr>v_conns := (v_conns s)[i := c]\<rparr>)" if "wg_done s"
    using that conn_steps.hyps unfolding wg_done_def by (auto intro: list_all_update dest: conn_ended_stays)
  ultimately show ?case using conn_steps.prems by (auto simp: server_ok_def)
qed (auto simp: server_ok_def new_conn_def conn_ok_def wg_done_def)

lemma server_reach_ok:
  assumes "server_reach s"
  shows "server_ok s"
  using assms unfolding server_reach_def
proof (induction rule: rtranclp_induct)
  case base
  show ?case by (simp add: ListenAndServe_def NewServer_def server_ok_def)
qed (rule server_step_ok)

section \<open>Every connection can be brought to its end\<close>

lemma step_first: "r c c' \<Longrightarrow> \<exists>d. r\<^sup>*\<^sup>* c' d \<and> P d \<Longrightarrow> \<exists>d. r\<^sup>*\<^sup>* c d \<and> P d"
  by (meson converse_rtranclp_into_rtranclp)

lemma loop_finishes:
  assumes "conn_ok c"
  shows "\<exists>d. (conn_step b)\<^sup>*\<^sup>* c d \<and> sc_loop d = LoopEnded \<and> conn_ok d"
proof -
  let ?P = "\<lambda>d. sc_loop d = LoopEnded \<and> conn_ok d"
  have ended: "\<exists>d. (conn_step b)\<^sup>*\<^sup>* c d \<and> ?P d" if "sc_loop c = LoopEnded" "conn_ok c" for c using that by blast
  have read: "\<exists>d. (conn_step b)\<^sup>*\<^sup>* c d \<and> ?P d" if "sc_loop c = Reading" "conn_ok c" for c
    using that by (intro step_first [OF read_failed ended]) (auto simp: conn_ok_def)
  have serve: "\<exists>d. (conn_step b)\<^sup>*\<^sup>* c d \<and> ?P d" if c: "sc_loop c = ServingRequest" "conn_ok c" for c
  proof (cases "sc_open c")
    case True
    then show ?thesis using c by (intro step_first [OF answered read]) (auto simp: conn_ok_def)
  next
    case False
    then show ?thesis using c by (intro step_first [OF write_failed ended]) (auto simp: conn_ok_def)
  qed
  show ?thesis
  proof (cases "sc_loop c")
    case GotRequest
    then show ?thesis using assms by (intro step_first [OF mark_busy serve]) (auto simp: conn_ok_def)
  qed (use assms read serve ended in auto)
qed

lemma watch_finishes:
  assumes "sc_loop c = LoopEnded" and "conn_ok c"
  shows "\<exists>d. (conn_step b)\<^sup>*\<^sup>* c d \<and> conn_ended d"
proof -
  have ended: "\<exists>d. (conn_step b)\<^sup>*\<^sup>* c d \<and> conn_ended d" if "conn_ended c" for c using that by blast
  have close: "\<exists>d. (conn_step b)\<^sup>*\<^sup>* c d \<and> conn_ended d" if "sc_loop c = LoopEnded" "sc_watch c = Closing" for c
    using that by (intro step_first [OF close_conn ended]) (auto simp: conn_ended_def)
  have check: "\<exists>d. (conn_step b)\<^sup>*\<^sup>* c d \<and> conn_ended d" if "sc_loop c = LoopEnded" "sc_watch c = Checking" "conn_ok c" for c
    using that by (intro step_first [OF check_idle close]) (auto simp: conn_ok_def)
  show ?thesis
  proof (cases "sc_watch c")
    case Watching
    then show ?thesis using assms by (intro step_first [OF wake check]) (auto simp: conn_ok_def)
  qed (use assms close check ended in \<open>auto simp: conn_ended_def\<close>)
qed

lemma conn_finishes: "conn_ok c \<Longrightarrow> \<exists>d. (conn_step b)\<^sup>*\<^sup>* c d \<and> conn_ended d"
  using loop_finishes watch_finishes by (meson rtranclp_trans)

lemma lift_conn_steps:
  assumes "(conn_step (v_cancelled s))\<^sup>*\<^sup>* (v_conns s ! i) d" and "i < length (v_conns s)"
  shows "server_step\<^sup>*\<^sup>* s (s\<lparr>v_conns := (v_conns s)[i := d]\<rparr>)"
  using assms(1)
proof (induction rule: rtranclp_induct)
  case base
  show ?case by simp
next
  case (step c d)
  have "server_step (s\<lparr>v_conns := (v_conns s)[i := c]\<rparr>) (s\<lparr>v_conns := (v_conns s)[i := d]\<rparr>)"
    using conn_steps [of i "s\<lparr>v_conns := (v_conns s)[i := c]\<rparr>" d] step.hyps(2) assms(2) by simp
  with step.IH show ?case by simp
qed

lemma conns_finish:
  assumes "list_all conn_ok (v_conns s)" and "k \<le> length (v_conns s)"
  shows "\<exists>cs. server_step\<^sup>*\<^sup>* s (s\<lparr>v_conns := cs\<rparr>) \<and> length cs = length (v_conns s) \<and>
    (\<forall>i < k. conn_ended (cs ! i)) \<and> (\<forall>i. k \<le> i \<longrightarrow> i < length cs \<longrightarrow> cs ! i = v_conns s ! i)"
  using assms(2)
proof (induction k)
  case 0
  show ?case by (intro exI [of _ "v_conns s"]) simp
next
  case (Suc k)
  then obtain cs where cs: "server_step\<^sup>*\<^sup>* s (s\<lparr>v_conns := cs\<rparr>)" "length cs = length (v_conns s)"
    "\<forall>i < k. conn_ended (cs ! i)" "\<forall>i. k \<le> i \<longrightarrow> i < length cs \<longrightarrow> cs ! i = v_conns s ! i" by auto
  have "conn_ok (cs ! k)" using cs(2,4) Suc.prems assms(1) by (auto simp: list_all_length)
  then obtain d where d: "(conn_step (v_cancelled s))\<^sup>*\<^sup>* (cs ! k) d" "conn_ended d" using conn_finishes by blast
  with lift_conn_steps [of "s\<lparr>v_conns := cs\<rparr>" k d] cs(2) Suc.prems
  have "server_step\<^sup>*\<^sup>* (s\<lparr>v_conns := cs\<rparr>) (s\<lparr>v_conns := cs[k := d]\<rparr>)" by simp
  with cs d(2) Suc.prems show ?case by (intro exI [of _ "cs[k := d]"]) (auto simp: less_Suc_eq)
qed

section \<open>A connection that is closed while it serves\<close>

text \<open>
  The watcher looks at the mark and closes the connection in two steps. A request that is read in
  between is interrupted.
\<close>

lemma interrupted_conn:
  "(conn_step True)\<^sup>*\<^sup>* new_conn \<lparr>sc_loop = ServingRequest, sc_watch = WatchEnded, sc_busy = True, sc_open = False\<rparr>"
proof -
  have "conn_step True new_conn (new_conn\<lparr>sc_watch := Checking\<rparr>)"
    by (rule wake) (simp_all add: new_conn_def)
  moreover have "conn_step True \<dots> (new_conn\<lparr>sc_watch := Closing\<rparr>)"
    using check_idle [of "new_conn\<lparr>sc_watch := Checking\<rparr>" True] by (simp add: new_conn_def)
  moreover have "conn_step True \<dots> (new_conn\<lparr>sc_watch := Closing, sc_loop := GotRequest\<rparr>)"
    using read_request [of "new_conn\<lparr>sc_watch := Closing\<rparr>" True] by (simp add: new_conn_def)
  moreover have "conn_step True \<dots> (new_conn\<lparr>sc_watch := Closing, sc_loop := ServingRequest, sc_busy := True\<rparr>)"
    using mark_busy [of "new_conn\<lparr>sc_watch := Closing, sc_loop := GotRequest\<rparr>" True] by (simp add: new_conn_def)
  moreover have "conn_step True \<dots> \<lparr>sc_loop = ServingRequest, sc_watch = WatchEnded, sc_busy = True, sc_open = False\<rparr>"
    using close_conn [of "new_conn\<lparr>sc_watch := Closing, sc_loop := ServingRequest, sc_busy := True\<rparr>" True]
    by (simp add: new_conn_def)
  ultimately show ?thesis by (meson converse_rtranclp_into_rtranclp rtranclp.rtrancl_refl)
qed

lemma shutdown_waiting_reached:
  "server_reach \<lparr>v_started = True, v_cancelled = True, v_listening = False, v_handling = True, v_conns = [new_conn],
     v_shutdown = WaitingForConns\<rparr>"
proof -
  let ?s0 = "\<lparr>v_started = True, v_cancelled = False, v_listening = True, v_handling = True, v_conns = [], v_shutdown = NotCalled\<rparr>"
  let ?s1 = "?s0\<lparr>v_conns := [new_conn]\<rparr>"
  have "server_step ?s0 ?s1" using accept [of ?s0] by simp
  moreover have "server_step ?s1 (?s1\<lparr>v_cancelled := True, v_shutdown := Cancelled\<rparr>)" by (rule call_shutdown) simp
  moreover have "server_step (?s1\<lparr>v_cancelled := True, v_shutdown := Cancelled\<rparr>)
      \<lparr>v_started = True, v_cancelled = True, v_listening = False, v_handling = True, v_conns = [new_conn],
       v_shutdown = WaitingForConns\<rparr>"
    using close_listener [of "?s1\<lparr>v_cancelled := True, v_shutdown := Cancelled\<rparr>"] by simp
  ultimately show ?thesis
    unfolding server_reach_def ListenAndServe_def NewServer_def
    by simp
qed

lemma shutdown_interrupts:
  "\<exists>s c. server_reach s \<and> c \<in> set (v_conns s) \<and> sc_loop c = ServingRequest \<and> \<not> sc_open c"
proof -
  let ?s = "\<lparr>v_started = True, v_cancelled = True, v_listening = False, v_handling = True, v_conns = [new_conn],
     v_shutdown = WaitingForConns\<rparr>"
  let ?c = "\<lparr>sc_loop = ServingRequest, sc_watch = WatchEnded, sc_busy = True, sc_open = False\<rparr>"
  have "server_step\<^sup>*\<^sup>* ?s (?s\<lparr>v_conns := [?c]\<rparr>)" using lift_conn_steps [of ?s 0 ?c] interrupted_conn by simp
  with shutdown_waiting_reached have "server_reach (?s\<lparr>v_conns := [?c]\<rparr>)" unfolding server_reach_def by simp
  then show ?thesis by (intro exI [of _ "?s\<lparr>v_conns := [?c]\<rparr>"] exI [of _ ?c]) simp
qed

section \<open>Properties\<close>



end
