(* ===== verification/Snapshot_Life.thy ===== *)
theory Snapshot_Life
  imports Snapshot
begin

text \<open>
  \<open>internal/snapshot/snapshot.go\<close>, the life of the snapshot engine: its settings, the garbage collection of the
  database, and the worker of a partition with its sync rounds until the shutdown.
\<close>

section \<open>Creating the engine\<close>

definition defaultSnapshotInterval :: int where "defaultSnapshotInterval = 100000000"
definition defaultGCInterval :: int where "defaultGCInterval = 300000000000"
definition defaultGCDiscardRatio :: rat where "defaultGCDiscardRatio = 7 / 10"

record snap_settings =
  g_Dir :: bytes
  g_ValueDir :: bytes
  g_Interval :: int
  g_GCInterval :: int
  g_GCDiscardRatio :: rat

text \<open>
  \<open>New\<close> with the directory of the options (\<open>None\<close> for nil options, whose default has no directory). \<open>getwd\<close>
  and \<open>open_db\<close> are the working directory and the error of opening the database.
\<close>

definition snapshot_New ::
  "gerr + bytes \<Rightarrow> (bytes \<Rightarrow> gerr + badger) \<Rightarrow> bytes option \<Rightarrow> int \<Rightarrow> int \<Rightarrow> rat \<Rightarrow> gerr + snap_settings \<times> snapshot" where
  "snapshot_New getwd open_db dir interval gcInterval ratio =
     bind_sum (case dir of Some (c # d) \<Rightarrow> Inr (c # d) | _ \<Rightarrow> getwd) (\<lambda>dir.
     bind_sum (open_db dir) (\<lambda>db.
       Inr (\<lparr>g_Dir = dir, g_ValueDir = dir,
             g_Interval = (if interval = 0 then defaultSnapshotInterval else interval),
             g_GCInterval = (if gcInterval = 0 then defaultGCInterval else gcInterval),
             g_GCDiscardRatio = (if ratio = 0 then defaultGCDiscardRatio else ratio)\<rparr>,
            empty_snapshot\<lparr>sn_db := db\<rparr>)))"

section \<open>Garbage collection\<close>

text \<open>The \<open>goto again\<close> of one round: how often the collection runs until it reports an error.\<close>

partial_function (option) gc_again :: "(nat \<Rightarrow> gerr option) \<Rightarrow> nat \<Rightarrow> nat option" where
  "gc_again run n = (case run n of None \<Rightarrow> gc_again run (Suc n) | Some e \<Rightarrow> Some (Suc n))"

lemma gc_again_returns:
  assumes "run m = Some e" and "n \<le> m"
  shows "\<exists>k. gc_again run n = Some k"
  using assms(2)
proof (induction "m - n" arbitrary: n)
  case 0
  with assms(1) show ?case by (subst gc_again.simps) simp
next
  case (Suc d)
  then have "\<exists>k. gc_again run (Suc n) = Some k" by simp
  then show ?case by (subst gc_again.simps) (auto split: option.split)
qed

text \<open>\<open>garbageCollection\<close> until the shutdown: how often each of the rounds runs the collection. \<open>run i\<close> is the collection
  in the round before which there are \<open>i\<close> more to come.\<close>

primrec garbageCollection :: "(nat \<Rightarrow> nat \<Rightarrow> gerr option) \<Rightarrow> nat \<Rightarrow> nat list option" where
  "garbageCollection run 0 = Some []"
| "garbageCollection run (Suc i) =
     Option.bind (gc_again (run i) 0) (\<lambda>k. map_option (\<lambda>ks. k # ks) (garbageCollection run i))"

lemma garbageCollection_returns:
  assumes "\<forall>i < rounds. \<exists>m e. run i m = Some e"
  shows "\<exists>ks. garbageCollection run rounds = Some ks \<and> length ks = rounds"
  using assms
proof (induction rounds)
  case (Suc i)
  then obtain m e where "run i m = Some e" by blast
  then have "\<exists>k. gc_again (run i) 0 = Some k" by (rule gc_again_returns) simp
  with Suc show ?case by auto
qed simp

section \<open>The worker of a partition\<close>

text \<open>One round over the DMaps of the partition, in the order in which the map yields their names.\<close>

fun sync_part ::
  "badger_env \<Rightarrow> (oplog \<Rightarrow> (hkey \<times> byte) list) \<Rightarrow> part_id \<Rightarrow> bytes list \<Rightarrow> (bytes \<Rightarrow> oplog) \<Rightarrow> (bytes \<Rightarrow> storage) \<Rightarrow>
   badger \<Rightarrow> ((bytes \<Rightarrow> oplog) \<times> badger) outcome" where
  "sync_part env iter partID [] ls strs b = Ret (ls, b)"
| "sync_part env iter partID (name # names) ls strs b =
     bind_outcome (worker_sync env iter partID name (ls name) (strs name) b) (\<lambda>(log, b).
       sync_part env iter partID names (ls(name := log)) strs b)"

text \<open>
  What wakes the worker up, and its loop: the logs, the database and whether the worker still
  runs. The last round of a shutdown syncs; a worker whose partition is empty just stops.
\<close>

datatype wakeup = Tick | PartitionEmpty | ShuttingDown

fun worker ::
  "badger_env \<Rightarrow> (oplog \<Rightarrow> (hkey \<times> byte) list) \<Rightarrow> part_id \<Rightarrow> bytes list \<Rightarrow> (bytes \<Rightarrow> oplog) \<Rightarrow> (bytes \<Rightarrow> storage) \<Rightarrow>
   badger \<Rightarrow> wakeup list \<Rightarrow> ((bytes \<Rightarrow> oplog) \<times> badger \<times> bool) outcome" where
  "worker env iter partID names ls strs b [] = Ret (ls, b, True)"
| "worker env iter partID names ls strs b (Tick # ws) =
     bind_outcome (sync_part env iter partID names ls strs b) (\<lambda>(ls, b). worker env iter partID names ls strs b ws)"
| "worker env iter partID names ls strs b (PartitionEmpty # ws) = Ret (ls, b, False)"
| "worker env iter partID names ls strs b (ShuttingDown # ws) =
     map_ret (\<lambda>(ls, b). (ls, b, False)) (sync_part env iter partID names ls strs b)"

text \<open>After the shutdown, with the database intact, the log is empty and the database covers the DMap.\<close>

lemma worker_shutdown:
  assumes "env_ok env" and "log_iter_ok iter" and "snap_inv env p n (ls n) (strs n) b"
  shows "\<exists>ls' b'. worker env iter p [n] ls strs b (replicate k Tick @ [ShuttingDown]) = Ret (ls', b', False) \<and>
    ls' n = fmempty \<and> snap_inv env p n fmempty (strs n) b'"
  using assms(3)
proof (induction k arbitrary: ls b)
  case 0
  from worker_sync_covers [OF assms(1,2) 0] show ?case by auto
next
  case (Suc k)
  from worker_sync_covers [OF assms(1,2) Suc.prems] obtain b' where
    b': "worker_sync env iter p n (ls n) (strs n) b = Ret (fmempty, b')" "snap_inv env p n fmempty (strs n) b'" by blast
  have "\<exists>ls' b''. worker env iter p [n] (ls(n := fmempty)) strs b' (replicate k Tick @ [ShuttingDown]) = Ret (ls', b'', False) \<and>
      ls' n = fmempty \<and> snap_inv env p n fmempty (strs n) b''"
    using b'(2) by (intro Suc.IH) simp
  with b'(1) show ?case by (simp del: fun_upd_apply)
qed

text \<open>\<open>Shutdown\<close>, where \<open>down\<close> says whether it was called before; the second call does not close again.\<close>

definition snapshot_Shutdown :: "gerr option \<Rightarrow> bool \<Rightarrow> bool \<times> gerr option" where
  "snapshot_Shutdown close_db down = (if down then (True, None) else (True, close_db))"

end
