(* ===== verification/Consistent_Facts.thy ===== *)
theory Consistent_Facts
  imports Consistent "HOL-Library.List_Lexorder"
begin

text \<open>
  The hash ring: the invariant that its operations keep as long as no two slots have the same hash, the
  distribution of the partitions with bounded loads, and the members that are next to the owner of a partition.
\<close>

section \<open>The invariant\<close>

definition no_collisions :: "(bytes \<Rightarrow> 64 word) \<Rightarrow> nat \<Rightarrow> bytes set \<Rightarrow> bool" where
  "no_collisions hash rf N \<longleftrightarrow> inj_on (\<lambda>(nm, i). slot_hash hash nm i) (N \<times> {..<rf})"

definition member_of :: "consistent \<Rightarrow> host \<Rightarrow> bool" where
  "member_of c m \<longleftrightarrow> fmlookup (cs_members c) (hName m) = Some m"

definition ring_inv :: "(bytes \<Rightarrow> 64 word) \<Rightarrow> consistent \<Rightarrow> bool" where
  "ring_inv hash c \<longleftrightarrow>
     (\<forall>nm m. fmlookup (cs_members c) nm = Some m \<longrightarrow> hName m = nm) \<and>
     no_collisions hash (cs_ReplicationFactor c) (fmdom' (cs_members c)) \<and>
     (\<forall>h m. fmlookup (cs_ring c) h = Some m \<longleftrightarrow> member_of c m \<and> h \<in> set (slots hash c (hName m))) \<and>
     sorted (cs_sortedSet c) \<and> distinct (cs_sortedSet c) \<and> set (cs_sortedSet c) = fmdom' (cs_ring c)"

lemma ring_invD:
  assumes "ring_inv hash c"
  shows "fmlookup (cs_members c) nm = Some m \<Longrightarrow> hName m = nm"
    and "no_collisions hash (cs_ReplicationFactor c) (fmdom' (cs_members c))"
    and "fmlookup (cs_ring c) h = Some m \<longleftrightarrow> member_of c m \<and> h \<in> set (slots hash c (hName m))"
    and "sorted (cs_sortedSet c)" "distinct (cs_sortedSet c)" "set (cs_sortedSet c) = fmdom' (cs_ring c)"
  using assms unfolding ring_inv_def by blast+

lemma consistent_New_inv: "ring_inv hash (consistent_New pc rf ld)"
  by (simp add: ring_inv_def consistent_New_def no_collisions_def member_of_def)

lemma no_collisionsD:
  assumes "no_collisions hash rf N" and "nm \<in> N" "nm' \<in> N" and "i < rf" "j < rf"
    and "slot_hash hash nm i = slot_hash hash nm' j"
  shows "nm = nm' \<and> i = j"
  using inj_onD [OF assms(1) [unfolded no_collisions_def], of "(nm, i)" "(nm', j)"] assms(2-6) by simp

lemma set_slots: "set (slots hash c nm) = slot_hash hash nm ` {..<cs_ReplicationFactor c}"
  by (simp add: slots_def lessThan_atLeast0)

lemma slots_disjoint:
  assumes "no_collisions hash (cs_ReplicationFactor c) N" and "nm \<in> N" "nm' \<in> N"
    and "h \<in> set (slots hash c nm)" "h \<in> set (slots hash c nm')"
  shows "nm = nm'"
  using no_collisionsD [OF assms(1-3)] assms(4,5) by (auto simp: set_slots)

lemma slots_distinct:
  assumes "no_collisions hash (cs_ReplicationFactor c) N" and "nm \<in> N"
  shows "distinct (slots hash c nm)"
  using no_collisionsD [OF assms(1) assms(2) assms(2)]
  by (auto simp: slots_def distinct_map inj_on_def)

lemma no_collisions_mono: "no_collisions hash rf N \<Longrightarrow> N' \<subseteq> N \<Longrightarrow> no_collisions hash rf N'"
  unfolding no_collisions_def by (erule inj_on_subset) blast

lemma fold_fmupd: "fmlookup (fold (\<lambda>h r. fmupd h m r) hs r) h = (if h \<in> set hs then Some m else fmlookup r h)"
  by (induction hs arbitrary: r) auto

lemma fold_fmdrop: "fmlookup (fold fmdrop hs r) h = (if h \<in> set hs then None else fmlookup r h)"
  by (induction hs arbitrary: r) auto

lemma consistent_add_inv:
  assumes inv: "ring_inv hash c" and new: "fmlookup (cs_members c) (hName m) = None"
    and free: "no_collisions hash (cs_ReplicationFactor c) (insert (hName m) (fmdom' (cs_members c)))"
  shows "ring_inv hash (consistent_add hash c m)"
proof -
  let ?c = "consistent_add hash c m" and ?hs = "slots hash c (hName m)"
  have sl: "slots hash ?c nm = slots hash c nm" for nm by (simp add: slots_def consistent_add_def Let_def)
  have ring: "fmlookup (cs_ring ?c) h = (if h \<in> set ?hs then Some m else fmlookup (cs_ring c) h)" for h
    by (simp add: consistent_add_def Let_def host_String_def fold_fmupd)
  have old: "hName x \<noteq> hName m" "h \<notin> set ?hs" if "fmlookup (cs_ring c) h = Some x" for h x
  proof -
    have x: "fmlookup (cs_members c) (hName x) = Some x" "h \<in> set (slots hash c (hName x))"
      using that ring_invD(3) [OF inv] by (simp_all add: member_of_def)
    then show "hName x \<noteq> hName m" using new by auto
    moreover have "hName x \<in> fmdom' (cs_members c)" using x(1) by (simp add: fmdom'_lookup)
    ultimately show "h \<notin> set ?hs" using slots_disjoint [OF free, of "hName x" "hName m" h] x(2) by blast
  qed
  have mem: "member_of ?c x \<longleftrightarrow> x = m \<or> hName x \<noteq> hName m \<and> member_of c x" for x
    by (auto simp: member_of_def consistent_add_def Let_def host_String_def)
  have "fmlookup (cs_ring ?c) h = Some x \<longleftrightarrow> member_of ?c x \<and> h \<in> set (slots hash ?c (hName x))" for h x
  proof (cases "h \<in> set ?hs")
    case True
    have "hName x = hName m" if "member_of c x" "h \<in> set (slots hash c (hName x))"
      using slots_disjoint [OF free, of "hName x" "hName m" h] that True by (auto simp: member_of_def fmdom'_lookup)
    with True show ?thesis by (auto simp: ring mem sl)
  next
    case False
    then show ?thesis using old [of h x] ring_invD(3) [OF inv, of h x] by (auto simp: ring mem sl)
  qed
  moreover have disj: "set (cs_sortedSet c) \<inter> set ?hs = {}"
  proof -
    have "h \<notin> set ?hs" if "h \<in> fmdom' (cs_ring c)" for h
      using that old(2) [of h] by (auto simp: fmdom'_lookup)
    then show ?thesis unfolding ring_invD(6) [OF inv] by blast
  qed
  have "distinct (cs_sortedSet ?c)" "sorted (cs_sortedSet ?c)"
    using disj ring_invD(5) [OF inv] slots_distinct [OF free, of "hName m"]
    by (simp_all add: consistent_add_def Let_def host_String_def)
  moreover have "set (cs_sortedSet ?c) = fmdom' (cs_ring ?c)"
    using ring_invD(6) [OF inv] by (auto simp: fmdom'_lookup ring) (auto simp: consistent_add_def Let_def host_String_def fmdom'_lookup)
  moreover have "fmdom' (cs_members ?c) = insert (hName m) (fmdom' (cs_members c))" "cs_ReplicationFactor ?c = cs_ReplicationFactor c"
    by (auto simp: consistent_add_def Let_def host_String_def)
  moreover have "hName x = nm" if "fmlookup (cs_members ?c) nm = Some x" for nm x
    using that ring_invD(1) [OF inv, of nm x] by (auto simp: consistent_add_def Let_def host_String_def split: if_splits)
  ultimately show ?thesis using free unfolding ring_inv_def by simp
qed

lemma delSlice_filter: "distinct xs \<Longrightarrow> delSlice v xs = filter (\<lambda>x. x \<noteq> v) xs"
proof (induction v xs rule: delSlice.induct)
  case (3 v x y xs)
  have "filter (\<lambda>z. z \<noteq> x) xs = xs" if "x \<notin> set xs" using that by (auto simp: filter_id_conv)
  moreover have "delSlice v xs = xs" if "x = v" "x \<notin> set xs" "distinct xs"
    using "3.IH"(1) [OF that(1,3)] calculation that by simp
  ultimately show ?case using 3 by auto
qed auto

lemma fold_delSlice: "distinct xs \<Longrightarrow> fold delSlice hs xs = filter (\<lambda>x. x \<notin> set hs) xs"
proof (induction hs arbitrary: xs)
  case (Cons h hs)
  then show ?case by (simp add: delSlice_filter conj_commute)
qed simp

text \<open>The ring without a member, before the partitions are distributed again.\<close>

definition ring_without :: "(bytes \<Rightarrow> 64 word) \<Rightarrow> consistent \<Rightarrow> bytes \<Rightarrow> consistent" where
  "ring_without hash c name =
     c\<lparr>cs_ring := fold fmdrop (slots hash c name) (cs_ring c),
       cs_sortedSet := fold delSlice (slots hash c name) (cs_sortedSet c), cs_members := fmdrop name (cs_members c)\<rparr>"

lemma ring_without_inv:
  assumes inv: "ring_inv hash c" and old: "fmlookup (cs_members c) name \<noteq> None"
  shows "ring_inv hash (ring_without hash c name)"
proof -
  let ?c = "ring_without hash c name" and ?hs = "slots hash c name"
  have sl: "slots hash ?c nm = slots hash c nm" for nm by (simp add: slots_def ring_without_def)
  have ring: "fmlookup (cs_ring ?c) h = (if h \<in> set ?hs then None else fmlookup (cs_ring c) h)" for h
    by (simp add: ring_without_def fold_fmdrop)
  have mem: "member_of ?c x \<longleftrightarrow> hName x \<noteq> name \<and> member_of c x" for x
    by (auto simp: member_of_def ring_without_def)
  have "h \<in> set ?hs \<longleftrightarrow> hName x = name" if "member_of c x" "h \<in> set (slots hash c (hName x))" for h x
    using slots_disjoint [OF ring_invD(2) [OF inv], of "hName x" name h] that old
    by (auto simp: member_of_def fmdom'_lookup)
  then have "fmlookup (cs_ring ?c) h = Some x \<longleftrightarrow> member_of ?c x \<and> h \<in> set (slots hash ?c (hName x))" for h x
    using ring_invD(3) [OF inv, of h x] by (auto simp: ring mem sl)
  moreover have ss: "cs_sortedSet ?c = filter (\<lambda>h. h \<notin> set ?hs) (cs_sortedSet c)"
    using ring_invD(5) [OF inv] by (simp add: ring_without_def fold_delSlice)
  moreover have "set (cs_sortedSet ?c) = fmdom' (cs_ring ?c)"
    using ring_invD(6) [OF inv] by (auto simp: ss fmdom'_lookup ring split: if_splits)
  moreover have "no_collisions hash (cs_ReplicationFactor ?c) (fmdom' (cs_members ?c))"
    using no_collisions_mono [OF ring_invD(2) [OF inv], of "fmdom' (cs_members ?c)"] by (auto simp: ring_without_def)
  moreover have "hName x = nm" if "fmlookup (cs_members ?c) nm = Some x" for nm x
    using that ring_invD(1) [OF inv, of nm x] by (auto simp: ring_without_def split: if_splits)
  ultimately show ?thesis
    using ring_invD(4,5) [OF inv] sorted_wrt_filter [of "(\<le>)"] unfolding ring_inv_def by simp
qed

section \<open>Finding room\<close>

definition full :: "consistent \<Rightarrow> int \<Rightarrow> (bytes, nat) fmap \<Rightarrow> nat \<Rightarrow> bool" where
  "full c avg loads i \<longleftrightarrow>
     (\<exists>m. fmlookup (cs_ring c) (cs_sortedSet c ! i) = Some m \<and> avg < int (load_of loads (hName m)) + 1)"

text \<open>The loop looks at the slots from an index on, around the ring.\<close>

lemma place_Panic_full:
  assumes "place c avg k idx loads = Panic" and "idx < length (cs_sortedSet c)"
    and "\<And>i. i < length (cs_sortedSet c) \<Longrightarrow> fmlookup (cs_ring c) (cs_sortedSet c ! i) \<noteq> None" and "j < k"
  shows "full c avg loads ((idx + j) mod length (cs_sortedSet c))"
  using assms(1,2,4)
proof (induction k arbitrary: idx j)
  case (Suc k)
  let ?L = "length (cs_sortedSet c)"
  let ?i = "if idx + 1 \<ge> ?L then 0 else idx + 1"
  obtain m where m: "fmlookup (cs_ring c) (cs_sortedSet c ! idx) = Some m" using assms(3) [OF Suc.prems(2)] by blast
  then have f: "\<not> int (load_of loads (hName m)) + 1 \<le> avg" and p: "place c avg k ?i loads = Panic"
    using Suc.prems(1) by (auto simp: host_String_def split: if_splits)
  show ?case
  proof (cases j)
    case 0
    with m f Suc.prems(2) show ?thesis by (auto simp: full_def)
  next
    case (Suc j')
    have i: "?i = (idx + 1) mod ?L" "?i < ?L" using Suc.prems(2) by (auto simp: mod_Suc)
    have "full c avg loads ((?i + j') mod ?L)" using Suc.IH [OF p i(2)] Suc.prems(3) Suc by simp
    moreover have "(?i + j') mod ?L = (idx + j) mod ?L" unfolding i(1) using Suc by (simp add: mod_add_left_eq)
    ultimately show ?thesis by simp
  qed
qed simp

lemma place_Ret_room:
  assumes "place c avg k idx loads = Ret m"
  shows "(\<exists>h. fmlookup (cs_ring c) h = Some m) \<and> int (load_of loads (hName m)) + 1 \<le> avg"
  using assms by (induction k arbitrary: idx) (auto simp: host_String_def split: option.splits if_splits)

text \<open>A member with room is found, although the last slot is never looked at, when it has two slots.\<close>

lemma place_finds:
  assumes inv: "ring_inv hash c" and rf: "2 \<le> cs_ReplicationFactor c" and idx: "idx < length (cs_sortedSet c)"
    and m: "member_of c m" and room: "int (load_of loads (hName m)) + 1 \<le> avg"
  shows "\<exists>m'. place c avg (length (cs_sortedSet c) - 1) idx loads = Ret m'"
proof (rule ccontr)
  let ?L = "length (cs_sortedSet c)"
  assume "\<nexists>m'. place c avg (?L - 1) idx loads = Ret m'"
  then have p: "place c avg (?L - 1) idx loads = Panic" by (cases "place c avg (?L - 1) idx loads") auto
  have some: "fmlookup (cs_ring c) (cs_sortedSet c ! i) \<noteq> None" if "i < ?L" for i
    using ring_invD(6) [OF inv] nth_mem [OF that] by (simp add: fmdom'_lookup)
  have at: "\<exists>i < ?L. cs_sortedSet c ! i = slot_hash hash (hName m) s \<and> \<not> full c avg loads i"
    if "s < cs_ReplicationFactor c" for s
  proof -
    have h: "slot_hash hash (hName m) s \<in> set (slots hash c (hName m))" using that by (simp add: set_slots)
    then have r: "fmlookup (cs_ring c) (slot_hash hash (hName m) s) = Some m" using ring_invD(3) [OF inv] m by blast
    then have "slot_hash hash (hName m) s \<in> set (cs_sortedSet c)" using ring_invD(6) [OF inv] by (simp add: fmdom'_lookup)
    then obtain i where "i < ?L" "cs_sortedSet c ! i = slot_hash hash (hName m) s" by (auto simp: in_set_conv_nth)
    with r room show ?thesis by (auto simp: full_def)
  qed
  have last: "i = (idx + (?L - 1)) mod ?L" if "i < ?L" "\<not> full c avg loads i" for i
  proof -
    define j where "j = (i + (?L - idx)) mod ?L"
    have "(idx + j) mod ?L = (idx + (i + (?L - idx))) mod ?L" unfolding j_def by (rule mod_add_right_eq)
    also have "\<dots> = i" using that(1) idx by simp
    finally have ij: "(idx + j) mod ?L = i" .
    moreover have "j < ?L" using idx unfolding j_def by (intro mod_less_divisor) linarith
    moreover have "\<not> j < ?L - 1" using place_Panic_full [OF p idx some, of j] ij that(2) by auto
    ultimately have "j = ?L - 1" by simp
    with ij show ?thesis by simp
  qed
  have "0 < cs_ReplicationFactor c" "1 < cs_ReplicationFactor c" using rf by simp_all
  from at [OF this(1)] at [OF this(2)] obtain i0 i1 where
    i0: "i0 < ?L" "cs_sortedSet c ! i0 = slot_hash hash (hName m) 0" "\<not> full c avg loads i0" and
    i1: "i1 < ?L" "cs_sortedSet c ! i1 = slot_hash hash (hName m) 1" "\<not> full c avg loads i1" by blast
  have "i0 = i1" using last [OF i0(1,3)] last [OF i1(1,3)] by simp
  with i0(2) i1(2) have "slot_hash hash (hName m) 0 = slot_hash hash (hName m) 1" by simp
  moreover have "hName m \<in> fmdom' (cs_members c)" using m by (simp add: member_of_def fmdom'_lookup)
  ultimately show False using no_collisionsD [OF ring_invD(2) [OF inv], of "hName m" "hName m" 0 1] rf by simp
qed

section \<open>Bounded loads\<close>

definition owned :: "(64 word, host) fmap \<Rightarrow> bytes \<Rightarrow> nat" where
  "owned parts nm = card {pid. \<exists>m. fmlookup parts pid = Some m \<and> hName m = nm}"

lemma owned_finite: "finite {pid. \<exists>m. fmlookup parts pid = Some m \<and> hName m = nm}"
  by (rule finite_subset [of _ "fmdom' parts"]) (auto simp: fmdom'_lookup)

lemma owned_upd:
  assumes "fmlookup parts pid = None"
  shows "owned (fmupd pid m parts) nm = owned parts nm + (if nm = hName m then 1 else 0)"
proof (cases "nm = hName m")
  case True
  then have "{q. \<exists>x. fmlookup (fmupd pid m parts) q = Some x \<and> hName x = nm} =
      insert pid {q. \<exists>x. fmlookup parts q = Some x \<and> hName x = nm}" using assms by auto
  with True assms show ?thesis by (simp add: owned_def owned_finite)
next
  case False
  then have "{q. \<exists>x. fmlookup (fmupd pid m parts) q = Some x \<and> hName x = nm} =
      {q. \<exists>x. fmlookup parts q = Some x \<and> hName x = nm}" using assms by (auto split: if_splits)
  with False show ?thesis by (simp add: owned_def)
qed

text \<open>What holds while the partitions are being distributed.\<close>

definition dist_inv :: "consistent \<Rightarrow> int \<Rightarrow> (64 word, host) fmap \<Rightarrow> (bytes, nat) fmap \<Rightarrow> bool" where
  "dist_inv c avg parts loads \<longleftrightarrow>
     (\<forall>pid m. fmlookup parts pid = Some m \<longrightarrow> member_of c m) \<and>
     (\<forall>nm. load_of loads nm = owned parts nm \<and> (owned parts nm \<noteq> 0 \<longrightarrow> int (owned parts nm) \<le> avg)) \<and>
     (\<Sum>nm \<in> fmdom' (cs_members c). owned parts nm) = card (fmdom' parts)"

lemma dist_inv_empty: "dist_inv c avg fmempty fmempty"
  by (simp add: dist_inv_def owned_def load_of_def)

lemma dist_inv_upd:
  assumes inv: "dist_inv c avg parts loads" and m: "member_of c m" and room: "int (load_of loads (hName m)) + 1 \<le> avg"
    and new: "fmlookup parts pid = None"
  shows "dist_inv c avg (fmupd pid m parts) (fmupd (hName m) (load_of loads (hName m) + 1) loads)"
proof -
  have fin: "finite (fmdom' (cs_members c))" by simp
  have mem: "hName m \<in> fmdom' (cs_members c)" using m by (simp add: member_of_def fmdom'_lookup)
  have "(\<Sum>nm \<in> fmdom' (cs_members c). owned (fmupd pid m parts) nm) =
      (\<Sum>nm \<in> fmdom' (cs_members c). owned parts nm) + (\<Sum>nm \<in> fmdom' (cs_members c). if nm = hName m then 1 else 0)"
    by (simp add: owned_upd [OF new] sum.distrib)
  also have "\<dots> = card (fmdom' (fmupd pid m parts))"
    using inv mem new by (simp add: dist_inv_def fmdom'_lookup)
  finally show ?thesis
    using inv m room new by (auto simp: dist_inv_def owned_upd load_of_def)
qed

lemma dist_room:
  assumes inv: "dist_inv c avg parts loads" and names: "\<And>nm m. fmlookup (cs_members c) nm = Some m \<Longrightarrow> hName m = nm"
    and less: "int (card (fmdom' parts)) < int (card (fmdom' (cs_members c))) * avg"
  shows "\<exists>m. member_of c m \<and> int (load_of loads (hName m)) + 1 \<le> avg"
proof (rule ccontr)
  assume no: "\<nexists>m. member_of c m \<and> int (load_of loads (hName m)) + 1 \<le> avg"
  have "avg \<le> int (owned parts nm)" if "nm \<in> fmdom' (cs_members c)" for nm
  proof -
    obtain m where "fmlookup (cs_members c) nm = Some m" using \<open>nm \<in> fmdom' (cs_members c)\<close> by (auto simp: fmdom'_lookup)
    then have "member_of c m" "hName m = nm" using names by (auto simp: member_of_def)
    with no inv show ?thesis by (fastforce simp: dist_inv_def)
  qed
  then have "(\<Sum>nm \<in> fmdom' (cs_members c). avg) \<le> (\<Sum>nm \<in> fmdom' (cs_members c). int (owned parts nm))"
    by (rule sum_mono)
  then show False using less inv by (simp add: dist_inv_def flip: of_nat_sum)
qed

lemma start_slot_less: "cs_sortedSet c \<noteq> [] \<Longrightarrow> start_slot hash c pid < length (cs_sortedSet c)"
  by (simp add: start_slot_def Let_def)

lemma distribute_slots_ok:
  assumes inv: "ring_inv hash c" and rf: "2 \<le> cs_ReplicationFactor c" and avg: "AverageLoad c = Ret avg"
    and "dist_inv c avg parts loads" and "distinct pids" and "\<forall>pid \<in> set pids. fmlookup parts pid = None"
    and "int (card (fmdom' parts)) + int (length pids) \<le> int (card (fmdom' (cs_members c))) * avg"
  shows "\<exists>parts' loads'. distribute_slots hash c pids parts loads = Ret (parts', loads') \<and>
    dist_inv c avg parts' loads' \<and> fmdom' parts' = fmdom' parts \<union> set pids"
  using assms(4-7)
proof (induction pids arbitrary: parts loads)
  case (Cons pid pids)
  have "int (card (fmdom' parts)) < int (card (fmdom' (cs_members c))) * avg" using Cons.prems(4) by simp
  with dist_room [OF Cons.prems(1) ring_invD(1) [OF inv]] obtain x where
    x: "member_of c x" "int (load_of loads (hName x)) + 1 \<le> avg" by blast
  have "slot_hash hash (hName x) 0 \<in> set (slots hash c (hName x))" using rf by (auto simp: set_slots)
  then have "fmlookup (cs_ring c) (slot_hash hash (hName x) 0) = Some x" using ring_invD(3) [OF inv] x(1) by blast
  then have "slot_hash hash (hName x) 0 \<in> set (cs_sortedSet c)" using ring_invD(6) [OF inv] by (simp add: fmdom'_lookup)
  then have "cs_sortedSet c \<noteq> []" by auto
  from place_finds [OF inv rf start_slot_less [OF this] x] obtain m where
    p: "place c avg (length (cs_sortedSet c) - 1) (start_slot hash c pid) loads = Ret m" by blast
  then have room: "int (load_of loads (hName m)) + 1 \<le> avg" and "\<exists>h. fmlookup (cs_ring c) h = Some m"
    using place_Ret_room by blast+
  then have m: "member_of c m" using ring_invD(3) [OF inv] by blast
  have new: "fmlookup parts pid = None" using Cons.prems(3) by simp
  let ?parts = "fmupd pid m parts" and ?loads = "fmupd (hName m) (load_of loads (hName m) + 1) loads"
  have "card (fmdom' ?parts) = card (fmdom' parts) + 1" using new by (simp add: fmdom'_lookup)
  then have "int (card (fmdom' ?parts)) + int (length pids) \<le> int (card (fmdom' (cs_members c))) * avg"
    using Cons.prems(4) by simp
  moreover have "distinct pids" "\<forall>q \<in> set pids. fmlookup ?parts q = None" using Cons.prems(2,3) by auto
  ultimately have "\<exists>parts' loads'. distribute_slots hash c pids ?parts ?loads = Ret (parts', loads') \<and>
      dist_inv c avg parts' loads' \<and> fmdom' parts' = fmdom' ?parts \<union> set pids"
    using Cons.IH [OF dist_inv_upd [OF Cons.prems(1) m room new]] by blast
  with avg p show ?case by (auto simp: distributeWithLoad_def host_String_def)
qed simp

lemma ring_parts_distinct: "distinct (ring_parts c)"
proof -
  have "inj_on (word_of_nat :: nat \<Rightarrow> 64 word) {0..<unat (cs_partitionCount c)}"
    using unat_bound [of "cs_partitionCount c"] by (intro inj_onI) (simp add: word_of_nat_eq_iff take_bit_nat_eq_self)
  then show ?thesis by (simp add: ring_parts_def distinct_map)
qed

lemma set_ring_parts: "set (ring_parts c) = {pid. pid < cs_partitionCount c}"
proof -
  have "pid \<in> word_of_nat ` {0..<unat (cs_partitionCount c)}" if "pid < cs_partitionCount c" for pid
    using that by (intro image_eqI [of _ _ "unat pid"]) (simp_all add: word_less_nat_alt)
  moreover have "word_of_nat i < cs_partitionCount c" if "i < unat (cs_partitionCount c)" for i
    using that unat_bound [of "cs_partitionCount c"] by (simp add: word_less_nat_alt unat_of_nat)
  ultimately show ?thesis by (auto simp: ring_parts_def)
qed

lemma enough_room:
  fixes ld :: rat
  assumes "0 < n" and "n \<le> p" and "1 < ld"
  shows "int p \<le> int n * \<lceil>of_nat (p div n) * ld\<rceil>"
proof -
  have q: "0 < p div n" using assms by (simp add: div_greater_zero_iff)
  have "(of_nat (p div n) :: rat) < of_nat (p div n) * ld" using q assms(3) by simp
  then have "int (p div n) + 1 \<le> \<lceil>of_nat (p div n) * ld\<rceil>" by linarith
  then have "int n * (int (p div n) + 1) \<le> int n * \<lceil>of_nat (p div n) * ld\<rceil>" by (intro mult_left_mono) simp_all
  moreover have "int p = int n * int (p div n) + int (p mod n)"
    using mult_div_mod_eq [of n p] by (metis of_nat_add of_nat_mult)
  moreover have "int (p mod n) < int n" using assms(1) by simp
  ultimately show ?thesis by (simp add: algebra_simps)
qed

lemma distribute_balanced:
  assumes inv: "ring_inv hash c" and rf: "2 \<le> cs_ReplicationFactor c" and ld: "1 < cs_Load c"
    and some: "fmdom' (cs_members c) \<noteq> {}" and le: "card (fmdom' (cs_members c)) \<le> unat (cs_partitionCount c)"
  obtains avg parts loads where "AverageLoad c = Ret avg" "0 < avg" "dist_inv c avg parts loads"
    "consistent_distribute hash c = Ret (c\<lparr>cs_partitions := parts, cs_loads := loads\<rparr>)"
    "fmdom' parts = {pid. pid < cs_partitionCount c}"
proof -
  let ?n = "card (fmdom' (cs_members c))"
  have n: "0 < ?n" using some by (simp add: card_gt_0_iff)
  define avg where "avg = \<lceil>of_nat (unat (cs_partitionCount c) div ?n) * cs_Load c\<rceil>"
  have avg: "AverageLoad c = Ret avg" using n some by (simp add: AverageLoad_def fcard_fmdom avg_def)
  have room: "int (unat (cs_partitionCount c)) \<le> int ?n * avg" unfolding avg_def by (rule enough_room [OF n le ld])
  have "0 < int ?n * avg" using room n le by linarith
  then have pos: "0 < avg" using n by (simp add: zero_less_mult_iff)
  have "int (card (fmdom' fmempty)) + int (length (ring_parts c)) \<le> int ?n * avg" using room by (simp add: ring_parts_def)
  with distribute_slots_ok [OF inv rf avg dist_inv_empty ring_parts_distinct [of c]] obtain parts loads where
    "distribute_slots hash c (ring_parts c) fmempty fmempty = Ret (parts, loads)" "dist_inv c avg parts loads"
    "fmdom' parts = set (ring_parts c)" by auto
  with avg pos show ?thesis by (intro that [of avg parts loads]) (simp_all add: consistent_distribute_def set_ring_parts)
qed

lemma distribute_overfull:
  assumes "fmdom' (cs_members c) \<noteq> {}" and "unat (cs_partitionCount c) < card (fmdom' (cs_members c))"
    and "0 < cs_partitionCount c"
  shows "consistent_distribute hash c = Panic"
proof -
  have "AverageLoad c = Ret 0" using assms(1,2) by (simp add: AverageLoad_def fcard_fmdom)
  moreover have "place c 0 k idx fmempty = Panic" for k idx
    by (induction k arbitrary: idx) (auto split: option.split)
  ultimately have "distributeWithLoad c pid i fmempty fmempty = Panic" for pid i by (simp add: distributeWithLoad_def)
  moreover have "ring_parts c \<noteq> []" using assms(3) by (simp add: ring_parts_def word_less_nat_alt)
  then obtain pid pids where "ring_parts c = pid # pids" by (cases "ring_parts c") auto
  ultimately show ?thesis by (simp add: consistent_distribute_def)
qed

lemma ring_inv_placed [simp]: "ring_inv hash (c\<lparr>cs_partitions := parts, cs_loads := loads\<rparr>) = ring_inv hash c"
  by (simp add: ring_inv_def slots_def member_of_def)

lemma Add_balanced:
  assumes inv: "ring_inv hash c" and rf: "2 \<le> cs_ReplicationFactor c" and ld: "1 < cs_Load c"
    and new: "fmlookup (cs_members c) (hName m) = None"
    and free: "no_collisions hash (cs_ReplicationFactor c) (insert (hName m) (fmdom' (cs_members c)))"
    and le: "card (fmdom' (cs_members c)) < unat (cs_partitionCount c)"
  obtains c' avg where "consistent_Add hash c m = Ret c'" "ring_inv hash c'" "cs_members c' = fmupd (hName m) m (cs_members c)"
    "AverageLoad c' = Ret avg" "\<And>pid. pid < cs_partitionCount c \<Longrightarrow> \<exists>x. GetPartitionOwner c' pid = Some x \<and> member_of c' x"
    "\<And>nm. int (owned (cs_partitions c') nm) \<le> avg"
    "cs_partitionCount c' = cs_partitionCount c" "cs_ReplicationFactor c' = cs_ReplicationFactor c" "cs_Load c' = cs_Load c"
proof -
  let ?c = "consistent_add hash c m"
  have same: "cs_ReplicationFactor ?c = cs_ReplicationFactor c" "cs_Load ?c = cs_Load c" "cs_partitionCount ?c = cs_partitionCount c"
    "cs_members ?c = fmupd (hName m) m (cs_members c)" by (simp_all add: consistent_add_def Let_def host_String_def)
  have inv': "ring_inv hash ?c" by (rule consistent_add_inv [OF inv new free])
  have "card (fmdom' (cs_members ?c)) \<le> unat (cs_partitionCount ?c)" using le new by (simp add: same fmdom'_lookup)
  then obtain avg parts loads where d: "AverageLoad ?c = Ret avg" "0 < avg" "dist_inv ?c avg parts loads"
    "consistent_distribute hash ?c = Ret (?c\<lparr>cs_partitions := parts, cs_loads := loads\<rparr>)"
    "fmdom' parts = {pid. pid < cs_partitionCount ?c}"
    using distribute_balanced [OF inv'] rf ld by (metis same fmdom'_fmupd insert_not_empty)
  let ?c' = "?c\<lparr>cs_partitions := parts, cs_loads := loads\<rparr>"
  have "consistent_Add hash c m = Ret ?c'" using new d(4) by (simp add: consistent_Add_def host_String_def)
  moreover have "AverageLoad ?c' = AverageLoad ?c" by (simp add: AverageLoad_def)
  then have "AverageLoad ?c' = Ret avg" using d(1) by simp
  moreover have "\<exists>x. GetPartitionOwner ?c' pid = Some x \<and> member_of ?c' x" if "pid < cs_partitionCount c" for pid
  proof -
    have "pid \<in> fmdom' parts" using that d(5) same(3) by simp
    then obtain x where "fmlookup parts pid = Some x" by (auto simp: fmdom'_lookup)
    then show ?thesis using d(3) by (simp add: GetPartitionOwner_def dist_inv_def member_of_def)
  qed
  moreover have "int (owned (cs_partitions ?c') nm) \<le> avg" for nm
    using d(2,3) by (cases "owned parts nm = 0") (auto simp: dist_inv_def)
  ultimately show ?thesis using inv' same by (intro that [of ?c' avg]) simp_all
qed

lemma Add_overfull:
  assumes "fmlookup (cs_members c) (hName m) = None" and "unat (cs_partitionCount c) \<le> card (fmdom' (cs_members c))"
    and "0 < cs_partitionCount c"
  shows "consistent_Add hash c m = Panic"
proof -
  have "consistent_distribute hash (consistent_add hash c m) = Panic"
    using assms by (intro distribute_overfull) (simp_all add: consistent_add_def Let_def host_String_def fmdom'_lookup)
  then show ?thesis using assms(1) by (simp add: consistent_Add_def host_String_def)
qed

section \<open>The placement is a function of the members\<close>

lemma ring_determined:
  assumes a: "ring_inv hash a" and b: "ring_inv hash b" and "cs_members a = cs_members b"
    and "cs_ReplicationFactor a = cs_ReplicationFactor b"
  shows "cs_ring a = cs_ring b" and "cs_sortedSet a = cs_sortedSet b"
proof -
  have "slots hash a nm = slots hash b nm" for nm using assms(4) by (simp add: slots_def)
  then have "fmlookup (cs_ring a) h = Some m \<longleftrightarrow> fmlookup (cs_ring b) h = Some m" for h m
    using ring_invD(3) [OF a, of h m] ring_invD(3) [OF b, of h m] assms(3) by (simp add: member_of_def)
  then have "fmlookup (cs_ring a) h = fmlookup (cs_ring b) h" for h by (metis not_Some_eq)
  then show r: "cs_ring a = cs_ring b" by (rule fmap_ext)
  show "cs_sortedSet a = cs_sortedSet b"
    using ring_invD(4-6) [OF a] ring_invD(4-6) [OF b] r by (intro sorted_distinct_set_unique) simp_all
qed

lemma distribute_slots_cong:
  assumes "cs_ring a = cs_ring b" "cs_sortedSet a = cs_sortedSet b" "cs_members a = cs_members b"
    and "cs_partitionCount a = cs_partitionCount b" "cs_Load a = cs_Load b"
  shows "distribute_slots hash a pids parts loads = distribute_slots hash b pids parts loads"
proof -
  have "place a avg k idx ls = place b avg k idx ls" for avg k idx ls
    using assms(1,2) by (induction k arbitrary: idx) (simp_all split: option.split)
  moreover have "AverageLoad a = AverageLoad b" using assms(3-5) by (simp add: AverageLoad_def)
  ultimately have "distributeWithLoad a = distributeWithLoad b" using assms(2) by (intro ext) (simp add: distributeWithLoad_def)
  moreover have "start_slot hash a = start_slot hash b" using assms(2) by (intro ext) (simp add: start_slot_def)
  ultimately have step: "distribute_slots hash a (pid # pids) parts loads =
      bind_outcome (distributeWithLoad b pid (start_slot hash b pid) parts loads)
        (\<lambda>(parts, loads). distribute_slots hash a pids parts loads)" for pid pids parts loads by simp
  show ?thesis
  proof (induction pids arbitrary: parts loads)
    case (Cons pid pids)
    have "distribute_slots hash a pids = distribute_slots hash b pids" by (intro ext) (rule Cons.IH)
    then show ?case unfolding step by simp
  qed simp
qed

text \<open>Histories of members that join and leave, and the names in them.\<close>

datatype ring_op = RingAdd host | RingRemove bytes

fun ring_run :: "(bytes \<Rightarrow> 64 word) \<Rightarrow> consistent \<Rightarrow> ring_op list \<Rightarrow> consistent outcome" where
  "ring_run hash c [] = Ret c"
| "ring_run hash c (RingAdd m # ops) = bind_outcome (consistent_Add hash c m) (\<lambda>c. ring_run hash c ops)"
| "ring_run hash c (RingRemove nm # ops) = bind_outcome (consistent_Remove hash c nm) (\<lambda>c. ring_run hash c ops)"

fun ring_names :: "ring_op list \<Rightarrow> bytes set" where
  "ring_names [] = {}"
| "ring_names (RingAdd m # ops) = insert (hName m) (ring_names ops)"
| "ring_names (RingRemove nm # ops) = ring_names ops"

text \<open>The partitions are where a distribution among the present members puts them.\<close>

definition placed :: "(bytes \<Rightarrow> 64 word) \<Rightarrow> consistent \<Rightarrow> bool" where
  "placed hash c \<longleftrightarrow> ring_inv hash c \<and>
     (if fmdom (cs_members c) = {||} then cs_partitions c = fmempty
      else map_ret cs_partitions (consistent_distribute hash c) = Ret (cs_partitions c))"

lemma placed_distribute:
  assumes "ring_inv hash c" and "fmdom (cs_members c) \<noteq> {||}" and "consistent_distribute hash c = Ret c'"
  shows "placed hash c'" and "cs_members c' = cs_members c"
    and "cs_ReplicationFactor c' = cs_ReplicationFactor c" "cs_partitionCount c' = cs_partitionCount c" "cs_Load c' = cs_Load c"
proof -
  from assms(3) obtain parts loads where
    d: "distribute_slots hash c (ring_parts c) fmempty fmempty = Ret (parts, loads)" and
    c': "c' = c\<lparr>cs_partitions := parts, cs_loads := loads\<rparr>" by (auto simp: consistent_distribute_def)
  have "distribute_slots hash c' (ring_parts c') fmempty fmempty = Ret (parts, loads)"
    using d distribute_slots_cong [of c c' hash] by (simp add: c' ring_parts_def)
  with assms(1,2) show "placed hash c'" by (simp add: placed_def consistent_distribute_def c')
  show "cs_members c' = cs_members c" "cs_ReplicationFactor c' = cs_ReplicationFactor c"
    "cs_partitionCount c' = cs_partitionCount c" "cs_Load c' = cs_Load c" by (simp_all add: c')
qed

lemma Add_placed:
  assumes "placed hash c" and "consistent_Add hash c m = Ret c'"
    and "no_collisions hash (cs_ReplicationFactor c) (insert (hName m) (fmdom' (cs_members c)))"
  shows "placed hash c' \<and> fmdom' (cs_members c') = insert (hName m) (fmdom' (cs_members c)) \<and>
    cs_ReplicationFactor c' = cs_ReplicationFactor c \<and> cs_partitionCount c' = cs_partitionCount c \<and> cs_Load c' = cs_Load c"
proof (cases "fmlookup (cs_members c) (hName m)")
  case None
  let ?c = "consistent_add hash c m"
  have "ring_inv hash ?c" using assms(1,3) None by (intro consistent_add_inv) (simp_all add: placed_def)
  moreover have mem: "cs_members ?c = fmupd (hName m) m (cs_members c)" by (simp add: consistent_add_def Let_def host_String_def)
  moreover have "consistent_distribute hash ?c = Ret c'" using assms(2) None by (simp add: consistent_Add_def host_String_def)
  ultimately show ?thesis using placed_distribute [of hash ?c c'] by (simp add: consistent_add_def Let_def host_String_def)
next
  case (Some x)
  then have "c' = c" using assms(2) by (simp add: consistent_Add_def host_String_def)
  moreover have "hName m \<in> fmdom' (cs_members c)" using Some by (simp add: fmdom'_lookup)
  ultimately show ?thesis using assms(1) by (simp add: insert_absorb)
qed

lemma Remove_placed:
  assumes "placed hash c" and "consistent_Remove hash c nm = Ret c'"
  shows "placed hash c' \<and> fmdom' (cs_members c') = fmdom' (cs_members c) - {nm} \<and>
    cs_ReplicationFactor c' = cs_ReplicationFactor c \<and> cs_partitionCount c' = cs_partitionCount c \<and> cs_Load c' = cs_Load c"
proof (cases "fmlookup (cs_members c) nm")
  case None
  then have "nm \<notin> fmdom' (cs_members c)" by (simp add: fmdom'_lookup)
  with None assms show ?thesis by (simp add: consistent_Remove_def)
next
  case (Some x)
  let ?c = "ring_without hash c nm"
  have inv: "ring_inv hash ?c" using assms(1) Some by (intro ring_without_inv) (simp_all add: placed_def)
  have mem: "cs_members ?c = fmdrop nm (cs_members c)" by (simp add: ring_without_def)
  have r: "(if fmdom (cs_members ?c) = {||} then Ret (?c\<lparr>cs_partitions := fmempty\<rparr>) else consistent_distribute hash ?c) = Ret c'"
    using assms(2) Some unfolding consistent_Remove_def Let_def ring_without_def [symmetric] by (simp split del: if_split)
  show ?thesis
  proof (cases "fmdom (cs_members ?c) = {||}")
    case True
    then have c': "c' = ?c\<lparr>cs_partitions := fmempty\<rparr>" using r by simp
    moreover have "ring_inv hash c'" using inv by (simp add: c' ring_inv_def slots_def member_of_def)
    ultimately show ?thesis using True by (simp add: placed_def) (simp add: ring_without_def)
  next
    case False
    then have "consistent_distribute hash ?c = Ret c'" using r by simp
    from placed_distribute [OF inv False this] show ?thesis by (simp add: ring_without_def)
  qed
qed

lemma ring_run_placed:
  assumes "ring_run hash c ops = Ret c'" and "placed hash c"
    and "no_collisions hash (cs_ReplicationFactor c) (fmdom' (cs_members c) \<union> ring_names ops)"
  shows "placed hash c' \<and> cs_ReplicationFactor c' = cs_ReplicationFactor c \<and>
    cs_partitionCount c' = cs_partitionCount c \<and> cs_Load c' = cs_Load c"
  using assms
proof (induction hash c ops rule: ring_run.induct)
  case (2 hash c m ops)
  then obtain c1 where c1: "consistent_Add hash c m = Ret c1" "ring_run hash c1 ops = Ret c'" by auto
  have "no_collisions hash (cs_ReplicationFactor c) (insert (hName m) (fmdom' (cs_members c)))"
    using "2.prems"(3) by (rule no_collisions_mono) auto
  note p = Add_placed [OF "2.prems"(2) c1(1) this]
  then have "no_collisions hash (cs_ReplicationFactor c1) (fmdom' (cs_members c1) \<union> ring_names ops)"
    using "2.prems"(3) by simp
  with "2.IH" [OF c1(2)] p show ?case by simp
next
  case (3 hash c nm ops)
  then obtain c1 where c1: "consistent_Remove hash c nm = Ret c1" "ring_run hash c1 ops = Ret c'" by auto
  note p = Remove_placed [OF "3.prems"(2) c1(1)]
  have "no_collisions hash (cs_ReplicationFactor c) (fmdom' (cs_members c1) \<union> ring_names ops)"
    using "3.prems"(3) by (rule no_collisions_mono) (use p in auto)
  with "3.IH" [OF c1(2)] p show ?case by simp
qed simp

lemma placed_New: "placed hash (consistent_New pc rf ld)"
  using consistent_New_inv by (simp add: placed_def) (simp add: consistent_New_def)

lemma placed_determined:
  assumes a: "placed hash a" and b: "placed hash b" and "cs_members a = cs_members b"
    and "cs_ReplicationFactor a = cs_ReplicationFactor b" "cs_partitionCount a = cs_partitionCount b" "cs_Load a = cs_Load b"
  shows "cs_partitions a = cs_partitions b"
proof (cases "fmdom (cs_members a) = {||}")
  case True
  with a b assms(3) show ?thesis by (simp add: placed_def)
next
  case False
  have inv: "ring_inv hash a" "ring_inv hash b" using a b by (simp_all add: placed_def)
  have "distribute_slots hash a (ring_parts a) fmempty fmempty = distribute_slots hash b (ring_parts b) fmempty fmempty"
    using distribute_slots_cong [OF ring_determined [OF inv assms(3,4)] assms(3,5,6)] assms(5) by (simp add: ring_parts_def)
  then have "map_ret cs_partitions (consistent_distribute hash a) = map_ret cs_partitions (consistent_distribute hash b)"
    unfolding consistent_distribute_def by (cases "distribute_slots hash b (ring_parts b) fmempty fmempty") auto
  with a b assms(3) False show ?thesis by (simp add: placed_def)
qed

section \<open>The members next to an owner\<close>

definition miter_ok :: "(bytes fset \<Rightarrow> bytes list) \<Rightarrow> bool" where
  "miter_ok iter \<longleftrightarrow> (\<forall>S. distinct (iter S) \<and> set (iter S) = fset S)"

lemma closest_from_eq:
  assumes "idx < length keys" and "\<And>i. i < length keys \<Longrightarrow> fmlookup kmems (keys ! i) = Some (f i)"
  shows "closest_from keys kmems idx k = Ret (map (\<lambda>j. f ((idx + 1 + j) mod length keys)) [0..<k])"
  using assms(1)
proof (induction k arbitrary: idx)
  case (Suc k)
  let ?L = "length keys"
  define i where "i = (if idx + 1 \<ge> ?L then 0 else idx + 1)"
  have i: "i = (idx + 1) mod ?L" "i < ?L" using Suc.prems by (auto simp: i_def mod_Suc)
  have shift: "(i + 1 + j) mod ?L = (idx + 1 + Suc j) mod ?L" for j
    using mod_add_left_eq [of "idx + 1" ?L "1 + j"] by (simp add: i(1))
  have "closest_from keys kmems idx (Suc k) = map_ret ((#) (f i)) (closest_from keys kmems i k)"
    using i(2) assms(2) [OF i(2)] by (simp add: i_def Let_def)
  also have "\<dots> = Ret (f i # map (\<lambda>j. f ((idx + 1 + Suc j) mod ?L)) [0..<k])"
    by (simp only: Suc.IH [OF i(2)] shift map_ret.simps)
  also have "\<dots> = Ret (map (\<lambda>j. f ((idx + 1 + j) mod ?L)) [0..<Suc k])"
    using i(1) by (simp add: upt_conv_Cons map_Suc_upt [symmetric] del: upt_Suc)
  finally show ?case .
qed simp

lemma fold_kmems:
  assumes "\<And>nm. nm \<in> set names \<Longrightarrow> fmlookup mem nm \<noteq> None" and "inj_on hash (set names)" and "nm \<in> set names"
  shows "fmlookup (fold (\<lambda>nm r. case fmlookup mem nm of None \<Rightarrow> r | Some m \<Rightarrow> fmupd (hash nm) m r) names r) (hash nm) =
    fmlookup mem nm"
  using assms
proof (induction names arbitrary: r)
  case (Cons x names)
  have other: "fmlookup (fold (\<lambda>nm r. case fmlookup mem nm of None \<Rightarrow> r | Some m \<Rightarrow> fmupd (hash nm) m r) ns r) h = fmlookup r h"
    if "h \<notin> hash ` set ns" for ns h r
    using that by (induction ns arbitrary: r) (auto split: option.split)
  show ?case
  proof (cases "nm \<in> set names")
    case True
    with Cons show ?thesis by simp
  next
    case False
    then have "nm = x" "hash nm \<notin> hash ` set names" using Cons.prems(2,3) by (auto simp: inj_on_def)
    with Cons.prems(1) [of x] show ?thesis by (auto simp: other)
  qed
qed simp

lemma closest_indices:
  assumes "idx < n" and "k < n"
  shows "distinct (map (\<lambda>j. (idx + 1 + j) mod n) [0..<k])" and "idx \<notin> set (map (\<lambda>j. (idx + 1 + j) mod n) [0..<k])"
proof -
  have inj: "i = j" if "(idx + 1 + i) mod n = (idx + 1 + j) mod n" "i < n" "j < n" for i j
  proof -
    have "i mod n = j mod n" using that(1) by (simp only: nat_mod_eq_iff add.assoc add_left_cancel)
    with that(2,3) show ?thesis by (simp only: mod_less)
  qed
  have "inj_on (\<lambda>j. (idx + 1 + j) mod n) {0..<k}"
  proof (rule inj_onI)
    fix i j
    assume a: "i \<in> {0..<k}" "j \<in> {0..<k}" "(idx + 1 + i) mod n = (idx + 1 + j) mod n"
    show "i = j" by (rule inj [OF a(3)]) (use a(1,2) assms(2) in simp_all)
  qed
  then show "distinct (map (\<lambda>j. (idx + 1 + j) mod n) [0..<k])" by (simp only: distinct_map set_upt distinct_upt)
  show "idx \<notin> set (map (\<lambda>j. (idx + 1 + j) mod n) [0..<k])"
  proof
    assume "idx \<in> set (map (\<lambda>j. (idx + 1 + j) mod n) [0..<k])"
    then obtain j where j: "j < k" "(idx + 1 + j) mod n = idx" by auto
    have "(idx + 1 + (n - 1)) mod n = idx" using assms(1) by simp
    then have "(idx + 1 + j) mod n = (idx + 1 + (n - 1)) mod n" using j(2) by simp
    then have "j = n - 1" by (rule inj) (use j(1) assms in simp_all)
    with j(1) assms(2) show False by simp
  qed
qed

text \<open>The members in the order of the hashes of their names, and the index of the owner.\<close>

lemma closest_ring:
  assumes inv: "ring_inv hash c" and it: "miter_ok iter" and inj: "inj_on hash (fmdom' (cs_members c))"
    and ow: "GetPartitionOwner c pid = Some ow" "member_of c ow"
    and cnt: "0 \<le> count" "count < int (card (fmdom' (cs_members c)))"
  obtains keys f idx where "distinct keys" "length keys = card (fmdom' (cs_members c))"
    "\<And>i. i < length keys \<Longrightarrow> member_of c (f i) \<and> hash (hName (f i)) = keys ! i"
    "idx < length keys" "keys ! idx = hash (hName ow)"
    "GetClosestN hash iter c pid count = Ret (Inr (map (\<lambda>j. f ((idx + 1 + j) mod length keys)) [0..<nat count]))"
proof -
  define names where "names = iter (fmdom (cs_members c))"
  define keys where "keys = sort (map hash names)"
  define kmems where "kmems = fold (\<lambda>nm r. case fmlookup (cs_members c) nm of None \<Rightarrow> r | Some m \<Rightarrow> fmupd (hash nm) m r) names fmempty"
  define f where "f i = the (fmlookup kmems (keys ! i))" for i
  define idx where "idx = length (takeWhile (\<lambda>k. k \<noteq> hash (hName ow)) keys)"
  have nm: "distinct names" "set names = fmdom' (cs_members c)"
    using it by (simp_all add: names_def miter_ok_def fmdom'_alt_def)
  have look: "\<exists>m. fmlookup kmems (keys ! i) = Some m \<and> member_of c m \<and> hash (hName m) = keys ! i" if "i < length keys" for i
  proof -
    have "keys ! i \<in> hash ` set names" using nth_mem [OF that] by (simp add: keys_def)
    then obtain x where x: "x \<in> set names" "keys ! i = hash x" by blast
    then obtain m where m: "fmlookup (cs_members c) x = Some m" using nm(2) by (auto simp: fmdom'_lookup)
    have "fmlookup kmems (hash x) = fmlookup (cs_members c) x"
      unfolding kmems_def using inj x(1) nm(2) by (intro fold_kmems) (auto simp: fmdom'_lookup)
    with m x(2) ring_invD(1) [OF inv m] show ?thesis by (simp add: member_of_def)
  qed
  then have f: "fmlookup kmems (keys ! i) = Some (f i)" "member_of c (f i) \<and> hash (hName (f i)) = keys ! i" if "i < length keys" for i
    using that by (fastforce simp: f_def)+
  have mem: "hName ow \<in> set names" using ow(2) nm(2) by (simp add: member_of_def fmdom'_lookup)
  then have "hash (hName ow) \<in> set keys" by (simp add: keys_def)
  then have idx: "idx < length keys" unfolding idx_def by (induction keys) auto
  then have kidx: "keys ! idx = hash (hName ow)" using nth_length_takeWhile [of "\<lambda>k. k \<noteq> hash (hName ow)" keys] unfolding idx_def by simp
  have "\<not> count > int (fcard (fmdom (cs_members c))) - 1" using cnt by (simp add: fcard_fmdom)
  moreover have "names \<noteq> []" using mem by auto
  ultimately have "GetClosestN hash iter c pid count = map_ret Inr (closest_from keys kmems idx (nat count))"
    using ow(1) mem by (simp add: GetClosestN_def Let_def names_def [symmetric] keys_def [symmetric] kmems_def [symmetric]
        host_String_def idx_def)
  moreover have "length keys = card (fmdom' (cs_members c))" "distinct keys"
    using nm inj by (simp_all add: keys_def distinct_map distinct_card [symmetric])
  ultimately show ?thesis using f idx kidx by (intro that [of keys f idx]) (simp_all add: closest_from_eq [OF idx f(1)])
qed

lemma closest_members:
  assumes "ring_inv hash c" and "miter_ok iter" and "inj_on hash (fmdom' (cs_members c))"
    and "GetPartitionOwner c pid = Some ow" "member_of c ow"
    and cnt: "0 \<le> count" "count < int (card (fmdom' (cs_members c)))"
  shows "\<exists>bs. GetClosestN hash iter c pid count = Ret (Inr bs) \<and> length bs = nat count \<and> distinct bs \<and> ow \<notin> set bs \<and>
    (\<forall>b \<in> set bs. member_of c b)"
proof -
  from assms obtain keys f idx where dk: "distinct keys" and len: "length keys = card (fmdom' (cs_members c))"
    and f: "\<And>i. i < length keys \<Longrightarrow> member_of c (f i) \<and> hash (hName (f i)) = keys ! i"
    and idx: "idx < length keys" "keys ! idx = hash (hName ow)"
    and r: "GetClosestN hash iter c pid count = Ret (Inr (map (\<lambda>j. f ((idx + 1 + j) mod length keys)) [0..<nat count]))"
    by (rule closest_ring) blast
  let ?is = "map (\<lambda>j. (idx + 1 + j) mod length keys) [0..<nat count]"
  have bs: "map (\<lambda>j. f ((idx + 1 + j) mod length keys)) [0..<nat count] = map f ?is" by simp
  have k: "nat count < length keys" using cnt len by linarith
  have "x mod length keys < length keys" for x using idx(1) by (intro mod_less_divisor) linarith
  then have ran: "set ?is \<subseteq> {..<length keys}" by auto
  have key: "i = j" if "keys ! i = keys ! j" "i < length keys" "j < length keys" for i j
    using that dk by (simp add: nth_eq_iff_index_eq)
  then have "inj_on f {..<length keys}" using f by (metis (no_types, lifting) inj_onI lessThan_iff)
  then have "distinct (map f ?is)"
    using closest_indices(1) [OF idx(1) k] ran inj_on_subset by (simp only: distinct_map) blast
  moreover have "ow \<notin> set (map f ?is)"
  proof
    assume "ow \<in> set (map f ?is)"
    then obtain i where i: "i \<in> set ?is" "f i = ow" by auto
    then have "i < length keys" using ran by blast
    then have "i = idx" using f [of i] i(2) idx by (intro key) simp_all
    with i(1) closest_indices(2) [OF idx(1) k] show False by simp
  qed
  moreover have "\<forall>b \<in> set (map f ?is). member_of c b" using f ran by auto
  ultimately show ?thesis unfolding r bs by (intro exI [of _ "map f ?is"]) simp
qed

section \<open>A concrete ring\<close>

definition sample_hash :: "bytes \<Rightarrow> 64 word" where "sample_hash bs = word_of_nat (be_get bs)"

definition ring_host :: "byte \<Rightarrow> host" where "ring_host b = \<lparr>hName = [b], hBirthdate = 0\<rparr>"

lemma sample_no_collisions: "no_collisions sample_hash 2 {[97], [98], [99]}"
proof -
  have "distinct (map (\<lambda>(nm, i). slot_hash sample_hash nm i)
      (List.product [[97], [98], [99]] [0..<2]))"
    by (simp add: upt_rec slot_hash_def sample_hash_def itoa_def nat_digits.simps string_bytes_def be_get_def)
  moreover have "set (List.product [[97], [98], [99]] [0..<2]) = {[97], [98], [99 :: byte]} \<times> {..<2 :: nat}"
    by (auto simp: lessThan_atLeast0)
  ultimately show ?thesis unfolding no_collisions_def distinct_map by metis
qed

definition ring0 :: "64 word \<Rightarrow> consistent" where "ring0 pc = consistent_New pc 2 (5 / 4)"

lemma ring0_sel [simp]:
  "cs_members (ring0 pc) = fmempty" "cs_ReplicationFactor (ring0 pc) = 2" "cs_Load (ring0 pc) = 5 / 4"
  "cs_partitionCount (ring0 pc) = pc" "ring_inv hash (ring0 pc)" "placed hash (ring0 pc)"
  using consistent_New_inv placed_New by (simp_all add: ring0_def) (simp_all add: consistent_New_def)

lemma sample_free: "N \<subseteq> {[97], [98], [99]} \<Longrightarrow> no_collisions sample_hash 2 N"
  using sample_no_collisions by (rule no_collisions_mono)

lemma sample_Add:
  assumes "ring_inv sample_hash c" "cs_ReplicationFactor c = 2" "cs_Load c = 5 / 4" "cs_partitionCount c = 3"
    and "fmdom' (cs_members c) \<subseteq> {[97], [98]} - {[b]}" and "b \<in> {97, 98}"
  shows "\<exists>c'. consistent_Add sample_hash c (ring_host b) = Ret c' \<and> ring_inv sample_hash c' \<and>
    cs_ReplicationFactor c' = 2 \<and> cs_Load c' = 5 / 4 \<and> cs_partitionCount c' = 3 \<and>
    cs_members c' = fmupd [b] (ring_host b) (cs_members c)"
proof -
  have "[b] \<notin> fmdom' (cs_members c)" using assms(5) by auto
  then have new: "fmlookup (cs_members c) (hName (ring_host b)) = None" by (simp add: ring_host_def fmdom'_lookup)
  have "no_collisions sample_hash 2 (insert (hName (ring_host b)) (fmdom' (cs_members c)))"
    using assms(5,6) by (intro sample_free) (auto simp: ring_host_def)
  moreover have "card (fmdom' (cs_members c)) \<le> card {[97 :: byte], [98]}" using assms(5) by (intro card_mono) auto
  ultimately show ?thesis
    using Add_balanced [OF assms(1) _ _ new] assms(2-4) by (simp add: ring_host_def) metis
qed

section \<open>Properties\<close>

text \<open>C8. Adding a member to the hash ring: when there are at least as many partitions as members afterwards, every
  partition gets an owner among the members, and no member owns more than the average load, the rounded
  product of the load factor (above 1) and the partitions per member. With more members than
  partitions the average is 0 and the call panics, which brings down every node of the cluster. The members have at least two
  slots each, and no two slots have the same hash.\<close>

theorem ring_Add_balanced:
  assumes "ring_inv hash c" and "2 \<le> cs_ReplicationFactor c" and "1 < cs_Load c" and "0 < cs_partitionCount c"
    and "fmlookup (cs_members c) (hName m) = None"
    and "no_collisions hash (cs_ReplicationFactor c) (insert (hName m) (fmdom' (cs_members c)))"
  shows "if card (fmdom' (cs_members c)) < unat (cs_partitionCount c)
    then \<exists>c' avg. consistent_Add hash c m = Ret c' \<and> ring_inv hash c' \<and> AverageLoad c' = Ret avg \<and>
      (\<forall>pid < cs_partitionCount c. \<exists>x. GetPartitionOwner c' pid = Some x \<and> member_of c' x) \<and>
      (\<forall>nm. int (owned (cs_partitions c') nm) \<le> avg)
    else consistent_Add hash c m = Panic"
proof (cases "card (fmdom' (cs_members c)) < unat (cs_partitionCount c)")
  case True
  then show ?thesis using Add_balanced [OF assms(1-3,5,6)] by (simp split del: if_split) metis
next
  case False
  then show ?thesis using Add_overfull [OF assms(5) _ assms(4)] by simp
qed

theorem ring_Add_balanced_witness:
  "\<exists>c'. consistent_Add sample_hash (ring0 1) (ring_host 97) = Ret c' \<and> (\<exists>x. GetPartitionOwner c' 0 = Some x \<and> member_of c' x)"
proof -
  have "no_collisions sample_hash (cs_ReplicationFactor (ring0 1)) (insert (hName (ring_host 97)) (fmdom' (cs_members (ring0 1))))"
    using sample_free [of "{[97]}"] by (simp add: ring_host_def)
  from ring_Add_balanced [OF ring0_sel(5) _ _ _ _ this] show ?thesis by fastforce
qed

text \<open>C9. Where the partitions are is a function of the members: two rings that saw their members join and leave in different
  orders, but have the same members now, place every partition on the same member, provided that no two slots
  of members that ever joined have the same hash.\<close>

theorem placement_by_members:
  assumes "ring_run hash (consistent_New pc rf ld) ops = Ret a" and "ring_run hash (consistent_New pc rf ld) ops' = Ret b"
    and "cs_members a = cs_members b" and "no_collisions hash rf (ring_names ops \<union> ring_names ops')"
  shows "GetPartitionOwner a pid = GetPartitionOwner b pid"
proof -
  have free: "no_collisions hash (cs_ReplicationFactor (consistent_New pc rf ld))
      (fmdom' (cs_members (consistent_New pc rf ld)) \<union> N)" if "N \<subseteq> ring_names ops \<union> ring_names ops'" for N
    using no_collisions_mono [OF assms(4) that] by (simp add: consistent_New_def)
  note a = ring_run_placed [OF assms(1) placed_New free] and b = ring_run_placed [OF assms(2) placed_New free]
  have "cs_partitions a = cs_partitions b" using a b assms(3) by (intro placed_determined) auto
  then show ?thesis by (simp add: GetPartitionOwner_def)
qed

theorem placement_by_members_witness:
  "\<exists>a b. ring_run sample_hash (ring0 3) [RingAdd (ring_host 97), RingAdd (ring_host 98)] = Ret a \<and>
     ring_run sample_hash (ring0 3) [RingAdd (ring_host 98), RingAdd (ring_host 97)] = Ret b \<and>
     GetPartitionOwner a 2 = GetPartitionOwner b 2"
proof -
  have add: "\<exists>c. ring_run sample_hash (ring0 3) [RingAdd (ring_host x), RingAdd (ring_host y)] = Ret c \<and>
      cs_members c = fmupd [y] (ring_host y) (fmupd [x] (ring_host x) fmempty)"
    if xy: "x \<in> {97, 98}" "y \<in> {97, 98}" "x \<noteq> y" for x y
  proof -
    from sample_Add [of "ring0 3" x] xy obtain c where c: "consistent_Add sample_hash (ring0 3) (ring_host x) = Ret c"
      "ring_inv sample_hash c" "cs_ReplicationFactor c = 2" "cs_Load c = 5 / 4" "cs_partitionCount c = 3"
      "cs_members c = fmupd [x] (ring_host x) fmempty" by auto
    moreover have "fmdom' (cs_members c) \<subseteq> {[97], [98]} - {[y]}" using xy by (auto simp: c(6))
    ultimately show ?thesis using sample_Add [of c y] xy(2) by auto
  qed
  obtain a b where a: "ring_run sample_hash (ring0 3) [RingAdd (ring_host 97), RingAdd (ring_host 98)] = Ret a"
    and b: "ring_run sample_hash (ring0 3) [RingAdd (ring_host 98), RingAdd (ring_host 97)] = Ret b"
    and m: "cs_members a = fmupd [98] (ring_host 98) (fmupd [97] (ring_host 97) fmempty)"
      "cs_members b = fmupd [97] (ring_host 97) (fmupd [98] (ring_host 98) fmempty)"
    using add [of 97 98] add [of 98 97] by auto
  have "cs_members a = cs_members b" unfolding m by (rule fmap_ext) auto
  from placement_by_members [OF a [unfolded ring0_def] b [unfolded ring0_def] this] sample_free a b
  show ?thesis by (fastforce simp: ring_host_def)
qed

text \<open>C10. The members that hold the backups of a partition: \<open>GetClosestN\<close> returns as many members as asked
  for, all different and none of them the owner, when there are enough members and their
  names have different hashes; with too few members it returns an error.\<close>

theorem backups_next_to_owner:
  assumes "ring_inv hash c" and "miter_ok iter" and "inj_on hash (fmdom' (cs_members c))"
    and "GetPartitionOwner c pid = Some ow" and "member_of c ow" and "0 \<le> count"
  shows "if count < int (card (fmdom' (cs_members c)))
    then \<exists>bs. GetClosestN hash iter c pid count = Ret (Inr bs) \<and> length bs = nat count \<and> distinct bs \<and> ow \<notin> set bs \<and>
      (\<forall>b \<in> set bs. member_of c b)
    else GetClosestN hash iter c pid count = Ret (Inl ErrInsufficientMemberCount)"
proof (cases "count < int (card (fmdom' (cs_members c)))")
  case True
  with closest_members [OF assms this] show ?thesis by simp
next
  case False
  then have "count > int (fcard (fmdom (cs_members c))) - 1" by (simp add: fcard_fmdom)
  with False show ?thesis by (simp add: GetClosestN_def)
qed

theorem backups_next_to_owner_witness:
  "\<exists>c ow bs. ring_run sample_hash (ring0 3) [RingAdd (ring_host 97), RingAdd (ring_host 98)] = Ret c \<and>
     GetPartitionOwner c 0 = Some ow \<and> GetClosestN sample_hash sorted_list_of_fset c 0 1 = Ret (Inr bs) \<and>
     length bs = 1 \<and> ow \<notin> set bs"
proof -
  from sample_Add [of "ring0 3" 97] obtain c where c: "consistent_Add sample_hash (ring0 3) (ring_host 97) = Ret c"
    "ring_inv sample_hash c" "cs_ReplicationFactor c = 2" "cs_Load c = 5 / 4" "cs_partitionCount c = 3"
    "cs_members c = fmupd [97] (ring_host 97) fmempty" by auto
  have new: "fmlookup (cs_members c) (hName (ring_host 98)) = None" by (simp add: c(6) ring_host_def)
  have free: "no_collisions sample_hash (cs_ReplicationFactor c) (insert (hName (ring_host 98)) (fmdom' (cs_members c)))"
    unfolding c(3) by (rule sample_free) (auto simp: c(6) ring_host_def)
  have "2 \<le> cs_ReplicationFactor c" "1 < cs_Load c" "card (fmdom' (cs_members c)) < unat (cs_partitionCount c)"
    by (simp_all add: c(3-6))
  then obtain c' where c': "consistent_Add sample_hash c (ring_host 98) = Ret c'"
    "ring_inv sample_hash c'" "cs_members c' = fmupd (hName (ring_host 98)) (ring_host 98) (cs_members c)"
    "\<And>pid. pid < cs_partitionCount c \<Longrightarrow> \<exists>x. GetPartitionOwner c' pid = Some x \<and> member_of c' x"
    by (rule Add_balanced [OF c(2) _ _ new free]) blast
  from c'(4) [of 0] obtain ow where ow: "GetPartitionOwner c' 0 = Some ow" "member_of c' ow" by (auto simp: c(5))
  have dom: "fmdom' (cs_members c') = {[97], [98]}" by (auto simp: c'(3) c(6) ring_host_def)
  have "inj_on sample_hash (fmdom' (cs_members c'))" by (simp add: dom sample_hash_def be_get_def)
  moreover have "miter_ok sorted_list_of_fset" by (simp add: miter_ok_def sorted_list_of_fset.rep_eq)
  ultimately have "\<exists>bs. GetClosestN sample_hash sorted_list_of_fset c' 0 1 = Ret (Inr bs) \<and> length bs = nat 1 \<and> distinct bs \<and>
      ow \<notin> set bs \<and> (\<forall>b \<in> set bs. member_of c' b)"
    using backups_next_to_owner [OF c'(2) _ _ ow, of sorted_list_of_fset 1] by (simp add: dom)
  with c(1) c'(1) ow(1) show ?thesis by auto
qed

end
