(* ===== verification/Routing_Facts.thy ===== *)
theory Routing_Facts
  imports Cluster_Facts Consistent_Facts "HOL-Library.Multiset"
begin

text \<open>
  The coordinator and the routing table: who the coordinator is, which owners a partition has
  after a round, what a routing update does for a node that missed its bootstrap, and what a moved DMap
  means for the next round.
\<close>

section \<open>The coordinator\<close>

text \<open>What \<open>sort.Slice\<close> promises: an ordered permutation.\<close>

definition sort_ok :: "world \<Rightarrow> bool" where
  "sort_ok w \<longleftrightarrow> (\<forall>ms. mset (w_sort w ms) = mset ms \<and> sorted (map hBirthdate (w_sort w ms)))"

lemma getMembers_mset: "sort_ok w \<Longrightarrow> mset (getMembers w n) = mset (n_members n)"
  by (simp add: sort_ok_def getMembers_def)

lemma getCoordinator_oldest:
  assumes "sort_ok w" and "getCoordinator w n = Ret m"
  shows "m \<in> set (n_members n)" and "x \<in> set (n_members n) \<Longrightarrow> hBirthdate m \<le> hBirthdate x"
proof -
  obtain ms where ms: "getMembers w n = m # ms" using assms(2) by (auto simp: getCoordinator_def split: list.splits)
  have set: "set (getMembers w n) = set (n_members n)" using getMembers_mset [OF assms(1)] by (rule mset_eq_setD)
  show "m \<in> set (n_members n)" using ms set by auto
  assume "x \<in> set (n_members n)"
  then have "x \<in> set (m # ms)" using ms set by simp
  moreover have "sorted (map hBirthdate (m # ms))" using assms(1) ms unfolding sort_ok_def getMembers_def by metis
  ultimately show "hBirthdate m \<le> hBirthdate x" by auto
qed

lemma getCoordinator_total: "sort_ok w \<Longrightarrow> n_members n \<noteq> [] \<Longrightarrow> \<exists>m. getCoordinator w n = Ret m"
  using getMembers_mset [of w n] by (cases "getMembers w n") (simp_all add: getCoordinator_def)

section \<open>The owners of a partition\<close>

lemma move_to_end_filter: "distinct xs \<Longrightarrow> move_to_end m xs = filter (\<lambda>x. x \<noteq> m) xs @ [m]"
proof (induction xs)
  case (Cons x xs)
  have "filter (\<lambda>y. y \<noteq> m) xs = xs" if "m \<notin> set xs" using that by (auto simp: filter_id_conv)
  with Cons show ?case by (auto simp: hostCmp_eq)
qed simp

definition alive :: "world \<Rightarrow> node \<Rightarrow> host \<Rightarrow> bool" where
  "alive w n m \<longleftrightarrow> findMember w n (hName m) = Inr m"

lemma prune_dead_filter: "prune_dead w n ms = filter (alive w n) ms"
  by (induction ms) (auto simp: alive_def hostCmp_eq split: sum.split)

text \<open>
  A host that does not say that it holds nothing of the partition; the coordinator looks at its
  own counter.
\<close>

definition holds :: "rpc \<Rightarrow> cluster \<Rightarrow> node \<Rightarrow> part_id \<Rightarrow> host \<Rightarrow> bool" where
  "holds rpc cl n pid m \<longleftrightarrow>
     (if m = n_this n then (case n_parts n pid of None \<Rightarrow> False | Some p \<Rightarrow> p_count p \<noteq> 0)
      else \<exists>e. requestTo rpc cl m OpIsPartEmpty (empty_message\<lparr>Extra := Some (IsPartEmptyExtra pid)\<rparr>) = Done (cl, Inl e))"

text \<open>Other hosts answer the question, or the request fails, and nothing changes.\<close>

definition answers :: "rpc \<Rightarrow> cluster \<Rightarrow> node \<Rightarrow> part_id \<Rightarrow> bool" where
  "answers rpc cl n pid \<longleftrightarrow>
     (\<forall>m. m \<noteq> n_this n \<longrightarrow>
       (\<exists>r. requestTo rpc cl m OpIsPartEmpty (empty_message\<lparr>Extra := Some (IsPartEmptyExtra pid)\<rparr>) = Done (cl, r)))"

lemma prune_empty_filter:
  assumes "cl me = Some n" and "n_parts n pid = Some p" and "answers rpc cl n pid"
  shows "prune_empty rpc cl me False pid ms = Done (cl, filter (holds rpc cl n pid) ms)"
proof (induction ms)
  case (Cons m ms)
  show ?case
  proof (cases "m = n_this n")
    case True
    with Cons assms show ?thesis by (simp add: with_node_Some hostCmp_eq node_part_def holds_def)
  next
    case False
    with assms(3) obtain r where
      r: "requestTo rpc cl m OpIsPartEmpty (empty_message\<lparr>Extra := Some (IsPartEmptyExtra pid)\<rparr>) = Done (cl, r)"
      unfolding answers_def by blast
    with False Cons assms(1) show ?thesis by (cases r) (simp_all add: with_node_Some hostCmp_eq holds_def)
  qed
qed simp

lemma distribute_owners:
  assumes "cl me = Some n" and "GetPartitionOwner (n_ring n) pid = Some owner" and "n_parts n pid = Some p"
    and "distinct (p_owners p)" and "alive w n owner" and "answers rpc cl n pid"
    and "os = filter (\<lambda>m. m \<noteq> owner \<and> alive w n m \<and> holds rpc cl n pid m) (p_owners p) @ [owner]"
  shows "distributePrimaryCopies w rpc cl me pid rt =
    Done (set_owners cl me False pid os, fmupd pid ((get_route rt pid)\<lparr>r_Owners := os\<rparr>) rt)"
proof (cases "p_owners p = []")
  case True
  with assms show ?thesis by (simp add: distributePrimaryCopies_def with_node_Some Let_def)
next
  case False
  let ?tmp = "prune_dead w n (move_to_end owner (p_owners p))"
  have tmp: "?tmp = filter (\<lambda>m. m \<noteq> owner \<and> alive w n m) (p_owners p) @ [owner]"
    using assms(4,5) by (simp add: move_to_end_filter prune_dead_filter conj_commute)
  then have "filter (holds rpc cl n pid) (butlast ?tmp) @ [last ?tmp] = os"
    using assms(7) by (simp add: conj_ac)
  with tmp False prune_empty_filter [OF assms(1,3,6)] assms(1-3) show ?thesis
    by (simp add: distributePrimaryCopies_def with_node_Some Let_def)
qed

text \<open>The question through the wire.\<close>

definition empty_question :: "part_id \<Rightarrow> message" where
  "empty_question pid = empty_message\<lparr>Extra := Some (IsPartEmptyExtra pid)\<rparr>"

lemma empty_question_wire:
  assumes "0 \<le> maxv"
  shows "wire_ok maxv ((empty_question pid)\<lparr>Magic := MagicReq, Op := op_byte OpIsPartEmpty\<rparr>)"
    "extra_ok ((empty_question pid)\<lparr>Magic := MagicReq, Op := op_byte OpIsPartEmpty\<rparr>)"
    "wire_ok maxv (message_Success m)" "extra_ok (message_Success m)"
    "wire_ok maxv (message_Error m st [])" "extra_ok (message_Error m st [])"
  using assms by (simp_all add: wire_ok_def extra_ok_def empty_question_def empty_message_def message_Success_def
      message_Error_def string_bytes_def)

lemma ask_empty:
  assumes "cl me = Some n" "0 \<le> n_max n" and "cl (hName m) = Some no" "0 \<le> n_max no" and "n_parts no pid = Some p"
  shows "\<exists>r. requestTo (wire_rpc (Suc k) w me) cl m OpIsPartEmpty (empty_question pid) = Done (cl, r) \<and>
    ((\<exists>e. r = Inl e) \<longleftrightarrow> p_count p \<noteq> 0)"
proof -
  let ?req = "set_lengths ((empty_question pid)\<lparr>Magic := MagicReq, Op := op_byte OpIsPartEmpty\<rparr>)"
  let ?resp = "if p_count p = 0 then message_Success ?req else message_Error ?req StatusPartNotEmpty []"
  have d: "dispatch w (wire_rpc k w (hName m)) cl (hName m) ?req OpIsPartEmpty = Done (cl, ?resp)"
    using assms(3,5)
    by (simp add: isPartEmptyOperation_def is_empty_operation_def with_node_Some node_part_def empty_question_def)
  have "wire_ok (n_max n) ?resp" "extra_ok ?resp" using empty_question_wire(3-6) [OF assms(2)] by simp_all
  then have eq: "requestTo (wire_rpc (Suc k) w me) cl m OpIsPartEmpty (empty_question pid) =
      (case response_error ?resp of Some e \<Rightarrow> fail cl e | None \<Rightarrow> ret cl (set_lengths ?resp))"
    by (rule wire.requestTo_delivered [OF assms(3) empty_question_wire(1,2) [OF assms(4)] d assms(1)])
  show ?thesis unfolding eq by (cases "p_count p = 0") (simp_all add: ret_def fail_def)
qed

definition part_count :: "node \<Rightarrow> part_id \<Rightarrow> int" where
  "part_count n pid = (case n_parts n pid of None \<Rightarrow> 0 | Some p \<Rightarrow> p_count p)"

lemma wire_answers:
  assumes me: "cl me = Some n" "hName (n_this n) = me"
    and nodes: "\<And>x no. cl x = Some no \<Longrightarrow> n_parts no pid \<noteq> None \<and> 0 \<le> n_max no"
  shows "answers (wire_rpc (Suc k) w me) cl n pid"
    and "holds (wire_rpc (Suc k) w me) cl n pid m \<longleftrightarrow>
      (case cl (hName m) of None \<Rightarrow> True | Some no \<Rightarrow> part_count no pid \<noteq> 0)"
proof -
  have ask: "\<exists>r. requestTo (wire_rpc (Suc k) w me) cl m OpIsPartEmpty (empty_question pid) = Done (cl, r) \<and>
      ((\<exists>e. r = Inl e) \<longleftrightarrow> (case cl (hName m) of None \<Rightarrow> True | Some no \<Rightarrow> part_count no pid \<noteq> 0))" for m
  proof (cases "cl (hName m)")
    case None
    then show ?thesis by (simp add: requestTo_def fail_def bind_op_def)
  next
    case (Some no)
    with nodes obtain p where "n_parts no pid = Some p" by blast
    moreover have "0 \<le> n_max n" "0 \<le> n_max no" using nodes me(1) Some by blast+
    moreover from calculation(1) have "part_count no pid = p_count p" by (simp add: part_count_def)
    ultimately show ?thesis
      using ask_empty [where cl = cl and me = me and m = m and k = k and w = w, OF me(1) _ Some] Some
      by (simp only: option.case)
  qed
  show "answers (wire_rpc (Suc k) w me) cl n pid"
    using ask unfolding answers_def empty_question_def by blast
  show "holds (wire_rpc (Suc k) w me) cl n pid m \<longleftrightarrow>
      (case cl (hName m) of None \<Rightarrow> True | Some no \<Rightarrow> part_count no pid \<noteq> 0)"
  proof (cases "m = n_this n")
    case True
    then show ?thesis using me by (simp add: holds_def part_count_def split: option.split)
  next
    case False
    with ask [of m] show ?thesis unfolding holds_def empty_question_def by auto
  qed
qed

section \<open>A moved DMap\<close>

lemma mergeDMaps_new:
  assumes "cl me = Some n" and "n_parts n pid = Some p" and "fmlookup (p_m p) name = None"
    and "storage_Import (w_import w) (w_os w) payload = Ret (Inr str)"
    and "dm = \<lparr>d_mx = False, d_locker = (if p_backup p then None else Some newLocker), d_oplog = None, d_str = str\<rparr>"
    and "n' = n\<lparr>n_parts := (n_parts n)(pid \<mapsto> p\<lparr>p_m := fmupd name dm (p_m p)\<rparr>)\<rparr>"
  shows "mergeDMaps w cl me False \<lparr>b_PartID = pid, b_Name = name, b_Payload = payload\<rparr> = ret (cl(me \<mapsto> n')) ()"
  using assms by (simp add: mergeDMaps_def with_node_Some node_part_def set_part_def Let_def)

section \<open>Properties\<close>

text \<open>C13. There is one coordinator: nodes that know the same members, in whatever order their member lists
  give them, elect the same host, the oldest one, when no two members have the same birth
  date; so two nodes with different names are never both the coordinator.\<close>

theorem coordinator_unique:
  assumes "sort_ok w" "sort_ok w'" and "mset (n_members a) = mset (n_members b)" and "n_members a \<noteq> []"
    and "distinct (map hBirthdate (n_members a))"
  shows "\<exists>m. getCoordinator w a = Ret m \<and> getCoordinator w' b = Ret m \<and> m \<in> set (n_members a) \<and>
    (\<forall>x \<in> set (n_members a). hBirthdate m \<le> hBirthdate x) \<and>
    (isCoordinator w a = Ret True \<and> isCoordinator w' b = Ret True \<longrightarrow> cName (n_cfg a) = cName (n_cfg b))"
proof -
  have set: "set (n_members b) = set (n_members a)" using mset_eq_setD [OF assms(3)] by simp
  then obtain m k where m: "getCoordinator w a = Ret m" and k: "getCoordinator w' b = Ret k"
    using getCoordinator_total assms(1,2,4) by (metis set_empty)
  note ms = getCoordinator_oldest [OF assms(1) m] and ks = getCoordinator_oldest [OF assms(2) k]
  have "hBirthdate m = hBirthdate k" using ms ks set by (simp add: order_antisym)
  moreover have "inj_on hBirthdate (set (n_members a))" using assms(5) by (simp add: distinct_map)
  ultimately have "m = k" using ms(1) ks(1) set by (simp add: inj_on_def)
  then show ?thesis using m k ms by (auto simp: isCoordinator_def)
qed

theorem coordinator_unique_witness:
  "getCoordinator w_mem ((sample_node host_a [])\<lparr>n_members := [host_a, host_b]\<rparr>) =
   getCoordinator w_mem ((sample_node host_b [])\<lparr>n_members := [host_b, host_a]\<rparr>)"
proof -
  have "sort_ok w_mem" by (simp add: sort_ok_def w_mem_def)
  from coordinator_unique [OF this this, of "(sample_node host_a [])\<lparr>n_members := [host_a, host_b]\<rparr>"
      "(sample_node host_b [])\<lparr>n_members := [host_b, host_a]\<rparr>"]
  show ?thesis by (auto simp: host_a_def host_b_def)
qed

text \<open>C12. A round of the coordinator gives a partition the right owners: the owner chosen by the hash ring
  comes last, every other former owner stays exactly when it is a live member that holds
  DMaps of the partition or does not answer, no host is listed twice, and the table for the other
  nodes says the same.\<close>

theorem primary_owners:
  assumes "cl me = Some n" and "hName (n_this n) = me" and "GetPartitionOwner (n_ring n) pid = Some owner"
    and "n_parts n pid = Some p" and "distinct (p_owners p)" and "alive w n owner"
    and "\<And>x no. cl x = Some no \<Longrightarrow> n_parts no pid \<noteq> None \<and> 0 \<le> n_max no"
  shows "\<exists>os. distributePrimaryCopies w (wire_rpc (Suc k) w me) cl me pid rt =
      Done (set_owners cl me False pid os, fmupd pid ((get_route rt pid)\<lparr>r_Owners := os\<rparr>) rt) \<and>
    last os = owner \<and> distinct os \<and>
    (\<forall>m. m \<in> set os \<longleftrightarrow> m = owner \<or> m \<in> set (p_owners p) \<and> alive w n m \<and>
      (case cl (hName m) of None \<Rightarrow> True | Some no \<Rightarrow> part_count no pid \<noteq> 0))"
proof -
  let ?rpc = "wire_rpc (Suc k) w me"
  let ?os = "filter (\<lambda>m. m \<noteq> owner \<and> alive w n m \<and> holds ?rpc cl n pid m) (p_owners p) @ [owner]"
  have ans: "answers ?rpc cl n pid" using assms(1,2,7) by (rule wire_answers)
  have h: "holds ?rpc cl n pid m \<longleftrightarrow> (case cl (hName m) of None \<Rightarrow> True | Some no \<Rightarrow> part_count no pid \<noteq> 0)" for m
    using assms(1,2,7) by (rule wire_answers)
  have "distributePrimaryCopies w ?rpc cl me pid rt =
      Done (set_owners cl me False pid ?os, fmupd pid ((get_route rt pid)\<lparr>r_Owners := ?os\<rparr>) rt)"
    using distribute_owners [OF assms(1,3-6) ans refl] .
  moreover have "distinct ?os" "last ?os = owner" using assms(5) by simp_all
  moreover have "m \<in> set ?os \<longleftrightarrow> m = owner \<or> m \<in> set (p_owners p) \<and> alive w n m \<and>
      (case cl (hName m) of None \<Rightarrow> True | Some no \<Rightarrow> part_count no pid \<noteq> 0)" for m
    using h by auto
  ultimately show ?thesis by blast
qed

theorem primary_owners_witness:
  "\<exists>cl os rt. distributePrimaryCopies w_mem (wire_rpc 1 w_mem [98]) cl [98] 0 fmempty =
      Done (set_owners cl [98] False 0 os, rt) \<and> last os = host_b \<and> distinct os \<and> host_a \<in> set os"
proof -
  define nb where "nb = (sample_node host_b [host_a])\<lparr>n_members := [host_a, host_b], n_ring := (consistent_New 1 20 (5 / 4))\<lparr>cs_partitions := fmupd 0 host_b fmempty\<rparr>\<rparr>"
  define na where "na = (sample_node host_a [host_a])\<lparr>n_parts := [0 \<mapsto> (new_partition 0 False)\<lparr>p_count := 1\<rparr>]\<rparr>"
  define cl :: cluster where "cl = [[97] \<mapsto> na, [98] \<mapsto> nb]"
  have parts: "n_parts nb 0 = Some ((new_partition 0 False)\<lparr>p_owners := [host_a]\<rparr>)"
    "n_parts na 0 = Some ((new_partition 0 False)\<lparr>p_count := 1\<rparr>)" by (simp_all add: nb_def na_def sample_node_def)
  have max: "0 \<le> n_max nb" "0 \<le> n_max na" by (simp_all add: nb_def na_def sample_node_def DefaultMaxValueSize_def)
  have nodes: "n_parts no 0 \<noteq> None \<and> 0 \<le> n_max no" if "cl x = Some no" for x no
    using that parts max by (auto simp: cl_def split: if_splits)
  have al: "alive w_mem nb host_a" "alive w_mem nb host_b"
    by (simp_all add: alive_def findMember_def getMembers_def nb_def w_mem_def host_a_def host_b_def)
  have b: "cl [98] = Some nb" "hName (n_this nb) = [98]" "GetPartitionOwner (n_ring nb) 0 = Some host_b"
    by (simp_all add: cl_def nb_def sample_node_def host_b_def GetPartitionOwner_def)
  have "distinct (p_owners ((new_partition 0 False)\<lparr>p_owners := [host_a]\<rparr>))" by simp
  from primary_owners [where cl = cl and me = "[98]" and k = 0 and rt = fmempty, OF b parts(1) this al(2)] nodes
  obtain os where os: "distributePrimaryCopies w_mem (wire_rpc (Suc 0) w_mem [98]) cl [98] 0 fmempty =
      Done (set_owners cl [98] False 0 os, fmupd 0 ((get_route fmempty 0)\<lparr>r_Owners := os\<rparr>) fmempty)"
    "last os = host_b" "distinct os"
    "\<forall>m. m \<in> set os \<longleftrightarrow> m = host_b \<or> m \<in> set (p_owners ((new_partition 0 False)\<lparr>p_owners := [host_a]\<rparr>)) \<and>
      alive w_mem nb m \<and> (case cl (hName m) of None \<Rightarrow> True | Some no \<Rightarrow> part_count no 0 \<noteq> 0)" by blast
  have "cl (hName host_a) = Some na" "part_count na 0 \<noteq> 0"
    using parts(2) by (simp_all add: cl_def host_a_def part_count_def)
  then have "host_a \<in> set os" using os(4) al(1) by simp
  with os(1-3) show ?thesis by auto
qed



text \<open>A DMap that was moved to a node is not counted there: the node stores it with its contents, but
  still says that its partition is empty, and its own check of the partitions skips it, so
  the next rounds drop the node from the owners and never move the DMap on.\<close>

theorem moved_dmap_uncounted:
  assumes "cl me = Some n" and "n_parts n pid = Some p" and "p_count p = 0" and "fmlookup (p_m p) name = None"
    and "storage_Import (w_import w) (w_os w) payload = Ret (Inr str)"
  shows "\<exists>cl' n' dm. mergeDMaps w cl me False \<lparr>b_PartID = pid, b_Name = name, b_Payload = payload\<rparr> = ret cl' () \<and>
    cl' me = Some n' \<and> node_dmap n' False pid name = Some dm \<and> d_str dm = str \<and>
    isPartEmptyOperation cl' me (req\<lparr>Extra := Some (IsPartEmptyExtra pid)\<rparr>) =
      Done (cl', message_Success (req\<lparr>Extra := Some (IsPartEmptyExtra pid)\<rparr>)) \<and>
    fsck_primary w rpc cl' me [pid] = Done cl'"
proof -
  define dm where "dm = \<lparr>d_mx = False, d_locker = (if p_backup p then None else Some newLocker), d_oplog = None, d_str = str\<rparr>"
  define n' where "n' = n\<lparr>n_parts := (n_parts n)(pid \<mapsto> p\<lparr>p_m := fmupd name dm (p_m p)\<rparr>)\<rparr>"
  have p': "n_parts n' pid = Some (p\<lparr>p_m := fmupd name dm (p_m p)\<rparr>)" by (simp add: n'_def)
  have "mergeDMaps w cl me False \<lparr>b_PartID = pid, b_Name = name, b_Payload = payload\<rparr> = ret (cl(me \<mapsto> n')) ()"
    using mergeDMaps_new [where cl = cl and me = me, OF assms(1,2,4,5) dm_def n'_def] .
  moreover have "node_dmap n' False pid name = Some dm" "d_str dm = str"
    using p' by (simp_all add: node_dmap_def node_part_def dm_def)
  moreover have "isPartEmptyOperation (cl(me \<mapsto> n')) me (req\<lparr>Extra := Some (IsPartEmptyExtra pid)\<rparr>) =
      Done (cl(me \<mapsto> n'), message_Success (req\<lparr>Extra := Some (IsPartEmptyExtra pid)\<rparr>))"
    using p' assms(3) by (simp add: isPartEmptyOperation_def is_empty_operation_def with_node_Some node_part_def)
  moreover have "fsck_primary w rpc (cl(me \<mapsto> n')) me [pid] = Done (cl(me \<mapsto> n'))"
    using p' assms(3) by (simp add: with_node_Some)
  ultimately show ?thesis by (metis fun_upd_same)
qed

theorem moved_dmap_uncounted_witness:
  "\<exists>cl' n' dm. mergeDMaps w_mem sample_cluster [98] False \<lparr>b_PartID = 0, b_Name = [100], b_Payload = []\<rparr> = ret cl' () \<and>
    cl' [98] = Some n' \<and> node_dmap n' False 0 [100] = Some dm \<and> storage_abs (d_str dm) = [7 \<mapsto> entry_a] \<and>
    isPartEmptyOperation cl' [98] (empty_message\<lparr>Extra := Some (IsPartEmptyExtra 0)\<rparr>) =
      Done (cl', message_Success (empty_message\<lparr>Extra := Some (IsPartEmptyExtra 0)\<rparr>))"
proof -
  have t: "table_inv (table_of 7 entry_a)" "table_abs (table_of 7 entry_a) = [7 \<mapsto> entry_a]"
    using table_of_sel(1,2) [of entry_a 7] by (simp_all add: table_of_sel)
  obtain nt where nt: "newTable os_ok (int (allocated (table_of 7 entry_a))) = Inr nt"
    by (auto simp: newTable_def malloc_def Let_def)
  define str where "str = \<lparr>tables = [imported_table nt (exported (table_of 7 entry_a))], merging = False, closed = False\<rparr>"
  have imp: "storage_Import (w_import w_mem) (w_os w_mem) [] = Ret (Inr str)"
    using storage_Import_exported [OF t(1), of "w_import w_mem" "[]" "w_os w_mem"] nt by (simp add: w_mem_def str_def)
  have abs: "storage_abs str = [7 \<mapsto> entry_a]"
    using imported_exported(2) [OF t(1) nt] t(2) by (simp add: str_def storage_abs_def)
  have "n_parts (sample_node host_b [host_b]) 0 = Some ((new_partition 0 False)\<lparr>p_owners := [host_b]\<rparr>)"
    "p_count ((new_partition 0 False)\<lparr>p_owners := [host_b]\<rparr>) = 0"
    "fmlookup (p_m ((new_partition 0 False)\<lparr>p_owners := [host_b]\<rparr>)) [100] = None"
    by (simp_all add: sample_node_def new_partition_def)
  from moved_dmap_uncounted [where cl = sample_cluster and me = "[98]" and req = empty_message and rpc = "wire_rpc 1 w_mem [98]",
      OF sample_cluster_sel(2) this imp] abs
  show ?thesis by blast
qed

end
