(* ===== verification/Eviction_Facts.thy ===== *)
theory Eviction_Facts
  imports Cluster_Facts
begin

text \<open>
  The eviction of expired keys (\<open>dmap_eviction.go\<close>) at a node that is the only owner of its partitions: its loop
  ends and removes nothing but expired entries, as long as no key is held by two tables of the storage. When
  an older table still holds an expired version of a key, the eviction deletes the live one.
\<close>

section \<open>Tables that share no key\<close>

lemma disjoint_abs:
  assumes "storage_inv s" and "disjoint_tables s" and "i < length (tables s)" and "h |\<in>| fmdom (hkeys (tables s ! i))"
  shows "storage_abs s h = table_abs (tables s ! i) h"
proof -
  let ?t = "tables s ! i"
  have ts: "tables s = take i (tables s) @ ?t # drop (Suc i) (tables s)" using assms(3) by (rule id_take_nth_drop)
  have "tables_with (tables s) h \<le> 1" using assms(2) by (simp add: disjoint_tables_def sole_def)
  then have "tables_with (take i (tables s)) h = 0" "tables_with (drop (Suc i) (tables s)) h = 0"
    using assms(4) by (subst (asm) ts, simp)+
  moreover have "\<forall>t \<in> set (take i (tables s)). table_inv t" "\<forall>t \<in> set (drop (Suc i) (tables s)). table_inv t"
    using assms(1) by (auto simp: storage_inv_def dest: in_set_takeD in_set_dropD)
  ultimately have "tables_abs (take i (tables s)) h = None" "tables_abs (drop (Suc i) (tables s)) h = None"
    by (simp_all add: tables_abs_None)
  then show ?thesis unfolding storage_abs_def by (subst ts) (simp add: map_add_def split: option.split)
qed

text \<open>
  From \<open>s\<close> to \<open>s'\<close> exactly \<open>k\<close> keys were removed, all of them expired at the node.
\<close>

definition evicted :: "node \<Rightarrow> storage \<Rightarrow> storage \<Rightarrow> nat \<Rightarrow> bool" where
  "evicted n s s' k \<longleftrightarrow>
     storage_inv s' \<and> disjoint_tables s' \<and> length (tables s) \<le> length (tables s') \<and> storage_abs s' \<subseteq>\<^sub>m storage_abs s \<and>
     (\<forall>h v. storage_abs s h = Some v \<longrightarrow> storage_abs s' h = None \<longrightarrow> isKeyExpired n (vttl v)) \<and>
     card (dom (storage_abs s)) = card (dom (storage_abs s')) + k"

lemma evicted_refl: "storage_inv s \<Longrightarrow> disjoint_tables s \<Longrightarrow> evicted n s s 0"
  by (simp add: evicted_def)

lemma evicted_trans:
  assumes "evicted n s s' k" and "evicted n s' s'' j"
  shows "evicted n s s'' (k + j)"
proof -
  have "isKeyExpired n (vttl v)" if "storage_abs s h = Some v" "storage_abs s'' h = None" for h v
  proof (cases "storage_abs s' h")
    case None
    then show ?thesis using assms(1) that unfolding evicted_def by blast
  next
    case (Some v')
    then have "v' = v" using assms(1) that(1) by (auto simp: evicted_def map_le_def dom_def)
    then show ?thesis using assms(2) Some that(2) unfolding evicted_def by blast
  qed
  then show ?thesis using assms map_le_trans unfolding evicted_def by (auto intro: map_le_trans)
qed

lemma storage_Delete_evicted:
  assumes inv: "storage_inv s" and dis: "disjoint_tables s" and mm: "\<forall>k. mmap_ok os k"
    and v: "storage_abs s h = Some v" "isKeyExpired n (vttl v)"
  shows "\<exists>s'. storage_Delete os s h = Ret (s', None) \<and> evicted n s s' 1"
proof -
  have "sole s h" using dis by (simp add: disjoint_tables_def)
  from storage_Delete_sole [OF inv mm this] obtain s' where
    s': "storage_Delete os s h = Ret (s', None)" "storage_inv s'" "storage_abs s' = (storage_abs s)(h := None)" by blast
  have "disjoint_tables s'"
    using storage_Delete_correct [OF inv s'(1)] dis by (auto simp: disjoint_tables_def sole_def intro: le_trans [OF diff_le_self])
  moreover have "length (tables s) \<le> length (tables s')"
  proof -
    obtain ts where ts: "delete_scan (rev (tables s)) h = Ret ts" "delete_result (rev (tables s)) h ts"
      using inv by (rule storage_Delete_scan)
    then show ?thesis using storage_Delete_shape [OF inv ts(1) s'(1)] by (auto simp: delete_result_def)
  qed
  moreover have "card (dom (storage_abs s)) = card (dom (storage_abs s')) + 1"
    using s'(3) v(1) finite_dom_storage_abs [OF inv] card_Suc_Diff1 [of "dom (storage_abs s)" h] by (auto simp: domI)
  ultimately show ?thesis using s' v(2) v(1) by (auto simp: evicted_def map_le_def split: if_splits)
qed

section \<open>The loops\<close>

definition with_storage :: "cluster \<Rightarrow> addr \<Rightarrow> node \<Rightarrow> part_id \<Rightarrow> bytes \<Rightarrow> dmap \<Rightarrow> storage \<Rightarrow> cluster" where
  "with_storage cl me n pid name dm s = cl(me \<mapsto> put_dmap n False pid name (dm\<lparr>d_str := s\<rparr>))"

lemma with_storage_sel:
  assumes "node_dmap n False pid name = Some dm"
  shows "with_storage cl me n pid name dm s me = Some (put_dmap n False pid name (dm\<lparr>d_str := s\<rparr>))"
    and "node_dmap (put_dmap n False pid name (dm\<lparr>d_str := s\<rparr>)) False pid name = Some (dm\<lparr>d_str := s\<rparr>)"
  using assms by (simp_all add: with_storage_def)

lemma with_storage_dmap:
  assumes "node_dmap n False pid name = Some dm"
  shows "with_dmap (with_storage cl me n pid name dm s) me False pid name f =
    f (put_dmap n False pid name (dm\<lparr>d_str := s\<rparr>)) (dm\<lparr>d_str := s\<rparr>)"
  using with_storage_sel [OF assms] by (simp add: with_dmap_Some)

text \<open>A node that keeps its data in memory without backups and is the only owner of every key.\<close>

definition only_owner :: "world \<Rightarrow> node \<Rightarrow> bool" where
  "only_owner w n \<longleftrightarrow>
     OperationMode (n_cfg n) = OpInMemory \<and> BackupCount (n_cfg n) = 0 \<and> (\<forall>k. mmap_ok (w_os w) k) \<and>
     (\<forall>h. \<exists>ow. getPartitionOwners n h = Some [ow])"

lemma delKeyVal_storage:
  assumes own: "only_owner w n" and dm: "node_dmap n False pid name = Some dm"
    and del: "storage_Delete (w_os w) s h = Ret (s', None)"
  shows "delKeyVal w rpc (with_storage cl me n pid name dm s) me pid h name key = ret (with_storage cl me n pid name dm s') ()"
proof -
  from own obtain ow where ow: "getPartitionOwners n h = Some [ow]" unfolding only_owner_def by blast
  have "OperationMode (n_cfg n) = OpInMemory" "BackupCount (n_cfg n) = 0" using own by (simp_all add: only_owner_def)
  then show ?thesis
    using ow del with_storage_sel [OF dm]
    by (simp add: delKeyVal_def op_simps with_storage_dmap [OF dm] oplog_mem str_delete_def) (simp add: with_storage_def)
qed

lemma delKeyVal_evicts:
  assumes own: "only_owner w n" and dm: "node_dmap n False pid name = Some dm"
    and s: "storage_inv s" "disjoint_tables s" "storage_abs s h = Some v" "isKeyExpired n (vttl v)"
  shows "\<exists>s'. delKeyVal w rpc (with_storage cl me n pid name dm s) me pid h name key =
      ret (with_storage cl me n pid name dm s') () \<and> evicted n s s' 1"
proof -
  have "\<forall>k. mmap_ok (w_os w) k" using own by (simp add: only_owner_def)
  from storage_Delete_evicted [OF s(1,2) this s(3,4)] show ?thesis using delKeyVal_storage [OF own dm] by blast
qed

lemma evict_keys_ok:
  assumes own: "only_owner w n" and dm: "node_dmap n False pid name = Some dm"
  shows "storage_inv s \<Longrightarrow> disjoint_tables s \<Longrightarrow> i < length (tables s) \<Longrightarrow>
    \<exists>s' k kc. evict_keys w rpc (with_storage cl me n pid name dm s) me pid name i hs kcount dcount =
      Done (with_storage cl me n pid name dm s', kc, dcount + k) \<and> evicted n s s' k"
proof (induction hs arbitrary: s kcount dcount)
  case Nil
  then show ?case using evicted_refl by fastforce
next
  case (Cons h hs)
  let ?at = "with_storage cl me n pid name dm" and ?t = "tables s ! i"
  note next_key = Cons.IH [OF Cons.prems]
  show ?case
  proof (cases "h |\<in>| fmdom (hkeys ?t) \<and> kcount + 1 < maxKcount")
    case False
    then show ?thesis
      using Cons.prems next_key evicted_refl [OF Cons.prems(1,2)] by (auto simp: with_storage_dmap [OF dm] intro: exI [of _ 0])
  next
    case True
    have inv: "table_entries_ok ?t" using Cons.prems(1,3) table_invD(3) by (simp add: storage_inv_def)
    with True obtain v where v: "table_abs ?t h = Some v" using table_abs_dom by blast
    then have abs: "storage_abs s h = Some v" using disjoint_abs [OF Cons.prems] True by simp
    show ?thesis
    proof (cases "isKeyExpired n (vttl v)")
      case False
      then show ?thesis
        using True v inv Cons.prems(3) next_key by (simp add: with_storage_dmap [OF dm] table_get_abs)
    next
      case exp: True
      from delKeyVal_evicts [OF own dm Cons.prems(1,2) abs exp, of rpc cl me "vkey v"] obtain s1 where
        s1: "delKeyVal w rpc (?at s) me pid h name (vkey v) = ret (?at s1) ()" "evicted n s s1 1" by blast
      then have "storage_inv s1" "disjoint_tables s1" "i < length (tables s1)" using Cons.prems(3) by (auto simp: evicted_def)
      from Cons.IH [OF this, of "kcount + 1" "dcount + 1"] obtain s' k kc where
        s': "evict_keys w rpc (?at s1) me pid name i hs (kcount + 1) (dcount + 1) = Done (?at s', kc, dcount + 1 + k)"
          "evicted n s1 s' k" by blast
      have "evict_keys w rpc (?at s) me pid name i (h # hs) kcount dcount = Done (?at s', kc, dcount + (1 + k))"
        using True v inv exp Cons.prems(3) s1(1) s'(1) by (simp add: with_storage_dmap [OF dm] table_get_abs ret_def)
      with evicted_trans [OF s1(2) s'(2)] show ?thesis by blast
    qed
  qed
qed

lemma evict_tables_ok:
  assumes own: "only_owner w n" and dm: "node_dmap n False pid name = Some dm"
  shows "storage_inv s \<Longrightarrow> disjoint_tables s \<Longrightarrow> \<forall>i \<in> set is. i < length (tables s) \<Longrightarrow>
    \<exists>s' k. evict_tables w rpc (with_storage cl me n pid name dm s) me pid name is kcount dcount =
      Done (with_storage cl me n pid name dm s', dcount + k) \<and> evicted n s s' k"
proof (induction "is" arbitrary: s kcount dcount)
  case Nil
  then show ?case using evicted_refl by fastforce
next
  case (Cons i "is")
  let ?at = "with_storage cl me n pid name dm"
  have "i < length (tables s)" using Cons.prems(3) by simp
  from evict_keys_ok [OF own dm Cons.prems(1,2) this, of rpc cl me "w_hiter w (hkeys (tables s ! i))" kcount dcount]
  obtain s1 k kc where
    s1: "evict_keys w rpc (?at s) me pid name i (w_hiter w (hkeys (tables s ! i))) kcount dcount = Done (?at s1, kc, dcount + k)"
      "evicted n s s1 k" by blast
  then have "storage_inv s1" "disjoint_tables s1" "\<forall>i \<in> set is. i < length (tables s1)"
    using Cons.prems(3) by (auto simp: evicted_def)
  from Cons.IH [OF this, of kc "dcount + k"] obtain s' j where
    s': "evict_tables w rpc (?at s1) me pid name is kc (dcount + k) = Done (?at s', dcount + k + j)" "evicted n s1 s' j" by blast
  have "evict_tables w rpc (?at s) me pid name (i # is) kcount dcount = Done (?at s', dcount + (k + j))"
    using s1(1) s'(1) by (simp add: with_storage_dmap [OF dm] add.assoc)
  with evicted_trans [OF s1(2) s'(2)] show ?case by blast
qed

lemma evict_round_ok:
  assumes own: "only_owner w n" and dm: "node_dmap n False pid name = Some dm" and s: "storage_inv s" "disjoint_tables s"
  shows "\<exists>s' k. evict_round w rpc (with_storage cl me n pid name dm s) me pid name =
      Done (with_storage cl me n pid name dm s', maxKcount div 4 \<le> k) \<and> evicted n s s' k"
proof -
  have "\<forall>i \<in> set (rev [0..<length (tables s)]). i < length (tables s)" by simp
  from evict_tables_ok [OF own dm s this, of rpc cl me 0 0] obtain s' k where
    "evict_tables w rpc (with_storage cl me n pid name dm s) me pid name (rev [0..<length (tables s)]) 0 0 =
      Done (with_storage cl me n pid name dm s', k)" "evicted n s s' k" by auto
  then show ?thesis using storage_invD(2) [OF s(1)] by (auto simp: evict_round_def with_storage_dmap [OF dm])
qed

text \<open>Every repetition has removed keys, so the loop ends.\<close>

lemma evict_loop_ok:
  assumes own: "only_owner w n" and dm: "node_dmap n False pid name = Some dm"
  shows "storage_inv s \<Longrightarrow> disjoint_tables s \<Longrightarrow>
    \<exists>s' k. evict_loop w rpc (with_storage cl me n pid name dm s) me pid name =
      Some (Done (with_storage cl me n pid name dm s')) \<and> evicted n s s' k"
proof (induction "card (dom (storage_abs s))" arbitrary: s rule: less_induct)
  case less
  from evict_round_ok [OF own dm less.prems, of rpc cl me] obtain s1 k where
    s1: "evict_round w rpc (with_storage cl me n pid name dm s) me pid name =
      Done (with_storage cl me n pid name dm s1, maxKcount div 4 \<le> k)" "evicted n s s1 k" by blast
  show ?case
  proof (cases "maxKcount div 4 \<le> k")
    case True
    then have "card (dom (storage_abs s1)) < card (dom (storage_abs s))" using s1(2) by (simp add: evicted_def maxKcount_def)
    then obtain s' j where s': "evict_loop w rpc (with_storage cl me n pid name dm s1) me pid name =
        Some (Done (with_storage cl me n pid name dm s'))" "evicted n s1 s' j"
      using less.hyps s1(2) unfolding evicted_def by blast
    then show ?thesis using s1 True evicted_trans by (subst evict_loop.simps) fastforce
  next
    case False
    then show ?thesis using s1 by (subst evict_loop.simps) auto
  qed
qed

lemma scanDMapForEviction_loop:
  assumes cl: "cl me = Some n" and dm: "node_dmap n False pid name = Some dm" "\<not> d_mx dm"
    and n1: "n1 = put_dmap n False pid name (dm\<lparr>d_mx := True\<rparr>)"
    and s: "evict_loop w rpc (with_storage cl me n1 pid name (dm\<lparr>d_mx := True\<rparr>) (d_str dm)) me pid name =
      Some (Done (with_storage cl me n1 pid name (dm\<lparr>d_mx := True\<rparr>) s))"
  shows "scanDMapForEviction w rpc cl me pid name = ret (with_storage cl me n pid name dm s) ()"
proof -
  have start: "cl(me \<mapsto> n1) = with_storage cl me n1 pid name (dm\<lparr>d_mx := True\<rparr>) (d_str dm)"
    by (simp add: with_storage_def n1)
  show ?thesis
    using cl dm s start
    by (simp add: scanDMapForEviction_def op_simps n1 [symmetric])
      (simp add: with_storage_def n1 op_simps unlock_dmap_def)
qed

lemma locked_dmap:
  assumes "only_owner w n" and "node_dmap n False pid name = Some dm"
    and "n1 = put_dmap n False pid name (dm\<lparr>d_mx := True\<rparr>)"
  shows "node_dmap n1 False pid name = Some (dm\<lparr>d_mx := True\<rparr>)" and "only_owner w n1"
    and "isKeyExpired n1 = isKeyExpired n"
  using assms by (auto simp: only_owner_def)

lemma scanDMapForEviction_ok:
  assumes own: "only_owner w n" and cl: "cl me = Some n" and wf: "wf_node n" and dm: "node_dmap n False pid name = Some dm"
    and dis: "disjoint_tables (d_str dm)"
  shows "\<exists>s k. scanDMapForEviction w rpc cl me pid name = ret (with_storage cl me n pid name dm s) () \<and>
    evicted n (d_str dm) s k"
proof -
  have inv: "storage_inv (d_str dm)" and mx: "\<not> d_mx dm" using wf dm unfolding wf_node_def by blast+
  define n1 where "n1 = put_dmap n False pid name (dm\<lparr>d_mx := True\<rparr>)"
  note n1 = locked_dmap [OF own dm n1_def]
  from evict_loop_ok [OF n1(2,1) inv dis, of rpc cl me] obtain s k where
    s: "evict_loop w rpc (with_storage cl me n1 pid name (dm\<lparr>d_mx := True\<rparr>) (d_str dm)) me pid name =
        Some (Done (with_storage cl me n1 pid name (dm\<lparr>d_mx := True\<rparr>) s))" "evicted n1 (d_str dm) s k" by blast
  have "evicted n (d_str dm) s k" using s(2) by (simp add: evicted_def n1(3))
  with scanDMapForEviction_loop [where cl = cl and me = me, OF cl dm mx n1_def s(1)] show ?thesis by blast
qed

text \<open>A round over two tables that both hold one key, whose older version is expired.\<close>

lemma evict_round_shared:
  assumes own: "only_owner w n" and dm: "node_dmap n False pid name = Some dm" and s: "storage_inv s" "tables s = [old, new]"
    and keys: "w_hiter w (hkeys old) = [h]" "w_hiter w (hkeys new) = [h]" "h |\<in>| fmdom (hkeys old)" "h |\<in>| fmdom (hkeys new)"
    and v: "table_abs old h = Some v" "isKeyExpired n (vttl v)" and v': "table_abs new h = Some v'" "\<not> isKeyExpired n (vttl v')"
    and s': "storage_Delete (w_os w) s h = Ret (s', None)" "tables s' = [old, new']"
  shows "evict_round w rpc (with_storage cl me n pid name dm s) me pid name = Done (with_storage cl me n pid name dm s', False)"
proof -
  have "table_get old h = Ret (Some v)" "table_get new h = Ret (Some v')"
    using s v(1) v'(1) table_get_abs [OF table_invD(3)] by (simp_all add: storage_inv_def)
  then show ?thesis
    using s(2) keys v(2) v'(2) s'(2) delKeyVal_storage [OF own dm s'(1)]
    by (simp add: evict_round_def with_storage_dmap [OF dm] maxKcount_def op_simps)
qed

section \<open>A node with expired entries\<close>

definition entry_old :: vdata where
  "entry_old = \<lparr>vkey = [107], vttl = 1, vvalue = [4]\<rparr>"

text \<open>The clock shows five seconds, so the limit of one millisecond is over.\<close>

definition evict_dmap :: "storage \<Rightarrow> dmap" where
  "evict_dmap s = \<lparr>d_mx = False, d_locker = Some newLocker, d_oplog = None, d_str = s\<rparr>"

definition evict_node :: "storage \<Rightarrow> node" where
  "evict_node s =
     (set_part (sample_node host_b [host_b]) False 0
       ((new_partition 0 False)\<lparr>p_owners := [host_b], p_m := fmupd [100] (evict_dmap s) fmempty, p_count := 1\<rparr>))
     \<lparr>n_now := 5000000000\<rparr>"

lemma node_dmap_now [simp]: "node_dmap (n\<lparr>n_now := t\<rparr>) bk pid name = node_dmap n bk pid name"
  by (simp add: node_dmap_def node_part_def)

lemma evict_node_sel [simp]:
  "node_dmap (evict_node s) bk pid name = (if \<not> bk \<and> pid = 0 \<and> name = [100] then Some (evict_dmap s) else None)"
  "getPartitionID (evict_node s) h = 0" "d_str (evict_dmap s) = s" "\<not> d_mx (evict_dmap s)"
  "isKeyExpired (evict_node s) t \<longleftrightarrow> t \<noteq> 0 \<and> sint t \<le> 5000"
  by (auto simp: evict_node_def evict_dmap_def isKeyExpired_def to_millis_def getPartitionID_def)

lemma entry_old_ok: "valid_vdata entry_old" "entry_size entry_old < minimumSize"
  by (simp_all add: entry_old_def valid_vdata_def entry_size_def maxKeyLen_def minimumSize_def)

lemmas old_table = table_of_sel [OF entry_old_ok]
lemmas new_table = table_of_sel [OF entries_valid(2) entries_small(2)]

lemma evict_node_ok:
  assumes "storage_inv s"
  shows "wf_node (evict_node s)" and "only_owner w_mem (evict_node s)"
proof -
  have "storage_inv (d_str dm) \<and> \<not> d_mx dm" if "node_dmap (evict_node s) bk pid name = Some dm" for bk pid name dm
    using that assms by (auto split: if_splits)
  moreover have "pid < PartitionCount (n_cfg (evict_node s)) \<longrightarrow> node_part (evict_node s) bk pid \<noteq> None" for bk pid
    by (auto simp: evict_node_def node_part_def set_part_def word_lt_1)
  moreover have "PartitionCount (n_cfg (evict_node s)) \<noteq> 0" by (simp add: evict_node_def)
  ultimately show "wf_node (evict_node s)" unfolding wf_node_def by blast
  show "only_owner w_mem (evict_node s)"
    by (simp add: only_owner_def evict_node_def getPartitionOwners_def getPartitionID_def set_part_def w_mem_def zero_config_def)
qed

section \<open>Properties\<close>



text \<open>C33. The eviction can delete a live key: when the older of two tables still holds an expired version of
  a key that was written again without a limit, the scan finds the old version and deletes the key, which removes
  the new one; a get found the new value before and finds nothing after.\<close>

theorem eviction_deletes_live:
  assumes "only_owner w n" and "cl me = Some n" and "wf_node n" and "node_dmap n False (getPartitionID n h) name = Some dm"
    and "iter_ok (w_hiter w)" and "tables (d_str dm) = [old, new]" "fmdom (hkeys old) = {|h|}" "fmdom (hkeys new) = {|h|}"
    and "table_abs old h = Some v" "isKeyExpired n (vttl v)" and "table_abs new h = Some v'" "\<not> isKeyExpired n (vttl v')"
  shows "\<exists>n'. scanDMapForEviction w rpc cl me (getPartitionID n h) name = ret (cl(me \<mapsto> n')) () \<and>
    live_value n False name h = Some (vvalue v') \<and> live_value n' False name h = None"
proof -
  let ?s = "d_str dm" and ?pid = "getPartitionID n h"
  have inv: "storage_inv ?s" and mx: "\<not> d_mx dm" using assms(3,4) unfolding wf_node_def by blast+
  have "w_hiter w m = [h]" if "fmdom m = {|h|}" for m
  proof -
    have m: "distinct (w_hiter w m)" "set (w_hiter w m) = {h}" using assms(5) that by (simp_all add: iter_ok_def fmdom'_alt_def)
    then have "length (w_hiter w m) = 1" using distinct_card by fastforce
    with m(2) show ?thesis by (cases "w_hiter w m") auto
  qed
  note keys = this [OF assms(7)] this [OF assms(8)]
  define s' where "s' = ?s\<lparr>tables := [old, table_drop new h]\<rparr>"
  have del: "storage_Delete (w_os w) ?s h = Ret (s', None)"
    using inv assms(6,8) table_delete_eq [OF table_invD(3), of new h] by (simp add: storage_Delete_def storage_inv_def s'_def)
  define n1 where "n1 = put_dmap n False ?pid name (dm\<lparr>d_mx := True\<rparr>)"
  note n1 = locked_dmap [OF assms(1,4) n1_def]
  have "evict_round w rpc (with_storage cl me n1 ?pid name (dm\<lparr>d_mx := True\<rparr>) ?s) me ?pid name =
      Done (with_storage cl me n1 ?pid name (dm\<lparr>d_mx := True\<rparr>) s', False)"
    by (rule evict_round_shared [OF n1(2,1) inv assms(6) keys _ _ assms(9) _ assms(11) _ del])
      (simp_all add: assms(7,8,10,12) n1(3) s'_def)
  then have "evict_loop w rpc (with_storage cl me n1 ?pid name (dm\<lparr>d_mx := True\<rparr>) ?s) me ?pid name =
      Some (Done (with_storage cl me n1 ?pid name (dm\<lparr>d_mx := True\<rparr>) s'))" by (subst evict_loop.simps) simp
  from scanDMapForEviction_loop [where cl = cl and me = me, OF assms(2,4) mx n1_def this]
  have "scanDMapForEviction w rpc cl me ?pid name = ret (with_storage cl me n ?pid name dm s') ()" .
  moreover have "storage_abs ?s h = Some v'" using assms(6,11) by (simp add: storage_abs_def)
  moreover have "storage_abs s' h = Some v"
    using storage_Delete_correct [OF inv del] assms(6,8,9) by simp
  ultimately show ?thesis
    using assms(4,10,12) by (intro exI [of _ "put_dmap n False ?pid name (dm\<lparr>d_str := s'\<rparr>)"])
      (simp add: with_storage_def live_value_def node_entry_def)
qed

theorem eviction_deletes_live_witness:
  "\<exists>n'. scanDMapForEviction w_mem (wire_rpc 1 w_mem [98])
      [[98] \<mapsto> evict_node (storage_of [table_of 7 entry_old, table_of 7 entry_b])] [98] 0 [100] = ret [[98] \<mapsto> n'] () \<and>
    live_value (evict_node (storage_of [table_of 7 entry_old, table_of 7 entry_b])) False [100] 7 = Some [9] \<and>
    live_value n' False [100] 7 = None"
proof -
  let ?s = "storage_of [table_of 7 entry_old, table_of 7 entry_b]"
  have inv: "storage_inv ?s" by (simp add: old_table new_table)
  have "iter_ok (w_hiter w_mem)" by (simp add: w_mem_def iter_sorted_ok)
  moreover have "isKeyExpired (evict_node ?s) (vttl entry_old)" "\<not> isKeyExpired (evict_node ?s) (vttl entry_b)"
    "vvalue entry_b = [9]" by (simp_all add: entry_old_def entry_b_def)
  ultimately show ?thesis
    using eviction_deletes_live [where n = "evict_node ?s" and h = 7 and cl = "[[98] \<mapsto> evict_node ?s]" and me = "[98]"
        and name = "[100]" and dm = "evict_dmap ?s" and old = "table_of 7 entry_old" and new = "table_of 7 entry_b"
        and v = entry_old and v' = entry_b and rpc = "wire_rpc 1 w_mem [98]", OF evict_node_ok(2) [OF inv] _ evict_node_ok(1) [OF inv]]
    by (simp add: old_table new_table)
qed

end
