(* ===== verification/Janitor_Facts.thy ===== *)
theory Janitor_Facts
  imports Atomic_Facts
begin

text \<open>
  The janitor of \<open>dmap_delete.go\<close> that removes empty DMaps: no entry is lost, but the locks of the DMap are.
\<close>

section \<open>One DMap\<close>

lemma storage_Len_0:
  assumes "storage_inv s" and "storage_Len s = 0"
  shows "storage_abs s = Map.empty"
proof -
  have "card (dom (storage_abs s)) \<le> storage_Len s"
    using assms(1) card_le_Len [of "tables s"] by (simp add: storage_Len_def storage_abs_def storage_inv_def dom_tables_abs)
  then show ?thesis using assms finite_dom_storage_abs by simp
qed

lemma storage_Close_ok:
  assumes "\<forall>k. munmap_ok os k"
  shows "snd (storage_Close os s) = None"
proof -
  have "close_tables os ts = None" for ts using assms by (induction ts) (simp_all add: table_close_def)
  then show ?thesis by (simp add: storage_Close_def Let_def)
qed

definition drop_dmap :: "node \<Rightarrow> bool \<Rightarrow> part_id \<Rightarrow> partition \<Rightarrow> bytes \<Rightarrow> node" where
  "drop_dmap n bk pid p name = set_part n bk pid (p\<lparr>p_m := fmdrop name (p_m p), p_count := p_count p - 1\<rparr>)"

lemma delete_stale_eq:
  assumes cl: "cl me = Some n" and p: "node_part n bk pid = Some p" and dm: "fmlookup (p_m p) name = Some dm"
    and mx: "\<not> d_mx dm" and mem: "OperationMode (n_cfg n) = OpInMemory" and um: "\<forall>k. munmap_ok (w_os w) k"
  shows "delete_stale w cl me bk pid name =
    ret (if storage_Len (d_str dm) = 0 then cl(me \<mapsto> drop_dmap n bk pid p name) else cl) ()"
proof -
  have d: "node_dmap n bk pid name = Some dm" using p dm by (simp add: node_dmap_def)
  define n1 where "n1 = put_dmap n bk pid name (dm\<lparr>d_mx := True\<rparr>)"
  define p1 where "p1 = p\<lparr>p_m := fmupd name (dm\<lparr>d_mx := True\<rparr>) (p_m p)\<rparr>"
  have n1: "n1 = set_part n bk pid p1" using p by (simp add: n1_def p1_def put_dmap_eq)
  have part: "node_part n1 bk pid = Some p1" "node_dmap n1 bk pid name = Some (dm\<lparr>d_mx := True\<rparr>)" "n_cfg n1 = n_cfg n"
    by (simp_all add: n1 p1_def)
  have body: "with_dmap (cl(me \<mapsto> n1)) me bk pid name f = f n1 (dm\<lparr>d_mx := True\<rparr>)" for f
    using part(2) by (simp add: with_dmap_Some)
  obtain s where s: "storage_Close (w_os w) (d_str dm) = (s, None)"
    using storage_Close_ok [OF um, of "d_str dm"] by (metis prod.collapse)
  have drop: "fmdrop name (p_m p1) = fmdrop name (p_m p)" "p_count p1 = p_count p" "p1\<lparr>p_m := x, p_count := y\<rparr> = p\<lparr>p_m := x, p_count := y\<rparr>"
    for x y by (rule fmap_ext, simp_all add: p1_def)
  have same: "put_dmap n1 bk pid name (dm\<lparr>d_mx := False\<rparr>) = n" using d mx by (simp add: n1_def op_simps put_dmap_same)
  have gone: "node_dmap (drop_dmap n bk pid p name) bk pid name = None" by (simp add: drop_dmap_def)
  have upd: "set_part (put_dmap n1 bk pid name x) bk pid q = set_part n bk pid q" for x q
    unfolding put_dmap_eq [OF part(1)] unfolding n1 by simp
  show ?thesis
    unfolding delete_stale_def locked_eq [where cl = cl and me = me, OF cl d mx] n1_def [symmetric] body
    using part s mem drop same gone upd cl by (auto simp: op_simps unlock_dmap_def drop_dmap_def Let_def fun_upd_idem)
qed

lemma drop_dmap_ok:
  assumes wf: "wf_node n" and p: "node_part n bk pid = Some p" "fmlookup (p_m p) name = Some dm"
    and empty: "storage_abs (d_str dm) = Map.empty"
  shows "wf_node (drop_dmap n bk pid p name)" and "frame n (drop_dmap n bk pid p name)"
    and "node_entry (drop_dmap n bk pid p name) = node_entry n"
proof -
  show "frame n (drop_dmap n bk pid p name)" using p(1) unfolding drop_dmap_def by (rule frame_set_part) simp
  have d: "node_dmap (drop_dmap n bk pid p name) bk' pid' nm =
      (if bk' = bk \<and> pid' = pid \<and> nm = name then None else node_dmap n bk' pid' nm)" for bk' pid' nm
    using p(1) by (auto simp: drop_dmap_def node_dmap_def)
  then show "wf_node (drop_dmap n bk pid p name)"
    using wf unfolding wf_node_def by (auto simp: drop_dmap_def split: if_splits)
  have "node_dmap n bk pid name = Some dm" using p by (simp add: node_dmap_def)
  then show "node_entry (drop_dmap n bk pid p name) = node_entry n"
    using d empty by (intro ext) (auto simp: node_entry_def drop_dmap_def)
qed

section \<open>All DMaps\<close>

lemma stale_dmaps_ok:
  assumes "\<forall>k. munmap_ok (w_os w) k" and "distinct names"
  shows "cl me = Some n \<Longrightarrow> wf_node n \<Longrightarrow> OperationMode (n_cfg n) = OpInMemory \<Longrightarrow>
    \<forall>name \<in> set names. node_dmap n bk pid name \<noteq> None \<Longrightarrow>
    \<exists>n'. stale_dmaps w cl me bk pid names = Done (cl(me \<mapsto> n')) \<and> wf_node n' \<and> frame n n' \<and> node_entry n' = node_entry n"
  using assms(2)
proof (induction names arbitrary: cl n)
  case Nil
  then show ?case by (intro exI [of _ n]) (simp add: fun_upd_idem)
next
  case (Cons name names)
  from Cons.prems(4) obtain p dm where p: "node_part n bk pid = Some p" "fmlookup (p_m p) name = Some dm"
    by (auto simp: node_dmap_def split: option.splits)
  then have dm: "node_dmap n bk pid name = Some dm" by (simp add: node_dmap_def)
  then have inv: "storage_inv (d_str dm)" "\<not> d_mx dm" using Cons.prems(2) unfolding wf_node_def by blast+
  note step = delete_stale_eq [where cl = cl and me = me, OF Cons.prems(1) p inv(2) Cons.prems(3) assms(1)]
  show ?case
  proof (cases "storage_Len (d_str dm) = 0")
    case True
    let ?n = "drop_dmap n bk pid p name"
    note drop = drop_dmap_ok [OF Cons.prems(2) p storage_Len_0 [OF inv(1) True]]
    have "\<forall>nm \<in> set names. node_dmap ?n bk pid nm \<noteq> None" "(cl(me \<mapsto> ?n)) me = Some ?n" "distinct names"
      "OperationMode (n_cfg ?n) = OpInMemory"
      using Cons.prems(3-5) p(1) frameD(2) [OF drop(2)] by (auto simp: drop_dmap_def node_dmap_def)
    from Cons.IH [of "cl(me \<mapsto> ?n)" ?n, OF this(2) drop(1) this(4,1,3)]
    obtain n' where "stale_dmaps w (cl(me \<mapsto> ?n)) me bk pid names = Done (cl(me \<mapsto> n'))" "wf_node n'" "frame ?n n'"
      "node_entry n' = node_entry ?n" unfolding fun_upd_upd by blast
    then show ?thesis
      using step True drop frame_trans [OF drop(2)] by (intro exI [of _ n']) (simp add: ret_def del: fun_upd_apply)
  next
    case False
    then show ?thesis using step Cons.IH [of cl n, OF Cons.prems(1-3)] Cons.prems(4,5) by (simp add: ret_def del: fun_upd_apply)
  qed
qed

text \<open>The order in which the janitor visits the DMaps of a partition: each of them at most once.\<close>

definition visits_once :: "(bytes fset \<Rightarrow> bytes list) \<Rightarrow> bool" where
  "visits_once iter \<longleftrightarrow> (\<forall>S. distinct (iter S) \<and> set (iter S) \<subseteq> fset S)"

lemma stale_names_ok:
  assumes "\<forall>k. munmap_ok (w_os w) k" and "visits_once (w_diter w)" and "cl me = Some n" "wf_node n"
    "OperationMode (n_cfg n) = OpInMemory"
  shows "\<exists>n'. stale_dmaps w cl me bk pid (dmap_names w n bk pid) = Done (cl(me \<mapsto> n')) \<and> wf_node n' \<and> frame n n' \<and>
    node_entry n' = node_entry n"
proof -
  have "distinct (dmap_names w n bk pid)" using assms(2) by (auto simp: dmap_names_def visits_once_def split: option.split)
  moreover have "\<forall>name \<in> set (dmap_names w n bk pid). node_dmap n bk pid name \<noteq> None"
  proof (cases "node_part n bk pid")
    case (Some p)
    have "set (w_diter w (fmdom (p_m p))) \<subseteq> fset (fmdom (p_m p))" using assms(2) by (simp add: visits_once_def)
    then show ?thesis using Some by (auto simp: dmap_names_def node_dmap_def)
  qed (simp add: dmap_names_def)
  ultimately show ?thesis using stale_dmaps_ok [where cl = cl and me = me, OF assms(1)] assms(3-5) by blast
qed

lemma stale_parts_ok:
  assumes "\<forall>k. munmap_ok (w_os w) k" and "visits_once (w_diter w)"
  shows "cl me = Some n \<Longrightarrow> wf_node n \<Longrightarrow> OperationMode (n_cfg n) = OpInMemory \<Longrightarrow>
    \<forall>pid \<in> set pids. pid < PartitionCount (n_cfg n) \<Longrightarrow>
    \<exists>n'. stale_parts w cl me pids = Done (cl(me \<mapsto> n')) \<and> wf_node n' \<and> frame n n' \<and> node_entry n' = node_entry n"
proof (induction pids arbitrary: cl n)
  case Nil
  then show ?case by (intro exI [of _ n]) (simp add: fun_upd_idem)
next
  case (Cons pid pids)
  have "node_part n bk pid \<noteq> None" for bk using Cons.prems(2,4) unfolding wf_node_def by simp
  from this [of False] this [of True] have parts: "n_parts n pid \<noteq> None" "n_backups n pid \<noteq> None" by (simp_all add: node_part_def)
  from stale_names_ok [where cl = cl and me = me, OF assms Cons.prems(1-3), of False pid] obtain n1 where
    n1: "stale_dmaps w cl me False pid (dmap_names w n False pid) = Done (cl(me \<mapsto> n1))" "wf_node n1" "frame n n1"
      "node_entry n1 = node_entry n" by blast
  from stale_names_ok [where cl = "cl(me \<mapsto> n1)" and me = me and n = n1, OF assms _ n1(2), of True pid] frameD(2) [OF n1(3)] Cons.prems(3)
  obtain n2 where
    n2: "stale_dmaps w (cl(me \<mapsto> n1)) me True pid (dmap_names w n1 True pid) = Done (cl(me \<mapsto> n2))" "wf_node n2" "frame n1 n2"
      "node_entry n2 = node_entry n1" by auto
  have "(cl(me \<mapsto> n2)) me = Some n2" "OperationMode (n_cfg n2) = OpInMemory" "\<forall>pid \<in> set pids. pid < PartitionCount (n_cfg n2)"
    using Cons.prems(3,4) frameD(2) [OF n1(3)] frameD(2) [OF n2(3)] by simp_all
  from Cons.IH [of "cl(me \<mapsto> n2)" n2, OF this(1) n2(2) this(2,3)] obtain n' where
    "stale_parts w (cl(me \<mapsto> n2)) me pids = Done (cl(me \<mapsto> n'))" "wf_node n'" "frame n2 n'" "node_entry n' = node_entry n2"
    unfolding fun_upd_upd by blast
  then show ?case
    using n1 n2 parts Cons.prems(1) frame_trans [OF frame_trans [OF n1(3) n2(3)]]
    by (intro exI [of _ n']) (simp add: with_node_Some del: fun_upd_apply, simp add: with_node_Some)
qed

lemma janitor_safe:
  assumes "\<forall>k. munmap_ok (w_os w) k" and "visits_once (w_diter w)" and "cl me = Some n" "wf_node n"
    and "OperationMode (n_cfg n) = OpInMemory"
  shows "\<exists>n'. deleteStaleDMaps w cl me = Done (cl(me \<mapsto> n')) \<and> wf_node n' \<and> frame n n' \<and> node_entry n' = node_entry n"
proof -
  have "\<forall>pid \<in> set (part_ids n). pid < PartitionCount (n_cfg n)"
    by (auto simp: part_ids_def word_less_nat_alt unat_of_nat intro: le_less_trans [OF mod_less_eq_dividend])
  then show ?thesis
    using stale_parts_ok [where cl = cl and me = me, OF assms] assms(3) by (simp add: deleteStaleDMaps_def with_node_Some)
qed

section \<open>A node with a lock that is held\<close>

definition locked_node :: node where
  "locked_node =
     set_part (sample_node host_b [host_b]) False 0
       ((new_partition 0 False)\<lparr>p_owners := [host_b], p_count := 1, p_m := fmupd [100]
         \<lparr>d_mx = False, d_locker = Some (take_lock newLocker [107]), d_oplog = None, d_str = storage_of [fresh_table]\<rparr> fmempty\<rparr>)"

lemma locked_node_sel:
  "n_this locked_node = host_b" "n_boot locked_node = Booted" "getPartitionID locked_node h = 0"
  "node_dmap locked_node bk pid name =
     (if \<not> bk \<and> pid = 0 \<and> name = [100]
      then Some \<lparr>d_mx = False, d_locker = Some (take_lock newLocker [107]), d_oplog = None, d_str = storage_of [fresh_table]\<rparr>
      else None)"
  by (auto simp: locked_node_def)

lemma locked_node_owner: "sole_owner w_mem locked_node h host_b"
proof -
  have "storage_inv (d_str dm) \<and> \<not> d_mx dm" if "node_dmap locked_node bk pid name = Some dm" for bk pid name dm
    using that by (auto simp: locked_node_sel split: if_splits)
  moreover have "pid < PartitionCount (n_cfg locked_node) \<longrightarrow> node_part locked_node bk pid \<noteq> None" for bk pid
    by (auto simp: locked_node_def node_part_def set_part_def word_lt_1)
  moreover have "PartitionCount (n_cfg locked_node) \<noteq> 0" by (simp add: locked_node_def)
  ultimately have "wf_node locked_node" unfolding wf_node_def by blast
  then show ?thesis
    by (simp add: sole_owner_def getPartitionOwners_def getBackupPartitionOwners_def locked_node_sel)
      (simp add: locked_node_def set_part_def w_mem_def os_ok_def zero_config_def new_partition_def)
qed

section \<open>Properties\<close>




text \<open>C34. The janitor releases locks that are held: while a key of an empty DMap is locked, another lock of it waits, but
  when the janitor has removed the DMap in between, the second lock is granted at once.\<close>

theorem janitor_drops_lock:
  assumes "cl me = Some n" and "n_this n = ow" and "n_boot n = Booted" and "sole_owner w n (getHKey w name key) ow"
    and "node_dmap n False (getPartitionID n (getHKey w name key)) name = Some dm" and "d_locker dm = Some l"
    and "locks l key = Some c" and "held (ctrs l c)" and "storage_Len (d_str dm) = 0" and "\<forall>k. munmap_ok (w_os w) k"
  shows "lockWithTimeout w rpc cl me name key t = Hang \<and>
    (\<exists>n' n''. delete_stale w cl me False (getPartitionID n (getHKey w name key)) name = ret (cl(me \<mapsto> n')) () \<and>
      lockWithTimeout w rpc (cl(me \<mapsto> n')) me name key t = ret (cl(me \<mapsto> n'')) ())"
proof -
  let ?h = "getHKey w name key" and ?pid = "getPartitionID n (getHKey w name key)"
  have "lockKey w rpc cl me ?h name key t = Hang"
    using assms(1,5-8) getDMap_present [where cl = cl and me = me, OF assms(4,1,5)]
    by (simp add: lockKey_def op_simps with_locker_def locker_check_def lock_and_watch_def lock_enter_def ctr_inc_def)
  then have wait: "lockWithTimeout w rpc cl me name key t = Hang"
    using assms(1-4) by (simp add: lockWithTimeout_def op_simps locate_ok sole_ownerD)
  obtain p where p: "node_part n False ?pid = Some p" "fmlookup (p_m p) name = Some dm" using assms(5) by (rule node_dmapE)
  have wf: "wf_node n" "OperationMode (n_cfg n) = OpInMemory" using assms(4) by (simp_all add: sole_owner_def)
  have inv: "storage_inv (d_str dm)" "\<not> d_mx dm" using wf(1) assms(5) unfolding wf_node_def by blast+
  let ?n = "drop_dmap n False ?pid p name"
  note drop = drop_dmap_ok [OF wf(1) p storage_Len_0 [OF inv(1) assms(9)]]
  have del: "delete_stale w cl me False ?pid name = ret (cl(me \<mapsto> ?n)) ()"
    using delete_stale_eq [where cl = cl and me = me, OF assms(1) p inv(2) wf(2) assms(10)] assms(9) by simp
  have "lock_free ?n name ?h key" using frame_owners(1) [OF drop(2)] by (simp add: lock_free_def drop_dmap_def)
  then obtain n'' where "lockWithTimeout w rpc (cl(me \<mapsto> ?n)) me name key t = ret (cl(me \<mapsto> n'')) ()"
    using lock_owner [of "cl(me \<mapsto> ?n)" me ?n ow w ?h name key rpc t] assms(2,3) frameD [OF drop(2)]
      sole_owner_frame [OF assms(4) drop(2,1)] by auto
  with wait del show ?thesis by blast
qed

theorem janitor_drops_lock_witness:
  "\<exists>n' n''. lockWithTimeout w_mem (wire_rpc 1 w_mem [98]) [[98] \<mapsto> locked_node] [98] [100] [107] 0 = Hang \<and>
    delete_stale w_mem [[98] \<mapsto> locked_node] [98] False 0 [100] = ret [[98] \<mapsto> n'] () \<and>
    lockWithTimeout w_mem (wire_rpc 1 w_mem [98]) [[98] \<mapsto> n'] [98] [100] [107] 0 = ret [[98] \<mapsto> n''] ()"
proof -
  let ?l = "take_lock newLocker [107]"
  have "locks ?l [107] = Some 0" "held (ctrs ?l 0)" "storage_Len (storage_of [fresh_table]) = 0" "\<forall>k. munmap_ok (w_os w_mem) k"
    by (simp_all add: take_lock_def lock_enter_def newLocker_def lock_acquire_def lock_leave_def ctr_dec_def storage_Len_def
        fresh_table_sel w_mem_def os_ok_def)
  with janitor_drops_lock [of "[[98] \<mapsto> locked_node]" "[98]" locked_node host_b w_mem "[100]" "[107]" _ ?l 0
      "wire_rpc 1 w_mem [98]" 0, OF _ locked_node_sel(1,2) locked_node_owner]
  show ?thesis by (simp add: locked_node_sel)
qed

end
