(* ===== verification/Hash_Facts.thy ===== *)
theory Hash_Facts
  imports Hash
begin

text \<open>The default hash function on sample inputs.\<close>

section \<open>Digests\<close>

text \<open>The digests that the library's own tests expect: shorter than a block, and longer.\<close>

lemmas xx_simps = NewDefaultHasher_def xxhasher_Sum64_def xxhash_Sum64_def xx_primes xx_avalanche_def
  xx_four_def xx_eights.simps xx_blocks.simps mergeRound_def xx_round_def rol_def u64_def u32_def push_bit_eq_mult drop_bit_eq_div

lemma xxhash_empty: "NewDefaultHasher [] = 0xef46db3751d8e999"
  by (simp add: xx_simps)

lemma xxhash_abc: "NewDefaultHasher (string_bytes ''abc'') = 0x44bc2cf5ad770999"
  by (simp add: xx_simps string_bytes_def)

lemma xxhash_long:
  "NewDefaultHasher (string_bytes ''Call me Ishmael. Some years ago--never mind how long precisely-'') = 0x02a2e85470d6fd96"
  by (simp add: xx_simps string_bytes_def getUint64_def be_get_def)

end
