(* ===== verification/Serializer_Facts.thy ===== *)
theory Serializer_Facts
  imports Client_Facts Atomic_Facts
begin

text \<open>
  The serializers of \<open>serializers.go\<close> together with the code that uses them: values that go from one process to
  another, and the atomic operations, which expect that an \<open>int\<close> is decoded as an \<open>int\<close>. What is assumed of the
  encoding packages is what they document.
\<close>

section \<open>Assumptions on the packages\<close>

lemma serializer_world_sel [simp]:
  "w_marshal (serializer_world C s reg w) v = snd (Marshal C s reg v)"
  "w_unmarshal (serializer_world C s reg w) = Unmarshal C s reg"
  "w_os (serializer_world C s reg w) = w_os w" "w_hash (serializer_world C s reg w) = w_hash w"
  "getHKey (serializer_world C s reg w) name key = getHKey w name key"
  by (simp_all add: serializer_world_def getHKey_def)

text \<open>\<open>encoding/gob\<close> on a value of type \<open>t\<close> behind an interface: the name of the type is sent with the value, and the
  receiver must have registered it.\<close>

definition gob_interface :: "codecs \<Rightarrow> gval \<Rightarrow> string \<Rightarrow> bytes \<Rightarrow> bool" where
  "gob_interface C v t data \<longleftrightarrow>
     TypeOf v = Some t \<and> (\<forall>reg. t \<in> set reg \<longrightarrow> gob_Encode C reg v = Inr data) \<and>
     (\<forall>reg. gob_Decode C reg data =
        (if t \<in> set reg then Inr v else Inl (ErrOther (''gob: name not registered for interface: '' @ t))))"

text \<open>\<open>encoding/json\<close> and \<open>msgpack\<close> decode a number into an interface as a type of their own choice: JSON takes \<open>float64\<close>,
  and msgpack an integer type of the size that was sent. It is never Go's \<open>int\<close>.\<close>

definition own_numbers :: "codecs \<Rightarrow> serializer \<Rightarrow> bytes \<Rightarrow> bytes \<Rightarrow> bool" where
  "own_numbers C s name key \<longleftrightarrow>
     s \<noteq> gobSerializer \<and>
     (\<forall>i. \<exists>data ty b. snd (Marshal C s [] (VInt i)) = Inr data \<and> small_item name key data \<and>
        Unmarshal C s [] data = Inr (VOther ty b))"

lemma own_numbersE:
  assumes "own_numbers C s name key"
  obtains data ty b where "snd (Marshal C s reg (VInt i)) = Inr data" "small_item name key data"
    "Unmarshal C s reg data = Inr (VOther ty b)"
proof -
  obtain data ty b where "snd (Marshal C s [] (VInt i)) = Inr data" "small_item name key data"
    "Unmarshal C s [] data = Inr (VOther ty b)" using assms unfolding own_numbers_def by blast
  then show ?thesis using that assms by (cases s) (simp_all add: own_numbers_def)
qed

section \<open>A request that crashes the node\<close>

lemma client_Request_crash:
  assumes "clean tc" and "t_Addrs (t_config tc) ! (i mod length (t_Addrs (t_config tc))) = a"
    and "t_Addrs (t_config tc) \<noteq> []" and "cl a = Some n" and "req' = req\<lparr>Magic := MagicReq, Op := op_byte oc\<rparr>"
    and "wire_ok (n_max n) req'" and "extra_ok req'"
    and "dispatch w (wire_rpc k w a) cl a (set_lengths req') oc = Crash"
  shows "client_Request (cluster_net w k maxv) i cl tc oc req = Crash"
proof -
  obtain p j tc1 where p: "getPool None tc a = (tc1, Inr p)" "p_conns p = Some (replicate j open_conn)"
    using assms(1) by (rule getPool_clean)
  obtain p' where p': "pool_Get p None = Inr (open_conn, p')" using p(2) by (rule pool_Get_clean)
  have "roundtrip (cluster_net w k maxv) cl a open_conn req' = Crash"
    using assms(4-8) message_Read_ok [of "n_max n" req' "[]" would_block]
    by (simp add: roundtrip_def cluster_net_def serve_request_def with_node_Some open_conn_def)
  moreover have "net_dial (cluster_net w k maxv) cl a = None" using assms(4) by (simp add: cluster_net_def)
  ultimately show ?thesis using p p' assms(2,3,5) by (simp add: client_Request_def client_RequestTo_def Let_def)
qed

lemma client_delta_crash:
  assumes num: "own_numbers C s name key" and w': "w' = serializer_world C s reg w"
    and tc: "clean tc" "set (t_Addrs (t_config tc)) \<subseteq> dom cl" "t_Addrs (t_config tc) \<noteq> []"
    and max: "\<And>a n. cl a = Some n \<Longrightarrow> DefaultMaxValueSize \<le> n_max n" and oc: "oc = OpExIncr \<or> oc = OpExDecr"
  shows "client_incrDecr w' (cluster_net w' k maxv) i cl tc oc name key delta = Crash"
proof -
  let ?a = "t_Addrs (t_config tc) ! (i mod length (t_Addrs (t_config tc)))"
  obtain n where n: "cl ?a = Some n" using tc(2,3) by (rule picked_node)
  obtain data ty b where data: "snd (Marshal C s reg (VInt delta)) = Inr data" "small_item name key data"
    "Unmarshal C s reg data = Inr (VOther ty b)" using num by (rule own_numbersE)
  let ?req = "(put_request name key data 0)\<lparr>Magic := MagicReq, Op := op_byte oc\<rparr>"
  have req: "put_request name key data 0 = (key_request name key)\<lparr>Value := data\<rparr>"
    by (simp add: put_request_def key_request_def empty_message_def)
  have x: "extra_ok ?req" using oc by (auto simp: extra_ok_def put_request_def key_request_def empty_message_def)
  have "dispatch w' (wire_rpc k w' ?a) cl ?a (set_lengths ?req) oc = Crash"
    using oc data(3) w' by (auto simp: exIncrDecrOperation_def put_request_def key_request_def)
  from client_Request_crash [where i = i, OF tc(1) refl tc(3) n refl put_request_wire [OF data(2) max [OF n]] x this]
  have "client_Request (cluster_net w' k maxv) i cl tc oc ((key_request name key)\<lparr>Value := data\<rparr>) = Crash" unfolding req .
  then show ?thesis using data(1) w' by (simp add: client_incrDecr_def bind_cop_def)
qed

lemma second_delta_refused:
  assumes num: "own_numbers C s name key" and w': "w' = serializer_world C s reg w"
    and ready: "key_ready w' cl me name key n" and none: "live_value n False name (getHKey w' name key) = None"
  shows "\<exists>cl' ty. run_deltas w' rpc cl me name key [d, e] =
    Done (cl', [Inr (apply_delta d 0), Inl (ErrOther (''mismatched type: '' @ ty))])"
proof -
  let ?h = "getHKey w' name key" and ?new = "apply_delta d 0"
  obtain data ty b where data: "snd (Marshal C s reg (VInt ?new)) = Inr data" "small_item name key data"
    "Unmarshal C s reg data = Inr (VOther ty b)" using num by (rule own_numbersE)
  have zero: "counter w' n name ?h = Some 0" using none by (simp add: counter_def)
  have marshal: "w_marshal w' (VInt ?new) = Inr data" using data(1) w' by simp
  have "\<exists>n1. run_delta w' rpc cl me name key d = Done (cl(me \<mapsto> n1), Inr ?new) \<and>
    key_ready w' (cl(me \<mapsto> n1)) me name key n1 \<and>
    node_entry n1 = set_entry (node_entry n) False name ?h (Some \<lparr>vkey = key, vttl = 0, vvalue = data\<rparr>)"
    using atomicIncrDecr_owner [OF ready refl zero _ marshal data(2)]
    by (cases d) (simp_all add: DMap_Incr_def DMap_Decr_def)
  then obtain n1 where n1: "run_delta w' rpc cl me name key d = Done (cl(me \<mapsto> n1), Inr ?new)"
    "key_ready w' (cl(me \<mapsto> n1)) me name key n1"
    "node_entry n1 = set_entry (node_entry n) False name ?h (Some \<lparr>vkey = key, vttl = 0, vvalue = data\<rparr>)" by blast
  have "live_value n1 False name ?h = Some data" using n1(3) by (simp add: live_value_def set_entry_def isKeyExpired_def)
  moreover have "w_unmarshal w' data = Inr (VOther ty b)" using data(3) w' by simp
  ultimately have "\<exists>n2. run_delta w' rpc (cl(me \<mapsto> n1)) me name key e =
      Done (cl(me \<mapsto> n2), Inl (ErrOther (''mismatched type: '' @ ty)))"
    using atomicIncrDecr_mismatch [OF n1(2) refl] by (cases e) (fastforce simp: DMap_Incr_def DMap_Decr_def)+
  with n1(1) show ?thesis by auto
qed

section \<open>Properties\<close>

text \<open>C11. A value of a user's type travels between processes only when the reader knows the type: what one
  client puts with the gob serializer, another client gets back when its process has registered
  the type, for instance because it has itself encoded a value of the type before, and otherwise
  the get fails, although the put succeeded.\<close>

theorem gob_value_across:
  assumes "cluster_ok w route cl" and "DefaultMaxValueSize \<le> maxv"
    and "clean tc" "set (t_Addrs (t_config tc)) \<subseteq> dom cl" "t_Addrs (t_config tc) \<noteq> []"
    and "clean td" "set (t_Addrs (t_config td)) \<subseteq> dom cl" "t_Addrs (t_config td) \<noteq> []"
    and "gob_interface C v t data" and "small_item name key data" "data \<noteq> []"
  shows "\<exists>cl' tc' cl'' td'.
    client_Put (serializer_world C NewGobSerializer ra w) (cluster_net w (Suc k) maxv) i cl tc name key v = Done (cl', tc', Inr ()) \<and>
    client_Get (serializer_world C NewGobSerializer rb w) (cluster_net w (Suc k) maxv) j cl' td name key =
      Done (cl'', td', if t \<in> set rb then Inr v else Inl (ErrOther (''gob: name not registered for interface: '' @ t))) \<and>
    (\<forall>u. TypeOf u = Some t \<longrightarrow>
      client_Get (serializer_world C NewGobSerializer (fst (Marshal C NewGobSerializer rb u)) w) (cluster_net w (Suc k) maxv) j cl' td
        name key = Done (cl'', td', Inr v))"
proof -
  let ?nt = "cluster_net w (Suc k) maxv"
  have m: "w_marshal (serializer_world C NewGobSerializer ra w) v = Inr data"
    using assms(9) by (simp add: gob_interface_def NewGobSerializer_def gob_Register_def)
  have u: "w_unmarshal (serializer_world C NewGobSerializer r w) data =
      (if t \<in> set r then Inr v else Inl (ErrOther (''gob: name not registered for interface: '' @ t)))" for r
    using assms(9) by (simp add: gob_interface_def NewGobSerializer_def)
  have r: "t \<in> set (fst (Marshal C NewGobSerializer rb u))" if "TypeOf u = Some t" for u
    using that by (simp add: Marshal_registry NewGobSerializer_def del: Marshal.simps)
  from client_put_then_get [where k = k and i = i and j = j, OF assms(1-8) m assms(10,11)] obtain cl' tc' cl'' td' where
    c: "client_Put (serializer_world C NewGobSerializer ra w) ?nt i cl tc name key v = Done (cl', tc', Inr ())"
    and get: "\<And>wb. client_Get wb ?nt j cl' td name key = Done (cl'', td', w_unmarshal wb data)" by blast
  show ?thesis
  proof (intro exI conjI allI impI)
    show "client_Put (serializer_world C NewGobSerializer ra w) ?nt i cl tc name key v = Done (cl', tc', Inr ())" by (rule c)
    show "client_Get (serializer_world C NewGobSerializer rb w) ?nt j cl' td name key =
      Done (cl'', td', if t \<in> set rb then Inr v else Inl (ErrOther (''gob: name not registered for interface: '' @ t)))"
      by (simp only: get u)
    fix x
    assume "TypeOf x = Some t"
    then show "client_Get (serializer_world C NewGobSerializer (fst (Marshal C NewGobSerializer rb x)) w) ?nt j cl' td name key =
      Done (cl'', td', Inr v)" by (simp only: get u r if_True)
  qed
qed


text \<open>Sample codecs: a type name of one byte in front of a value, and JSON numbers of eight bytes.\<close>

definition sample_codecs :: codecs where
  "sample_codecs =
     \<lparr>gob_Encode = (\<lambda>reg v. case v of VOther t b \<Rightarrow> if t \<in> set reg then Inr b else Inl ErrEOF | _ \<Rightarrow> Inl ErrEOF),
      gob_Decode = (\<lambda>reg bs. if ''user'' \<in> set reg then Inr (VOther ''user'' bs)
        else Inl (ErrOther (''gob: name not registered for interface: '' @ ''user''))),
      json_Marshal = (\<lambda>v. case v of VInt i \<Rightarrow> Inr (putUint64 i) | _ \<Rightarrow> Inl ErrEOF),
      json_Unmarshal = (\<lambda>bs. Inr (VOther ''float64'' bs)),
      msgpack_Marshal = (\<lambda>v. Inl ErrEOF), msgpack_Unmarshal = (\<lambda>bs. Inl ErrEOF)\<rparr>"

lemma sample_client:
  obtains kc where "client_New (Some \<lparr>k_Addrs = [[97], [98]], k_MaxConn = 0\<rparr>) None = Inr (Ret kc)" "clean (kc_client kc)"
    "set (t_Addrs (t_config (kc_client kc))) \<subseteq> dom sample_cluster" "t_Addrs (t_config (kc_client kc)) \<noteq> []"
proof -
  obtain kc where kc: "client_New (Some \<lparr>k_Addrs = [[97], [98]], k_MaxConn = 0\<rparr>) None = Inr (Ret kc)"
    by (simp add: client_New_def NewClient_def)
  note c = client_New_clean [OF kc _ refl, simplified]
  show ?thesis using c(2) by (intro that [OF kc c(1)]) auto
qed

theorem gob_value_across_witness:
  "\<exists>kc cl' tc' cl'' td'. client_New (Some \<lparr>k_Addrs = [[97], [98]], k_MaxConn = 0\<rparr>) None = Inr (Ret kc) \<and>
    client_Put (serializer_world sample_codecs NewGobSerializer [] w_mem) (cluster_net w_mem 1 (2 ^ 20)) 0 sample_cluster
      (kc_client kc) [100] [107] (VOther ''user'' [1, 2, 3]) = Done (cl', tc', Inr ()) \<and>
    client_Get (serializer_world sample_codecs NewGobSerializer [] w_mem) (cluster_net w_mem 1 (2 ^ 20)) 1 cl' (kc_client kc) [100] [107] =
      Done (cl'', td', Inl (ErrOther (''gob: name not registered for interface: '' @ ''user'')))"
proof -
  obtain kc where kc: "client_New (Some \<lparr>k_Addrs = [[97], [98]], k_MaxConn = 0\<rparr>) None = Inr (Ret kc)" "clean (kc_client kc)"
    "set (t_Addrs (t_config (kc_client kc))) \<subseteq> dom sample_cluster" "t_Addrs (t_config (kc_client kc)) \<noteq> []" by (rule sample_client)
  have g: "gob_interface sample_codecs (VOther ''user'' [1, 2, 3]) ''user'' [1, 2, 3]"
    by (simp add: gob_interface_def sample_codecs_def)
  have i: "small_item [100] [107] [1, 2, 3]" by (simp add: small_item_def maxKeyLen_def minimumSize_def)
  have m: "DefaultMaxValueSize \<le> 2 ^ 20" by (simp add: DefaultMaxValueSize_def)
  show ?thesis
    using gob_value_across [where ra = "[]" and rb = "[]" and k = 0 and i = 0 and j = 1,
        OF sample_cluster_ok m kc(2-4) kc(2-4) g i] kc(1) by auto
qed


end
